(* ===== verification/Prelude.thy ===== *)
theory Prelude
  imports Main "HOL-Library.Char_ord" "HOL-Library.List_Lexorder" "HOL-Library.Multiset" "HOL-Library.Sublist"
begin

text \<open>
  Shared vocabulary of the development: how Python values are represented, the result type
  of code that raises, decimal and hexadecimal text, and the list facts the components use.

  \<^item> \<open>bytes\<close> is a list of \<^typ>\<open>char\<close>, and a \<^typ>\<open>char\<close> of HOL is exactly one octet.
  \<^item> A Python \<open>str\<close> is represented by its UTF-8 octets, so it has the same HOL type. The
    representation is faithful for the operations the sources use: equality, concatenation,
    comparison (UTF-8 keeps the code-point order) and the byte-wise escaping of
    \<open>canonicaljson._quote\<close>, which only looks at code points below 128. The predicate
    \<open>utf8_ok\<close> says that octets are the strict UTF-8 encoding of some text; octets of a lone
    surrogate or an overlong form fail it, as \<open>str.encode("utf-8", "strict")\<close> raises.
  \<^item> Python integers are \<^typ>\<open>int\<close>, a raise is \<^term>\<open>Inl\<close> of an error value.
\<close>

type_synonym bytes = "char list"
type_synonym str = "char list"

named_theorems result_simps \<open>inversion rules of the result type\<close>

section \<open>Results\<close>

definition rbind :: "'e + 'a \<Rightarrow> ('a \<Rightarrow> 'e + 'b) \<Rightarrow> 'e + 'b" where
  "rbind r f = (case r of Inl e \<Rightarrow> Inl e | Inr x \<Rightarrow> f x)"

fun rseq :: "('e + 'a) list \<Rightarrow> 'e + 'a list" where
  "rseq [] = Inr []"
| "rseq (r # rs) = rbind r (\<lambda>x. rbind (rseq rs) (\<lambda>xs. Inr (x # xs)))"

definition is_ok :: "'e + 'a \<Rightarrow> bool" where
  "is_ok r = (case r of Inl _ \<Rightarrow> False | Inr _ \<Rightarrow> True)"

text \<open>\<open>except Error as e: raise Other from e\<close>: a handler that replaces every error.\<close>

definition map_err :: "('e \<Rightarrow> 'f) \<Rightarrow> 'e + 'a \<Rightarrow> 'f + 'a" where
  "map_err g r = (case r of Inl e \<Rightarrow> Inl (g e) | Inr x \<Rightarrow> Inr x)"

section \<open>Text\<close>

definition digit_char :: "nat \<Rightarrow> char" where
  "digit_char n = char_of (48 + n)"

definition is_digit :: "char \<Rightarrow> bool" where
  "is_digit c \<longleftrightarrow> 48 \<le> (of_char c :: nat) \<and> (of_char c :: nat) \<le> 57"

definition digit_val :: "char \<Rightarrow> nat" where
  "digit_val c = of_char c - 48"

fun nat_to_dec :: "nat \<Rightarrow> str" where
  "nat_to_dec n = (if n < 10 then [digit_char n] else nat_to_dec (n div 10) @ [digit_char (n mod 10)])"

declare nat_to_dec.simps [simp del]

definition int_to_dec :: "int \<Rightarrow> str" where
  "int_to_dec i = (if i < 0 then CHR ''-'' # nat_to_dec (nat (- i)) else nat_to_dec (nat i))"

definition nat_of_dec :: "str \<Rightarrow> nat" where
  "nat_of_dec s = foldl (\<lambda>n c. 10 * n + digit_val c) 0 s"

text \<open>\<open>re.fullmatch(r"[0-9a-f]{k}", s)\<close>\<close>

definition is_lower_hex :: "char \<Rightarrow> bool" where
  "is_lower_hex c \<longleftrightarrow> is_digit c \<or> (97 \<le> (of_char c :: nat) \<and> (of_char c :: nat) \<le> 102)"

definition hex_text :: "nat \<Rightarrow> str \<Rightarrow> bool" where
  "hex_text k s \<longleftrightarrow> length s = k \<and> list_all is_lower_hex s"

text \<open>\<open>re.fullmatch(prefix + "[0-9a-f]{k}", s)\<close>\<close>

definition hex_id :: "str \<Rightarrow> nat \<Rightarrow> str \<Rightarrow> bool" where
  "hex_id p k s \<longleftrightarrow> take (length p) s = p \<and> hex_text k (drop (length p) s)"

definition hex_digit_char :: "nat \<Rightarrow> char" where
  "hex_digit_char n = (if n < 10 then char_of (48 + n) else char_of (87 + n))"

text \<open>\<open>bytes.hex()\<close>\<close>

definition hexlify :: "bytes \<Rightarrow> str" where
  "hexlify bs = concat (map (\<lambda>b. [hex_digit_char (of_char b div 16), hex_digit_char (of_char b mod 16)]) bs)"

text \<open>Strict UTF-8: the octets \<open>str.encode("utf-8", "strict")\<close> can produce.\<close>

definition utf8_cont :: "char \<Rightarrow> bool" where
  "utf8_cont c \<longleftrightarrow> 128 \<le> (of_char c :: nat) \<and> (of_char c :: nat) < 192"

fun utf8_ok :: "bytes \<Rightarrow> bool" where
  "utf8_ok [] \<longleftrightarrow> True"
| "utf8_ok (a # r) \<longleftrightarrow>
    (let x = (of_char a :: nat) in
     if x < 128 then utf8_ok r
     else if x < 194 then False
     else if x < 224 then (case r of b # r1 \<Rightarrow> utf8_cont b \<and> utf8_ok r1 | _ \<Rightarrow> False)
     else if x < 240 then (case r of b # c # r2 \<Rightarrow>
         utf8_cont b \<and> utf8_cont c \<and> (x = 224 \<longrightarrow> 160 \<le> (of_char b :: nat)) \<and>
         (x = 237 \<longrightarrow> (of_char b :: nat) < 160) \<and> utf8_ok r2 | _ \<Rightarrow> False)
     else if x < 245 then (case r of b # c # d # r3 \<Rightarrow>
         utf8_cont b \<and> utf8_cont c \<and> utf8_cont d \<and> (x = 240 \<longrightarrow> 144 \<le> (of_char b :: nat)) \<and>
         (x = 244 \<longrightarrow> (of_char b :: nat) < 144) \<and> utf8_ok r3 | _ \<Rightarrow> False)
     else False)"

text \<open>\<open>sep.join(parts)\<close>\<close>

fun join :: "str \<Rightarrow> str list \<Rightarrow> str" where
  "join sep [] = []"
| "join sep [x] = x"
| "join sep (x # y # ys) = x @ sep @ join sep (y # ys)"

section \<open>Facts\<close>

lemma rbind_simps [simp]:
  "rbind (Inl e) f = Inl e" "rbind (Inr x) f = f x"
  by (simp_all add: rbind_def)

lemma rbind_Inr_iff [result_simps]:
  "rbind r f = Inr y \<longleftrightarrow> (\<exists>x. r = Inr x \<and> f x = Inr y)"
  by (cases r) auto

lemma rbind_Inl_iff [result_simps]:
  "rbind r f = Inl e \<longleftrightarrow> r = Inl e \<or> (\<exists>x. r = Inr x \<and> f x = Inl e)"
  by (cases r) auto

lemma rbind_assoc: "rbind (rbind r f) g = rbind r (\<lambda>x. rbind (f x) g)"
  by (cases r) auto

lemma map_err_simps [simp]:
  "map_err g (Inl e) = Inl (g e)" "map_err g (Inr x) = Inr x"
  by (simp_all add: map_err_def)

lemma map_err_Inr_iff [result_simps]: "map_err g r = Inr x \<longleftrightarrow> r = Inr x"
  by (cases r) auto

lemma is_ok_iff: "is_ok r \<longleftrightarrow> (\<exists>x. r = Inr x)"
  by (cases r) (auto simp: is_ok_def)

lemma is_ok_simps [simp]: "\<not> is_ok (Inl e)" "is_ok (Inr x)"
  by (simp_all add: is_ok_def)

lemma rseq_ok: "is_ok (rseq rs) \<longleftrightarrow> (\<forall>r\<in>set rs. is_ok r)"
proof (induction rs)
  case (Cons r rs)
  then show ?case by (cases r; cases "rseq rs") (auto simp: is_ok_def)
qed (simp add: is_ok_def)

lemma is_ok_rbind: "is_ok (rbind r f) \<longleftrightarrow> (\<exists>x. r = Inr x \<and> is_ok (f x))"
  by (cases r) (auto simp: is_ok_def)

lemma is_ok_unit: "is_ok r \<longleftrightarrow> r = Inr ()" for r :: "'e + unit"
  by (cases r) (auto simp: is_ok_def)

lemma rseq_Inr_iff: "rseq rs = Inr xs \<longleftrightarrow> rs = map Inr xs"
proof (induction rs arbitrary: xs)
  case Nil
  then show ?case by auto
next
  case (Cons r rs)
  then show ?case by (cases xs) (auto simp: result_simps)
qed

lemma rseq_map_Inr [simp]: "rseq (map Inr xs) = Inr xs"
  by (simp add: rseq_Inr_iff)

lemma if_Inl_Inr_iff [result_simps]:
  "(if b then Inl e else r) = Inr x \<longleftrightarrow> \<not> b \<and> r = Inr x"
  by simp

subsection \<open>Decimal text\<close>

lemma of_char_digit_char [simp]: "n < 10 \<Longrightarrow> (of_char (digit_char n) :: nat) = 48 + n"
  by (simp add: digit_char_def)

lemma digit_val_digit_char [simp]: "n < 10 \<Longrightarrow> digit_val (digit_char n) = n"
  by (simp add: digit_val_def)

lemma is_digit_digit_char [simp]: "n < 10 \<Longrightarrow> is_digit (digit_char n)"
  by (simp add: is_digit_def)

lemma nat_to_dec_nonempty [simp]: "nat_to_dec n \<noteq> []"
  by (subst nat_to_dec.simps) simp

lemma nat_to_dec_digits: "list_all is_digit (nat_to_dec n)"
proof (induction n rule: nat_to_dec.induct)
  case (1 n)
  then show ?case by (cases "n < 10") (simp_all add: nat_to_dec.simps [of n])
qed

lemma nat_of_dec_snoc: "nat_of_dec (s @ [c]) = 10 * nat_of_dec s + digit_val c"
  by (simp add: nat_of_dec_def)

lemma nat_of_dec_nat_to_dec [simp]: "nat_of_dec (nat_to_dec n) = n"
proof (induction n rule: nat_to_dec.induct)
  case (1 n)
  show ?case
  proof (cases "n < 10")
    case True
    then show ?thesis by (simp add: nat_to_dec.simps [of n] nat_of_dec_def)
  next
    case False
    with 1 show ?thesis by (simp add: nat_to_dec.simps [of n] nat_of_dec_snoc)
  qed
qed

lemma nat_of_dec_foldl: "foldl (\<lambda>n c. 10 * n + digit_val c) a s = a * 10 ^ length s + nat_of_dec s"
proof (induction s arbitrary: a)
  case Nil
  then show ?case by (simp add: nat_of_dec_def)
next
  case (Cons c s)
  have "nat_of_dec (c # s) = digit_val c * 10 ^ length s + nat_of_dec s"
    using Cons [of "digit_val c"] by (simp add: nat_of_dec_def)
  with Cons [of "10 * a + digit_val c"] show ?case
    by (simp add: algebra_simps)
qed

lemma nat_of_dec_Cons: "nat_of_dec (c # s) = digit_val c * 10 ^ length s + nat_of_dec s"
  using nat_of_dec_foldl [of "digit_val c" s] by (simp add: nat_of_dec_def)

lemma digit_val_less: "is_digit c \<Longrightarrow> digit_val c < 10"
  by (auto simp: is_digit_def digit_val_def)

lemma nat_of_dec_less: "list_all is_digit s \<Longrightarrow> nat_of_dec s < 10 ^ length s"
proof (induction s)
  case Nil
  then show ?case by (simp add: nat_of_dec_def)
next
  case (Cons c s)
  then have "nat_of_dec s < 10 ^ length s" and "digit_val c \<le> 9"
    using digit_val_less [of c] by auto
  then have "digit_val c * 10 ^ length s + nat_of_dec s < 9 * 10 ^ length s + 10 ^ length s"
    using mult_le_mono1 [of "digit_val c" 9 "10 ^ length s"] by linarith
  then show ?case by (simp add: nat_of_dec_Cons)
qed

lemma nat_to_dec_hd_zero: "hd (nat_to_dec n) = CHR ''0'' \<Longrightarrow> n = 0"
proof (induction n rule: nat_to_dec.induct)
  case (1 n)
  show ?case
  proof (cases "n < 10")
    case True
    have "(of_char (hd (nat_to_dec n)) :: nat) = 48 + n"
      using True by (simp add: nat_to_dec.simps [of n])
    with "1.prems" show ?thesis by simp
  next
    case False
    then have "hd (nat_to_dec n) = hd (nat_to_dec (n div 10))"
      by (subst nat_to_dec.simps) simp
    with 1 False have "n div 10 = 0" by simp
    with False show ?thesis by simp
  qed
qed

lemma int_to_dec_nonempty [simp]: "int_to_dec i \<noteq> []"
  by (simp add: int_to_dec_def)

subsection \<open>Hexadecimal text\<close>

lemma length_hexlify [simp]: "length (hexlify bs) = 2 * length bs"
  by (induction bs) (auto simp: hexlify_def)

lemma hexlify_Nil [simp]: "hexlify [] = []"
  by (simp add: hexlify_def)

lemma hexlify_Cons: "hexlify (b # bs) =
    hex_digit_char (of_char b div 16) # hex_digit_char (of_char b mod 16) # hexlify bs"
  by (simp add: hexlify_def)

lemma of_char_hex_digit: "n < 16 \<Longrightarrow> (of_char (hex_digit_char n) :: nat) = (if n < 10 then 48 + n else 87 + n)"
  by (simp add: hex_digit_char_def)

lemma hex_digit_char_inject: "m < 16 \<Longrightarrow> n < 16 \<Longrightarrow> hex_digit_char m = hex_digit_char n \<longleftrightarrow> m = n"
proof
  assume mn: "m < 16" "n < 16" and eq: "hex_digit_char m = hex_digit_char n"
  have "(of_char (hex_digit_char m) :: nat) = of_char (hex_digit_char n)"
    using eq by simp
  then show "m = n"
    using mn by (simp add: of_char_hex_digit split: if_splits)
qed simp

lemma is_lower_hex_digit [simp]: "n < 16 \<Longrightarrow> is_lower_hex (hex_digit_char n)"
  by (auto simp: is_lower_hex_def is_digit_def of_char_hex_digit)

lemma of_char_less_256 [simp]: "(of_char c :: nat) < 256"
  using of_char_mod_256 [of c] by (metis mod_less_divisor zero_less_numeral)

lemma hexlify_lower: "list_all is_lower_hex (hexlify bs)"
  by (induction bs) (simp_all add: hexlify_Cons less_mult_imp_div_less)

lemma hex_text_hexlify: "hex_text k (hexlify bs) \<longleftrightarrow> k = 2 * length bs"
  by (auto simp: hex_text_def hexlify_lower)

lemma hexlify_inject: "hexlify xs = hexlify ys \<longleftrightarrow> xs = ys"
proof
  show "hexlify xs = hexlify ys \<Longrightarrow> xs = ys"
  proof (induction xs arbitrary: ys)
    case Nil
    then have "length (hexlify ys) = 0" by simp
    then show ?case by simp
  next
    case (Cons x xs)
    have "length (hexlify ys) = length (hexlify (x # xs))"
      using Cons.prems by simp
    then obtain y ys' where ys: "ys = y # ys'"
      by (cases ys) simp_all
    have d: "of_char x div 16 = (of_char y div 16 :: nat)" "of_char x mod 16 = (of_char y mod 16 :: nat)"
      using Cons.prems
      by (simp_all add: ys hexlify_Cons hex_digit_char_inject less_mult_imp_div_less)
    have "(of_char x :: nat) = of_char y"
      using d by (metis div_mult_mod_eq)
    then have "x = y" by (simp add: of_char_eq_iff)
    with Cons show ?case by (simp add: ys hexlify_Cons)
  qed
qed simp

subsection \<open>Lists\<close>

lemma join_Cons: "join sep (x # xs) = (if xs = [] then x else x @ sep @ join sep xs)"
  by (cases xs) simp_all

lemma sort_key_map_snd: "map (\<lambda>(k, v). (k, f v)) (sort_key fst kvs) = sort_key fst (map (\<lambda>(k, v). (k, f v)) kvs)"
proof -
  have ins: "map (\<lambda>(k, v). (k, f v)) (insort_key fst p xs) = insort_key fst (fst p, f (snd p)) (map (\<lambda>(k, v). (k, f v)) xs)"
    for p xs
    by (induction xs) (auto split: prod.splits)
  show ?thesis
    by (induction kvs) (auto simp: ins)
qed

subsection \<open>Evaluation of character classes\<close>

lemma of_char_int: "(of_char c :: int) = int (of_char c :: nat)"
  by (cases c) (simp add: of_char_def)

lemma of_char_bits: "(of_char c :: nat) = of_bool (digit0 c) + 2 * (of_bool (digit1 c) + 2 * (of_bool (digit2 c) + 2 * (of_bool (digit3 c) +
    2 * (of_bool (digit4 c) + 2 * (of_bool (digit5 c) + 2 * (of_bool (digit6 c) + 2 * of_bool (digit7 c)))))))"
  by (cases c) (simp add: of_char_def)

lemma utf8_cont_bits [code]: "utf8_cont c \<longleftrightarrow> digit7 c \<and> \<not> digit6 c"
  unfolding utf8_cont_def of_char_bits by (auto simp: of_bool_def)

lemma ascii_bits: "(of_char c :: nat) < 128 \<longleftrightarrow> \<not> digit7 c"
  unfolding of_char_bits by (auto simp: of_bool_def)

lemma is_digit_bits [code]:
  "is_digit c \<longleftrightarrow> \<not> digit7 c \<and> \<not> digit6 c \<and> digit5 c \<and> digit4 c \<and> \<not> (digit3 c \<and> (digit2 c \<or> digit1 c))"
  unfolding is_digit_def of_char_bits by (auto simp: of_bool_def)

lemma is_lower_hex_bits [code]:
  "is_lower_hex c \<longleftrightarrow> is_digit c \<or> \<not> digit7 c \<and> digit6 c \<and> digit5 c \<and> \<not> digit4 c \<and> \<not> digit3 c \<and>
    (digit2 c \<or> digit1 c \<or> digit0 c) \<and> \<not> (digit2 c \<and> digit1 c \<and> digit0 c)"
  unfolding is_lower_hex_def is_digit_bits of_char_bits by (auto simp: of_bool_def)

lemma printable_bits:
  "0x20 \<le> (of_char c :: nat) \<and> (of_char c :: nat) \<le> 0x7E \<longleftrightarrow> \<not> digit7 c \<and> (digit6 c \<or> digit5 c) \<and>
    \<not> (digit6 c \<and> digit5 c \<and> digit4 c \<and> digit3 c \<and> digit2 c \<and> digit1 c \<and> digit0 c)"
  unfolding of_char_bits by (auto simp: of_bool_def)

lemma bit_less:
  "of_bool a + 2 * m < of_bool b + 2 * n \<longleftrightarrow> m < n \<or> m = n \<and> \<not> a \<and> b" "of_bool a + 2 * m = of_bool b + 2 * n \<longleftrightarrow> m = n \<and> a = b"
  for m n :: nat
  by (cases a; cases b; simp add: of_bool_def; presburger)+

fun bits_less :: "bool list \<Rightarrow> bool list \<Rightarrow> bool" where
  "bits_less (a # as) (b # bs) \<longleftrightarrow> (if a = b then bits_less as bs else b)"
| "bits_less _ _ \<longleftrightarrow> False"

definition high_bits :: "char \<Rightarrow> bool list" where
  "high_bits c = [digit7 c, digit6 c, digit5 c, digit4 c, digit3 c, digit2 c, digit1 c, digit0 c]"

lemma less_char_bits [code]: "c < d \<longleftrightarrow> bits_less (high_bits c) (high_bits d)" for c d :: char
  unfolding less_char_def of_char_bits bit_less high_bits_def by (auto simp: of_bool_def)

lemma less_eq_char_bits [code]: "c \<le> d \<longleftrightarrow> \<not> bits_less (high_bits d) (high_bits c)" for c d :: char
  unfolding less_char_bits [symmetric] by (simp add: not_less)

lemma utf8_ok_bits [code]:
  "utf8_ok [] \<longleftrightarrow> True"
  "utf8_ok (a # r) \<longleftrightarrow> (if \<not> digit7 a then utf8_ok r else
    (let x = (of_char a :: int) in
     if x < 194 then False
     else if x < 224 then (case r of b # r1 \<Rightarrow> utf8_cont b \<and> utf8_ok r1 | _ \<Rightarrow> False)
     else if x < 240 then (case r of b # c # r2 \<Rightarrow>
         utf8_cont b \<and> utf8_cont c \<and> (x = 224 \<longrightarrow> 160 \<le> (of_char b :: int)) \<and>
         (x = 237 \<longrightarrow> (of_char b :: int) < 160) \<and> utf8_ok r2 | _ \<Rightarrow> False)
     else if x < 245 then (case r of b # c # d # r3 \<Rightarrow>
         utf8_cont b \<and> utf8_cont c \<and> utf8_cont d \<and> (x = 240 \<longrightarrow> 144 \<le> (of_char b :: int)) \<and>
         (x = 244 \<longrightarrow> (of_char b :: int) < 144) \<and> utf8_ok r3 | _ \<Rightarrow> False)
     else False))"
  unfolding of_char_int Let_def by (simp_all add: Let_def ascii_bits [symmetric] cong: list.case_cong)

lemma digit_val_int [code]: "digit_val c = nat ((of_char c :: int) - 48)"
  unfolding of_char_int digit_val_def by simp

end
