(* ===== verification/Sha256.thy ===== *)
theory Sha256
  imports Prelude "HOL-Library.Word"
begin

text \<open>
  The digest every hash-bound contract of the repository uses: \<open>hashlib.sha256\<close>, written out
  over 32-bit words (FIPS 180-4), and the interface the components rely on. A component takes
  the digest function as an argument \<open>H\<close> and uses of it only that it yields 32 octets
  (locale \<open>digest\<close>), so its theorems hold for every such function and in particular for
  \<open>sha256\<close>, which interprets the locale below.
\<close>

unbundle bit_operations_syntax

type_synonym w32 = "32 word"

text \<open>
  The constants are the first 32 bits of the fractional parts of the cube roots of the first 64
  primes and of the square roots of the first 8: \<open>int_root\<close> finds the integer part of the
  \<open>e\<close>-th root bit by bit, and the conversion to a word drops the whole part.
\<close>

fun int_root :: "nat \<Rightarrow> nat \<Rightarrow> int \<Rightarrow> int \<Rightarrow> int" where
  "int_root 0 e n r = r"
| "int_root (Suc k) e n r = int_root k e n (if (r + 2 ^ k) ^ e \<le> n then r + 2 ^ k else r)"

definition root_fraction :: "nat \<Rightarrow> int \<Rightarrow> w32" where
  "root_fraction e p = word_of_int (int_root 37 e (p * 2 ^ (32 * e)) 0)"

definition primes_upto :: "int \<Rightarrow> int list" where
  "primes_upto n = filter (\<lambda>p. list_all (\<lambda>d. p mod d \<noteq> 0) [2..p - 1]) [2..n]"

definition round_constants :: "w32 list" where
  "round_constants = map (root_fraction 3) (primes_upto 311)"

definition initial_state :: "w32 list" where
  "initial_state = map (root_fraction 2) (primes_upto 19)"

definition rotr :: "nat \<Rightarrow> w32 \<Rightarrow> w32" where
  "rotr k x = drop_bit k x OR push_bit (32 - k) x"

definition be32 :: "w32 \<Rightarrow> bytes" where
  "be32 w = map (\<lambda>k. char_of (uint (drop_bit k w))) [24, 16, 8, 0]"

fun words_of :: "bytes \<Rightarrow> w32 list" where
  "words_of (a # b # c # d # r) =
     (push_bit 24 (of_char a) OR push_bit 16 (of_char b) OR push_bit 8 (of_char c) OR of_char d) # words_of r"
| "words_of _ = []"

text \<open>The message schedule, newest word first.\<close>

fun schedule :: "nat \<Rightarrow> w32 list \<Rightarrow> w32 list" where
  "schedule 0 ws = ws"
| "schedule (Suc n) ws =
    (let x = ws ! 14; y = ws ! 1;
         s0 = rotr 7 x XOR rotr 18 x XOR drop_bit 3 x;
         s1 = rotr 17 y XOR rotr 19 y XOR drop_bit 10 y
     in schedule n ((ws ! 15 + s0 + ws ! 6 + s1) # ws))"

fun round_step :: "w32 list \<Rightarrow> w32 \<times> w32 \<Rightarrow> w32 list" where
  "round_step [a, b, c, d, e, f, g, h] (k, w) =
    (let t1 = h + (rotr 6 e XOR rotr 11 e XOR rotr 25 e) + ((e AND f) XOR (NOT e AND g)) + k + w;
         t2 = (rotr 2 a XOR rotr 13 a XOR rotr 22 a) + ((a AND b) XOR (a AND c) XOR (b AND c))
     in [t1 + t2, a, b, c, d + t1, e, f, g])"
| "round_step s _ = s"

definition compress :: "w32 list \<Rightarrow> w32 list \<Rightarrow> w32 list" where
  "compress s blk = map2 (+) s (foldl round_step s (zip round_constants (rev (schedule 48 (rev blk)))))"

fun digest_blocks :: "nat \<Rightarrow> w32 list \<Rightarrow> w32 list \<Rightarrow> w32 list" where
  "digest_blocks 0 s ws = s"
| "digest_blocks (Suc n) s ws = digest_blocks n (compress s (take 16 ws)) (drop 16 ws)"

definition padded :: "bytes \<Rightarrow> bytes" where
  "padded m =
    (let n = length m in
     m @ [CHR 0x80] @ replicate ((119 - n mod 64) mod 64) (CHR 0x00) @
     map (\<lambda>k. char_of ((8 * int n) div 2 ^ k)) [56, 48, 40, 32, 24, 16, 8, 0])"

definition sha256 :: "bytes \<Rightarrow> bytes" where
  "sha256 m =
    (let ws = words_of (padded m) in
     concat (map be32 (digest_blocks (length ws div 16) initial_state ws)))"

text \<open>The interface the components use.\<close>

locale digest =
  fixes H :: "bytes \<Rightarrow> bytes"
  assumes digest_length: "length (H m) = 32"
begin

lemma hex_digest_text: "hex_text 64 (hexlify (H m))"
  by (simp add: hex_text_hexlify digest_length)

lemma hex_digest_inject: "hexlify (H m) = hexlify (H m') \<longleftrightarrow> H m = H m'"
  by (simp add: hexlify_inject)

lemma hex_digest_prefix_length: "length (take 32 (hexlify (H m))) = 32"
  by (simp add: digest_length)

end

lemma length_round_step: "length s = 8 \<Longrightarrow> length (round_step s p) = 8"
  by (induction s p rule: round_step.induct) (simp_all add: Let_def)

lemma length_rounds: "length s = 8 \<Longrightarrow> length (foldl round_step s ps) = 8"
  by (induction ps arbitrary: s) (simp_all add: length_round_step)

lemma length_compress: "length s = 8 \<Longrightarrow> length (compress s blk) = 8"
  by (simp add: compress_def length_rounds)

lemma length_digest_blocks: "length s = 8 \<Longrightarrow> length (digest_blocks n s ws) = 8"
  by (induction n arbitrary: s ws) (simp_all add: length_compress)

lemma length_sha256: "length (sha256 m) = 32"
proof -
  have "length (concat (map be32 ss)) = 4 * length ss" for ss
    by (induction ss) (simp_all add: be32_def)
  moreover have "length initial_state = 8"
    by (simp add: initial_state_def, code_simp)
  ultimately show ?thesis
    by (simp add: sha256_def Let_def length_digest_blocks)
qed

interpretation sha256: digest sha256
  by unfold_locales (rule length_sha256)

text \<open>
  The padded message is a whole number of 64-octet blocks, so the block loop of
  \<open>sha256\<close> consumes every octet of it.
\<close>

lemma padded_blocks: "length (padded m) mod 64 = 0"
proof -
  define r where "r = length m mod 64"
  have r: "r < 64" by (simp add: r_def)
  have z: "(119 - r) mod 64 = (if r \<le> 55 then 55 - r else 119 - r)"
    using r by (simp add: le_mod_geq)
  have "(r + (9 + (119 - r) mod 64)) mod 64 = 0"
    using r by (simp add: z)
  then have "(length m + (9 + (119 - r) mod 64)) mod 64 = 0"
    unfolding r_def by (metis mod_add_left_eq)
  then show ?thesis
    by (simp add: padded_def Let_def r_def algebra_simps)
qed

end
