(* ===== verification/Frames.thy ===== *)
theory Frames
  imports Sha256
begin

text \<open>
  AGF1 frames, the record format of every journal: \<open>core/agmind_immune/evidence/frames.py\<close> and
  the Go implementation of the same format, \<open>internal/durablefile/frame.go\<close>. Shown here: a
  written chain reads back, a chain cut at any octet reads back to its longest whole prefix, what
  the reader accepts re-encodes to the octets it read, and the two implementations agree.

  \<open>google_crc32c\<close> and \<open>hash/crc32\<close> are the argument \<open>crc\<close> of the definitions, \<open>hashlib\<close>
  and \<open>crypto/sha256\<close> the argument \<open>H\<close>; the locale \<open>frame_sums\<close> states what the format needs
  of them, and \<open>sha256\<close> with the Castagnoli checksum below interprets it.
\<close>

section \<open>Definitions\<close>

datatype frame_error =
    MaxFrameInvalid
  | PreviousHashLength
  | PayloadTooLarge
  | JournalCorrupt str
  | TornTail int

record FrameRecord =
  fr_payload :: bytes
  fr_previous_hash :: bytes
  fr_record_hash :: bytes
  fr_offset :: int
  fr_size :: int

record DecodedFrames =
  df_records :: "FrameRecord list"
  df_torn_tail :: bool
  df_verified_bytes :: int

abbreviation MAGIC :: bytes where "MAGIC \<equiv> ''AGF1''"
abbreviation HEADER_SIZE :: nat where "HEADER_SIZE \<equiv> 40"
abbreviation OVERHEAD :: nat where "OVERHEAD \<equiv> 76"
abbreviation HASH_DOMAIN :: bytes where "HASH_DOMAIN \<equiv> ''AGMIND_FRAME_V1'' @ [CHR 0x00]"
abbreviation zero_hash :: bytes where "zero_hash \<equiv> replicate 32 (CHR 0x00)"

text \<open>\<open>struct.pack(">I", n)\<close> and \<open>struct.unpack_from(">I", b, o)\<close>\<close>

definition pack_u32 :: "int \<Rightarrow> bytes" where
  "pack_u32 n = map (\<lambda>k. char_of (n div 2 ^ k)) [24, 16, 8, 0]"

definition unpack_u32 :: "bytes \<Rightarrow> nat \<Rightarrow> int" where
  "unpack_u32 b o' = foldl (\<lambda>a c. 256 * a + of_char c) 0 (take 4 (drop o' b))"

definition validate_max_frame :: "int \<Rightarrow> frame_error + unit" where
  "validate_max_frame max_frame =
    (if max_frame \<le> 0 then Inl MaxFrameInvalid
     else if max_frame > 0xFFFFFFFF then Inl MaxFrameInvalid
     else Inr ())"

definition encode_frame :: "(bytes \<Rightarrow> bytes) \<Rightarrow> (bytes \<Rightarrow> int) \<Rightarrow> bytes \<Rightarrow> bytes \<Rightarrow> int \<Rightarrow> frame_error + bytes" where
  "encode_frame H crc payload previous max_frame =
    rbind (validate_max_frame max_frame) (\<lambda>_.
      if length previous \<noteq> 32 then Inl PreviousHashLength
      else if int (length payload) > max_frame then Inl PayloadTooLarge
      else
        let header = MAGIC @ pack_u32 (int (length payload)) @ previous;
            crc_input = header @ payload;
            crc_bytes = pack_u32 (crc crc_input);
            record_hash = H (HASH_DOMAIN @ crc_input @ crc_bytes)
        in Inr (crc_input @ crc_bytes @ record_hash))"

text \<open>
  \<open>_read_exact\<close>: \<open>stream.read(remaining)\<close> returns at most \<open>remaining\<close> octets of what is left,
  and none only at the end; how many it returns is the argument \<open>chunk\<close>.
\<close>

definition stream_read :: "(nat \<Rightarrow> bytes \<Rightarrow> nat) \<Rightarrow> nat \<Rightarrow> bytes \<Rightarrow> bytes" where
  "stream_read chunk remaining rest = take (max 1 (min remaining (chunk remaining rest))) rest"

function read_exact :: "(nat \<Rightarrow> bytes \<Rightarrow> nat) \<Rightarrow> nat \<Rightarrow> bytes \<Rightarrow> bytes \<times> bytes" where
  "read_exact chunk remaining rest =
    (if remaining = 0 then ([], rest)
     else
       let c = stream_read chunk remaining rest in
       if c = [] then ([], rest)
       else
         let (more, rest') = read_exact chunk (remaining - length c) (drop (length c) rest)
         in (c @ more, rest'))"
  by pat_completeness auto

termination
  by (relation "measure (\<lambda>(_, n, _). n)") auto

text \<open>The checks of \<open>iter_frames\<close> on one complete frame (lines 116 to 138).\<close>

definition verify_frame :: "(bytes \<Rightarrow> bytes) \<Rightarrow> (bytes \<Rightarrow> int) \<Rightarrow> bytes \<Rightarrow> int \<Rightarrow> bytes \<Rightarrow> int \<Rightarrow> frame_error + FrameRecord" where
  "verify_frame H crc expected_previous offs frame payload_length =
    (let previous = take 32 (drop 8 frame);
         crc_offset = HEADER_SIZE + nat payload_length;
         stored_hash = drop (crc_offset + 4) frame;
         computed_hash = H (HASH_DOMAIN @ take (crc_offset + 4) frame)
     in
     if previous \<noteq> expected_previous then Inl (JournalCorrupt ''previous record hash mismatch'')
     else if unpack_u32 frame crc_offset \<noteq> crc (take crc_offset frame) then Inl (JournalCorrupt ''CRC32C mismatch'')
     else if stored_hash \<noteq> computed_hash then Inl (JournalCorrupt ''frame hash mismatch'')
     else Inr
       \<lparr>fr_payload = drop HEADER_SIZE (take crc_offset frame), fr_previous_hash = previous,
        fr_record_hash = stored_hash, fr_offset = offs, fr_size = int OVERHEAD + payload_length\<rparr>)"

text \<open>
  One turn of the loop of \<open>iter_frames\<close>: \<open>Inr None\<close> is the normal return, \<open>Inr (Some _)\<close> a
  yielded record with the rest of the stream.
\<close>

definition next_frame :: "(bytes \<Rightarrow> bytes) \<Rightarrow> (bytes \<Rightarrow> int) \<Rightarrow> (nat \<Rightarrow> bytes \<Rightarrow> nat) \<Rightarrow> int \<Rightarrow> bytes \<Rightarrow> int \<Rightarrow> bytes
    \<Rightarrow> frame_error + (FrameRecord \<times> bytes) option" where
  "next_frame H crc chunk max_frame expected_previous offs stream =
    (let (magic, stream1) = read_exact chunk (length MAGIC) stream in
     if magic = [] then Inr None
     else if length magic < length MAGIC then Inl (TornTail offs)
     else if magic \<noteq> MAGIC then Inl (JournalCorrupt ''invalid frame magic'')
     else
       let (header_tail, stream2) = read_exact chunk (HEADER_SIZE - length MAGIC) stream1 in
       if length header_tail \<noteq> HEADER_SIZE - length MAGIC then Inl (TornTail offs)
       else
         let header = magic @ header_tail;
             payload_length = unpack_u32 header (length MAGIC)
         in
         if payload_length > max_frame then Inl (JournalCorrupt ''frame payload length exceeds explicit limit'')
         else
           let (body, stream3) = read_exact chunk (nat payload_length + (OVERHEAD - HEADER_SIZE)) stream2 in
           if length body \<noteq> nat payload_length + (OVERHEAD - HEADER_SIZE) then Inl (TornTail offs)
           else
             rbind (verify_frame H crc expected_previous offs (header @ body) payload_length) (\<lambda>r.
               Inr (Some (r, stream3))))"

declare read_exact.simps [simp del]

lemma stream_read_prefix:
  assumes "0 < n" and "s \<noteq> []"
  obtains k where "stream_read chunk n s = take k s" and "0 < k" and "k \<le> n" and "k \<le> length s"
proof
  let ?k = "min (max 1 (min n (chunk n s))) (length s)"
  have "take m s = take (min m (length s)) s" for m by (cases "m \<le> length s") auto
  then show "stream_read chunk n s = take ?k s" unfolding stream_read_def .
  show "0 < ?k" "?k \<le> n" "?k \<le> length s" using assms by auto
qed

lemma read_exact_eq: "read_exact chunk n s = (take n s, drop n s)"
proof (induction n arbitrary: s rule: less_induct)
  case (less n)
  show ?case
  proof (cases "n = 0 \<or> s = []")
    case True
    then show ?thesis by (auto simp: read_exact.simps [of chunk n s] stream_read_def)
  next
    case False
    then obtain k where c: "stream_read chunk n s = take k s" and k: "0 < k" "k \<le> n" "k \<le> length s"
      using stream_read_prefix [of n s] by blast
    have "take k s @ take (n - k) (drop k s) = take n s"
      using k(2) by (metis le_add_diff_inverse take_add)
    with less [of "n - k" "drop k s"] False c k show ?thesis
      by (simp add: read_exact.simps [of chunk n s] Let_def)
  qed
qed

text \<open>One turn, with the reads resolved: it depends on the octets left and not on how they arrive.\<close>

lemma next_frame_eq:
  "next_frame H crc chunk max_frame expected offs s =
    (if s = [] then Inr None
     else if length s < 4 then Inl (TornTail offs)
     else if take 4 s \<noteq> MAGIC then Inl (JournalCorrupt ''invalid frame magic'')
     else if length s < HEADER_SIZE then Inl (TornTail offs)
     else if unpack_u32 s 4 > max_frame then Inl (JournalCorrupt ''frame payload length exceeds explicit limit'')
     else if length s < OVERHEAD + nat (unpack_u32 s 4) then Inl (TornTail offs)
     else rbind (verify_frame H crc expected offs (take (OVERHEAD + nat (unpack_u32 s 4)) s) (unpack_u32 s 4)) (\<lambda>r.
       Inr (Some (r, drop (OVERHEAD + nat (unpack_u32 s 4)) s))))"
proof -
  have m: "length MAGIC = 4" by simp
  have h: "take 4 s @ take (HEADER_SIZE - 4) (drop 4 s) = take HEADER_SIZE s"
    by (simp flip: take_add)
  have u: "unpack_u32 (take HEADER_SIZE s) 4 = unpack_u32 s 4"
    by (simp add: unpack_u32_def drop_take)
  have d: "drop (HEADER_SIZE - 4) (drop 4 s) = drop HEADER_SIZE s" by simp
  have b: "take HEADER_SIZE s @ take (k + (OVERHEAD - HEADER_SIZE)) (drop HEADER_SIZE s) = take (OVERHEAD + k) s" for k
    using take_add [of HEADER_SIZE "k + (OVERHEAD - HEADER_SIZE)" s] by simp
  have e: "drop (k + (OVERHEAD - HEADER_SIZE)) (drop HEADER_SIZE s) = drop (OVERHEAD + k) s" for k by simp
  have t: "take 4 s = [] \<longleftrightarrow> s = []" "length (take 4 s) < 4 \<longleftrightarrow> length s < 4" by auto
  have l1: "length (take (HEADER_SIZE - 4) (drop 4 s)) \<noteq> HEADER_SIZE - 4 \<longleftrightarrow> length s < HEADER_SIZE" by auto
  have l2: "HEADER_SIZE \<le> length s \<Longrightarrow>
    length (take (k + (OVERHEAD - HEADER_SIZE)) (drop HEADER_SIZE s)) \<noteq> k + (OVERHEAD - HEADER_SIZE) \<longleftrightarrow>
    length s < OVERHEAD + k" for k by auto
  show ?thesis
    unfolding next_frame_def m read_exact_eq Let_def prod.case t h u d l1 b e
    using l2 by (auto simp del: length_take)
qed

lemma next_frame_shorter:
  assumes "next_frame H crc chunk m p offs s = Inr (Some (r, s'))"
  shows "length s' < length s"
proof -
  from assms have "s \<noteq> []" and "s' = drop (OVERHEAD + nat (unpack_u32 s 4)) s"
    by (auto simp: next_frame_eq result_simps split: if_splits)
  then show ?thesis by simp
qed

text \<open>
  The generator \<open>iter_frames\<close>: the records it yields, in order, and the error that ends it, if
  any. Every turn that yields shortens the stream.
\<close>

function iter_loop :: "(bytes \<Rightarrow> bytes) \<Rightarrow> (bytes \<Rightarrow> int) \<Rightarrow> (nat \<Rightarrow> bytes \<Rightarrow> nat) \<Rightarrow> int \<Rightarrow> bytes \<Rightarrow> int \<Rightarrow> bytes
    \<Rightarrow> FrameRecord list \<times> frame_error option" where
  "iter_loop H crc chunk max_frame expected_previous offs stream =
    (case next_frame H crc chunk max_frame expected_previous offs stream of
       Inl e \<Rightarrow> ([], Some e)
     | Inr None \<Rightarrow> ([], None)
     | Inr (Some (r, stream')) \<Rightarrow>
         let (rs, e) = iter_loop H crc chunk max_frame (fr_record_hash r) (offs + fr_size r) stream'
         in (r # rs, e))"
  by pat_completeness auto

termination
  by (relation "measure (\<lambda>(_, _, _, _, _, _, s). length s)") (auto dest: next_frame_shorter)

declare iter_loop.simps [simp del]

definition iter_frames :: "(bytes \<Rightarrow> bytes) \<Rightarrow> (bytes \<Rightarrow> int) \<Rightarrow> (nat \<Rightarrow> bytes \<Rightarrow> nat) \<Rightarrow> bytes \<Rightarrow> int
    \<Rightarrow> FrameRecord list \<times> frame_error option" where
  "iter_frames H crc chunk stream max_frame =
    (case validate_max_frame max_frame of
       Inl e \<Rightarrow> ([], Some e)
     | Inr _ \<Rightarrow> iter_loop H crc chunk max_frame zero_hash 0 stream)"

definition read_frames :: "(bytes \<Rightarrow> bytes) \<Rightarrow> (bytes \<Rightarrow> int) \<Rightarrow> (nat \<Rightarrow> bytes \<Rightarrow> nat) \<Rightarrow> bytes \<Rightarrow> int
    \<Rightarrow> frame_error + DecodedFrames" where
  "read_frames H crc chunk stream max_frame =
    (case iter_frames H crc chunk stream max_frame of
       (rs, Some (TornTail verified)) \<Rightarrow> Inr \<lparr>df_records = rs, df_torn_tail = True, df_verified_bytes = verified\<rparr>
     | (rs, Some e) \<Rightarrow> Inl e
     | (rs, None) \<Rightarrow>
         Inr \<lparr>df_records = rs, df_torn_tail = False,
              df_verified_bytes = (if rs = [] then 0 else fr_offset (last rs) + fr_size (last rs))\<rparr>)"

text \<open>\<open>decode_frames\<close>: \<open>io.BytesIO.read\<close> returns all that is asked for, or all that is left.\<close>

definition decode_frames :: "(bytes \<Rightarrow> bytes) \<Rightarrow> (bytes \<Rightarrow> int) \<Rightarrow> bytes \<Rightarrow> int \<Rightarrow> frame_error + DecodedFrames" where
  "decode_frames H crc raw max_frame = read_frames H crc (\<lambda>n _. n) raw max_frame"

subsection \<open>The Go implementation\<close>

datatype go_frame_error =
    ErrMaxFrame
  | ErrFrameTooLarge
  | ErrJournalCorrupt str
  | ErrTornTail

record RecordMeta =
  rm_Hash :: bytes
  rm_PreviousHash :: bytes
  rm_PayloadLength :: int
  rm_Size :: int
  rm_Offset :: int

definition EncodeFrame :: "(bytes \<Rightarrow> bytes) \<Rightarrow> (bytes \<Rightarrow> int) \<Rightarrow> bytes \<Rightarrow> bytes \<Rightarrow> 32 word
    \<Rightarrow> go_frame_error + bytes \<times> RecordMeta" where
  "EncodeFrame H crc payload previousHash maxFrame =
    (if maxFrame = 0 then Inl ErrMaxFrame
     else if int (length payload) > uint maxFrame \<or> int (length payload) > 2 ^ 32 - 1 then Inl ErrFrameTooLarge
     else
       let total = int OVERHEAD + int (length payload) in
       if total > 2 ^ 63 - 1 then Inl ErrFrameTooLarge
       else
         let head = MAGIC @ pack_u32 (int (length payload)) @ previousHash @ payload;
             summed = head @ pack_u32 (crc head);
             sum = H (HASH_DOMAIN @ summed)
         in Inr (summed @ sum,
           \<lparr>rm_Hash = sum, rm_PreviousHash = previousHash, rm_PayloadLength = int (length payload),
            rm_Size = total, rm_Offset = 0\<rparr>))"

definition DecodeFrame :: "(bytes \<Rightarrow> bytes) \<Rightarrow> (bytes \<Rightarrow> int) \<Rightarrow> bytes \<Rightarrow> 32 word \<Rightarrow> bytes
    \<Rightarrow> go_frame_error + RecordMeta \<times> bytes" where
  "DecodeFrame H crc raw maxFrame expectedPrevious =
    (if maxFrame = 0 then Inl ErrMaxFrame
     else if length raw \<ge> 4 \<and> take 4 raw \<noteq> MAGIC then Inl (ErrJournalCorrupt ''invalid frame magic'')
     else if length raw < HEADER_SIZE then Inl ErrTornTail
     else
       let payloadLength = unpack_u32 raw 4 in
       if payloadLength > uint maxFrame then Inl (ErrJournalCorrupt ''payload length exceeds limit'')
       else
         let total = int OVERHEAD + payloadLength in
         if int (length raw) < total then Inl ErrTornTail
         else if int (length raw) \<noteq> total then Inl (ErrJournalCorrupt ''trailing frame bytes'')
         else
           let previous = take 32 (drop 8 raw) in
           if previous \<noteq> expectedPrevious then Inl (ErrJournalCorrupt ''previous hash mismatch'')
           else
             let crcOffset = HEADER_SIZE + nat payloadLength;
                 storedCRC = unpack_u32 raw crcOffset
             in
             if crc (take crcOffset raw) \<noteq> storedCRC then Inl (ErrJournalCorrupt ''CRC32C mismatch'')
             else
               let storedHash = drop (crcOffset + 4) raw;
                   sum = H (HASH_DOMAIN @ take (crcOffset + 4) raw)
               in
               if storedHash \<noteq> sum then Inl (ErrJournalCorrupt ''frame hash mismatch'')
               else Inr
                 (\<lparr>rm_Hash = sum, rm_PreviousHash = previous, rm_PayloadLength = payloadLength,
                   rm_Size = total, rm_Offset = 0\<rparr>,
                  drop HEADER_SIZE (take crcOffset raw)))"

subsection \<open>The Castagnoli checksum\<close>

text \<open>\<open>crc32.Checksum(b, crc32.MakeTable(crc32.Castagnoli))\<close>, bit by bit on the reflected polynomial.\<close>

fun crc32c_bits :: "nat \<Rightarrow> w32 \<Rightarrow> w32" where
  "crc32c_bits 0 r = r"
| "crc32c_bits (Suc n) r = crc32c_bits n (if bit r 0 then drop_bit 1 r XOR 0x82F63B78 else drop_bit 1 r)"

definition crc32c :: "bytes \<Rightarrow> int" where
  "crc32c b = uint (NOT (foldl (\<lambda>r c. crc32c_bits 8 (r XOR of_char c)) (NOT 0) b))"

subsection \<open>What a writer leaves behind\<close>

text \<open>
  The octets of one frame and its hash, and the chain a writer makes that links every frame to the
  hash of the one before it (\<open>previous_hash = frame[-32:]\<close>), with the records a reader should see.
\<close>

definition frame_summed :: "(bytes \<Rightarrow> int) \<Rightarrow> bytes \<Rightarrow> bytes \<Rightarrow> bytes" where
  "frame_summed crc prev p =
    (let crc_input = MAGIC @ pack_u32 (int (length p)) @ prev @ p in crc_input @ pack_u32 (crc crc_input))"

definition frame_hash :: "(bytes \<Rightarrow> bytes) \<Rightarrow> (bytes \<Rightarrow> int) \<Rightarrow> bytes \<Rightarrow> bytes \<Rightarrow> bytes" where
  "frame_hash H crc prev p = H (HASH_DOMAIN @ frame_summed crc prev p)"

definition frame_bytes :: "(bytes \<Rightarrow> bytes) \<Rightarrow> (bytes \<Rightarrow> int) \<Rightarrow> bytes \<Rightarrow> bytes \<Rightarrow> bytes" where
  "frame_bytes H crc prev p = frame_summed crc prev p @ frame_hash H crc prev p"

fun chain_bytes :: "(bytes \<Rightarrow> bytes) \<Rightarrow> (bytes \<Rightarrow> int) \<Rightarrow> bytes \<Rightarrow> bytes list \<Rightarrow> bytes" where
  "chain_bytes H crc prev [] = []"
| "chain_bytes H crc prev (p # ps) = frame_bytes H crc prev p @ chain_bytes H crc (frame_hash H crc prev p) ps"

fun chain_head :: "(bytes \<Rightarrow> bytes) \<Rightarrow> (bytes \<Rightarrow> int) \<Rightarrow> bytes \<Rightarrow> bytes list \<Rightarrow> bytes" where
  "chain_head H crc prev [] = prev"
| "chain_head H crc prev (p # ps) = chain_head H crc (frame_hash H crc prev p) ps"

text \<open>The inputs of the digest in the chain.\<close>

fun chain_inputs :: "(bytes \<Rightarrow> bytes) \<Rightarrow> (bytes \<Rightarrow> int) \<Rightarrow> bytes \<Rightarrow> bytes list \<Rightarrow> bytes set" where
  "chain_inputs H crc prev [] = {}"
| "chain_inputs H crc prev (p # ps) =
    insert (HASH_DOMAIN @ frame_summed crc prev p) (chain_inputs H crc (frame_hash H crc prev p) ps)"

fun chain_records :: "(bytes \<Rightarrow> bytes) \<Rightarrow> (bytes \<Rightarrow> int) \<Rightarrow> bytes \<Rightarrow> int \<Rightarrow> bytes list \<Rightarrow> FrameRecord list" where
  "chain_records H crc prev offs [] = []"
| "chain_records H crc prev offs (p # ps) =
    \<lparr>fr_payload = p, fr_previous_hash = prev, fr_record_hash = frame_hash H crc prev p,
     fr_offset = offs, fr_size = int OVERHEAD + int (length p)\<rparr>
    # chain_records H crc (frame_hash H crc prev p) (offs + int OVERHEAD + int (length p)) ps"

text \<open>
  The writer: each frame is encoded against the last 32 octets of the one before, as the journals do.
\<close>

fun write_chain :: "(bytes \<Rightarrow> bytes) \<Rightarrow> (bytes \<Rightarrow> int) \<Rightarrow> int \<Rightarrow> bytes \<Rightarrow> bytes list \<Rightarrow> frame_error + bytes" where
  "write_chain H crc m prev [] = Inr []"
| "write_chain H crc m prev (p # ps) =
    rbind (encode_frame H crc p prev m) (\<lambda>f.
      rbind (write_chain H crc m (drop (length f - 32) f) ps) (\<lambda>r. Inr (f @ r)))"

text \<open>The payloads whose frames lie wholly within the first \<open>n\<close> octets.\<close>

fun whole_frames :: "nat \<Rightarrow> bytes list \<Rightarrow> bytes list" where
  "whole_frames n [] = []"
| "whole_frames n (p # ps) =
    (if n < OVERHEAD + length p then [] else p # whole_frames (n - (OVERHEAD + length p)) ps)"

definition chain_length :: "bytes list \<Rightarrow> nat" where
  "chain_length ps = sum_list (map (\<lambda>p. OVERHEAD + length p) ps)"

section \<open>Fixed-width integers\<close>

lemma length_pack_u32 [simp]: "length (pack_u32 n) = 4"
  by (simp add: pack_u32_def)

lemma of_char_range: "0 \<le> (of_char c :: int)" "(of_char c :: int) < 256"
proof -
  have "(of_char c :: int) = of_char c mod 256" by simp
  then show "0 \<le> (of_char c :: int)" "(of_char c :: int) < 256"
    by (metis pos_mod_sign pos_mod_bound zero_less_numeral)+
qed

lemma char_of_mult: "char_of (256 * k + V) = (char_of V :: char)" for k V :: int
  by (metis char_of_mod_256 mod_mult_self4)

lemma unpack_pack_u32:
  assumes "0 \<le> n" and "n < 2 ^ 32"
  shows "unpack_u32 (pack_u32 n @ r) 0 = n"
proof -
  define a b c where "a = n div 256" "b = n div 65536" "c = n div 16777216"
  have d: "c = b div 256" "b = a div 256" "a = n div 256"
    by (simp_all add: a_b_c_def flip: zdiv_zmult2_eq)
  have "0 \<le> c" "c < 256" using assms by (simp_all add: a_b_c_def)
  then have "c mod 256 = c" by simp
  then have "unpack_u32 (pack_u32 n @ r) 0 = 256 * (256 * (256 * c + b mod 256) + a mod 256) + n mod 256"
    by (simp add: unpack_u32_def pack_u32_def flip: a_b_c_def)
  also have "256 * c + b mod 256 = b" using d(1) by simp
  also have "256 * b + a mod 256 = a" using d(2) by simp
  also have "256 * a + n mod 256 = n" using d(3) by simp
  finally show ?thesis .
qed

lemma unpack_u32_four:
  "unpack_u32 (w # x # y # z # r) 0 = 256 * (256 * (256 * of_char w + of_char x) + of_char y) + of_char z"
  by (simp add: unpack_u32_def)

lemma low_digit_div: "0 \<le> Z \<Longrightarrow> Z < 256 \<Longrightarrow> (256 * k + Z) div 256 = k" for k Z :: int
  by simp

lemma char_of_u32:
  "pack_u32 (256 * (256 * (256 * of_char w + of_char x) + of_char y) + of_char z) = [w, x, y, z]"
proof -
  let ?n = "256 * (256 * (256 * of_char w + of_char x) + of_char y) + of_char z :: int"
  have 1: "?n div 256 = 256 * (256 * of_char w + of_char x) + of_char y"
    by (rule low_digit_div) (rule of_char_range)+
  have 2: "?n div 65536 = 256 * of_char w + of_char x"
    using zdiv_zmult2_eq [of 256 ?n 256] low_digit_div [OF of_char_range(1,2) [of y], of "256 * of_char w + of_char x"]
    unfolding 1 by simp
  have 3: "?n div 16777216 = of_char w"
    using zdiv_zmult2_eq [of 256 ?n 65536] low_digit_div [OF of_char_range(1,2) [of x], of "of_char w"]
    unfolding 2 by simp
  have "pack_u32 ?n = map char_of [?n div 16777216, ?n div 65536, ?n div 256, ?n]"
    by (simp add: pack_u32_def)
  also have "\<dots> = [w, x, y, z]"
    unfolding 1 2 3 by (simp only: list.map char_of_mult char_of_char)
  finally show ?thesis .
qed

lemma pack_unpack_u32:
  assumes "length b = 4"
  shows "pack_u32 (unpack_u32 b 0) = b"
proof -
  obtain w x y z where b: "b = [w, x, y, z]"
    using assms by (auto simp: numeral_eq_Suc length_Suc_conv)
  show ?thesis unfolding b unpack_u32_four by (rule char_of_u32)
qed

lemma unpack_u32_range: "0 \<le> unpack_u32 b k"
proof -
  have "0 \<le> foldl (\<lambda>a c. 256 * a + of_char c) a s" if "0 \<le> a" for a :: int and s
    using that by (induction s arbitrary: a) (simp_all add: of_char_range)
  then show ?thesis by (simp add: unpack_u32_def)
qed

lemma unpack_u32_append: "length a = k \<Longrightarrow> unpack_u32 (a @ b) k = unpack_u32 b 0"
  by (simp add: unpack_u32_def)

lemma pack_u32_unpack: "k + 4 \<le> length b \<Longrightarrow> pack_u32 (unpack_u32 b k) = take 4 (drop k b)"
  using pack_unpack_u32 [of "take 4 (drop k b)"] by (simp add: unpack_u32_def)


section \<open>The chain\<close>

lemma take_prefix: "length a = k \<Longrightarrow> take k (a @ b) = a" and drop_prefix: "length a = k \<Longrightarrow> drop k (a @ b) = b"
  by simp_all

locale frame_sums = digest +
  fixes crc :: "bytes \<Rightarrow> int"
  assumes crc_range: "0 \<le> crc b" "crc b < 2 ^ 32"
begin

lemma length_frame_hash [simp]: "length (frame_hash H crc prev p) = 32"
  by (simp add: frame_hash_def digest_length)

lemma length_frame_bytes [simp]: "length prev = 32 \<Longrightarrow> length (frame_bytes H crc prev p) = OVERHEAD + length p"
  by (simp add: frame_bytes_def frame_summed_def Let_def)

lemma length_chain_bytes: "length prev = 32 \<Longrightarrow> length (chain_bytes H crc prev ps) = chain_length ps"
  by (induction ps arbitrary: prev) (simp_all add: chain_length_def)

lemma chain_bytes_append:
  "chain_bytes H crc prev (ps @ qs) = chain_bytes H crc prev ps @ chain_bytes H crc (chain_head H crc prev ps) qs"
  by (induction ps arbitrary: prev) simp_all

lemma length_chain_head: "length prev = 32 \<Longrightarrow> length (chain_head H crc prev ps) = 32"
  by (induction ps arbitrary: prev) simp_all

lemma encode_frame_eq:
  "encode_frame H crc p prev m = Inr f \<longleftrightarrow>
    0 < m \<and> m \<le> 0xFFFFFFFF \<and> length prev = 32 \<and> int (length p) \<le> m \<and> f = frame_bytes H crc prev p"
  by (auto simp: encode_frame_def validate_max_frame_def frame_bytes_def frame_summed_def frame_hash_def Let_def
      result_simps split: if_splits)

lemma frame_parts:
  assumes "length prev = 32" and "length p < 2 ^ 32"
  shows "take 4 (frame_bytes H crc prev p @ r) = MAGIC"
    and "unpack_u32 (frame_bytes H crc prev p @ r) 4 = int (length p)"
    and "verify_frame H crc prev offs (frame_bytes H crc prev p) (int (length p)) = Inr
      \<lparr>fr_payload = p, fr_previous_hash = prev, fr_record_hash = frame_hash H crc prev p,
       fr_offset = offs, fr_size = int OVERHEAD + int (length p)\<rparr>"
proof -
  let ?in = "MAGIC @ pack_u32 (int (length p)) @ prev @ p"
  have f: "frame_bytes H crc prev p = ?in @ pack_u32 (crc ?in) @ frame_hash H crc prev p"
    by (simp add: frame_bytes_def frame_summed_def Let_def)
  show "take 4 (frame_bytes H crc prev p @ r) = MAGIC" by (simp add: f)
  have len: "int (length p) < 2 ^ 32" using assms(2) by (metis of_nat_less_iff of_nat_numeral of_nat_power)
  have "unpack_u32 (frame_bytes H crc prev p @ r) 4 = unpack_u32 (MAGIC @ pack_u32 (int (length p)) @ prev @ p @ pack_u32 (crc ?in) @ frame_hash H crc prev p @ r) 4"
    unfolding f append_assoc ..
  also have "\<dots> = int (length p)"
    by (subst unpack_u32_append) (simp, rule unpack_pack_u32, simp, rule len)
  finally show "unpack_u32 (frame_bytes H crc prev p @ r) 4 = int (length p)" .
  have in_len: "length ?in = HEADER_SIZE + length p" using assms(1) by simp
  have c: "unpack_u32 (frame_bytes H crc prev p) (HEADER_SIZE + length p) = crc ?in"
    unfolding f by (subst unpack_u32_append [OF in_len]) (rule unpack_pack_u32 [OF crc_range])
  have t: "take (HEADER_SIZE + length p) (frame_bytes H crc prev p) = ?in"
    unfolding f by (rule take_prefix [OF in_len])
  have sum_len: "length (frame_summed crc prev p) = HEADER_SIZE + length p + 4"
    using assms(1) by (simp add: frame_summed_def Let_def)
  have s: "take (HEADER_SIZE + length p + 4) (frame_bytes H crc prev p) = frame_summed crc prev p"
    unfolding frame_bytes_def by (rule take_prefix [OF sum_len])
  have d: "drop (HEADER_SIZE + length p + 4) (frame_bytes H crc prev p) = frame_hash H crc prev p"
    unfolding frame_bytes_def by (rule drop_prefix [OF sum_len])
  have h: "H (HASH_DOMAIN @ frame_summed crc prev p) = frame_hash H crc prev p"
    by (simp add: frame_hash_def)
  have v: "take 32 (drop 8 (frame_bytes H crc prev p)) = prev"
    unfolding f using assms(1) by (simp add: drop_Cons')
  have q: "drop HEADER_SIZE ?in = p" using assms(1) by (simp add: drop_Cons')
  show "verify_frame H crc prev offs (frame_bytes H crc prev p) (int (length p)) = Inr
      \<lparr>fr_payload = p, fr_previous_hash = prev, fr_record_hash = frame_hash H crc prev p,
       fr_offset = offs, fr_size = int OVERHEAD + int (length p)\<rparr>"
    unfolding verify_frame_def Let_def nat_int v c t s d h q by simp
qed

lemma next_frame_chain:
  assumes "length prev = 32" and "int (length p) \<le> m" and "m \<le> 0xFFFFFFFF"
  shows "next_frame H crc chunk m prev offs (frame_bytes H crc prev p @ r) = Inr (Some
    (\<lparr>fr_payload = p, fr_previous_hash = prev, fr_record_hash = frame_hash H crc prev p,
      fr_offset = offs, fr_size = int OVERHEAD + int (length p)\<rparr>, r))"
proof -
  have p: "length p < 2 ^ 32" using assms(2,3) by auto
  note parts = frame_parts [OF assms(1) p]
  have "frame_bytes H crc prev p \<noteq> []" using length_frame_bytes [OF assms(1), of p] by (auto simp del: length_frame_bytes)
  then show ?thesis
    unfolding next_frame_eq parts(1,2) using assms parts(3) by (simp add: result_simps)
qed

lemma next_frame_torn:
  assumes "length prev = 32" and "int (length p) \<le> m" and "m \<le> 0xFFFFFFFF"
    and "0 < n" and "n < OVERHEAD + length p"
  shows "next_frame H crc chunk m prev offs (take n (frame_bytes H crc prev p)) = Inl (TornTail offs)"
proof -
  let ?f = "frame_bytes H crc prev p" and ?s = "take n (frame_bytes H crc prev p)"
  have p: "length p < 2 ^ 32" using assms(2,3) by auto
  note parts = frame_parts(1,2) [OF assms(1) p, where r = "[]", simplified]
  have len: "length ?s = n" using assms by simp
  then have ne: "?s \<noteq> []" using assms(4) by auto
  have magic: "4 \<le> n \<Longrightarrow> take 4 ?s = MAGIC" using parts(1) by (simp add: min_def)
  have size: "HEADER_SIZE \<le> n \<Longrightarrow> unpack_u32 ?s 4 = int (length p)"
    using parts(2) by (simp add: unpack_u32_def drop_take min_def)
  show ?thesis
    unfolding next_frame_eq len using ne magic size assms by (auto simp del: take_eq_Nil)
qed

end

context frame_sums
begin

lemma iter_loop_chain:
  assumes "m \<le> 0xFFFFFFFF"
  shows "length prev = 32 \<Longrightarrow> \<forall>p\<in>set ps. int (length p) \<le> m \<Longrightarrow>
    iter_loop H crc chunk m prev offs (take n (chain_bytes H crc prev ps)) =
      (chain_records H crc prev offs (whole_frames n ps),
       if chain_length (whole_frames n ps) < min n (chain_length ps)
       then Some (TornTail (offs + int (chain_length (whole_frames n ps)))) else None)"
proof (induction ps arbitrary: prev offs n)
  case Nil
  show ?case by (simp add: iter_loop.simps next_frame_eq chain_length_def)
next
  case (Cons p ps)
  let ?f = "frame_bytes H crc prev p" and ?k = "OVERHEAD + length p"
  have p: "int (length p) \<le> m" using Cons.prems(2) by simp
  have len: "length ?f = ?k" by (rule length_frame_bytes [OF Cons.prems(1)])
  show ?case
  proof (cases "n < ?k")
    case True
    then have s: "take n (chain_bytes H crc prev (p # ps)) = take n ?f" using len by simp
    show ?thesis
    proof (cases "n = 0")
      case True
      then show ?thesis by (simp add: iter_loop.simps next_frame_eq chain_length_def)
    next
      case False
      with True have "next_frame H crc chunk m prev offs (take n ?f) = Inl (TornTail offs)"
        by (intro next_frame_torn [OF Cons.prems(1) p assms]) simp_all
      then show ?thesis
        unfolding s using True False by (simp add: iter_loop.simps chain_length_def)
    qed
  next
    case False
    then have s: "take n (chain_bytes H crc prev (p # ps)) = ?f @ take (n - ?k) (chain_bytes H crc (frame_hash H crc prev p) ps)"
      using len by simp
    have "\<forall>q\<in>set ps. int (length q) \<le> m" using Cons.prems(2) by simp
    note IH = Cons.IH [OF length_frame_hash this, of prev p "offs + (int OVERHEAD + int (length p))" "n - ?k"]
    show ?thesis
      unfolding s using IH False
      by (subst iter_loop.simps) (auto simp: next_frame_chain [OF Cons.prems(1) p assms] chain_length_def add_ac)
  qed
qed

lemma verify_frame_sound:
  assumes ok: "verify_frame H crc prev offs f (int n) = Inr r"
    and f: "take 4 f = MAGIC" "length f = OVERHEAD + n" "unpack_u32 f 4 = int n"
  shows "f = frame_bytes H crc prev (fr_payload r)" and "length (fr_payload r) = n"
    and "r = \<lparr>fr_payload = fr_payload r, fr_previous_hash = prev, fr_record_hash = frame_hash H crc prev (fr_payload r),
       fr_offset = offs, fr_size = int OVERHEAD + int n\<rparr>"
proof -
  define q where "q = drop HEADER_SIZE (take (HEADER_SIZE + n) f)"
  from ok have prev: "take 32 (drop 8 f) = prev" and c: "unpack_u32 f (HEADER_SIZE + n) = crc (take (HEADER_SIZE + n) f)"
    and h: "drop (HEADER_SIZE + n + 4) f = H (HASH_DOMAIN @ take (HEADER_SIZE + n + 4) f)"
    and r: "r = \<lparr>fr_payload = q, fr_previous_hash = prev, fr_record_hash = drop (HEADER_SIZE + n + 4) f,
      fr_offset = offs, fr_size = int OVERHEAD + int n\<rparr>"
    by (auto simp: verify_frame_def Let_def q_def split: if_splits)
  show len: "length (fr_payload r) = n" using f(2) by (simp add: r q_def)
  have size: "take 4 (drop 4 f) = pack_u32 (int n)"
    using pack_u32_unpack [of 4 f] f(2,3) by simp
  have split: "take (k + l) f = take k f @ take l (drop k f)" for k l by (rule take_add)
  have "take (HEADER_SIZE + n) f = take 4 f @ take 4 (drop 4 f) @ take 32 (drop 8 f) @ q"
  proof -
    have "take HEADER_SIZE f = take 4 f @ take 4 (drop 4 f) @ take 32 (drop 8 f)"
      using split [of 4 36] take_add [of 4 32 "drop 4 f"] by simp
    then show ?thesis
      using append_take_drop_id [of HEADER_SIZE "take (HEADER_SIZE + n) f"] by (simp add: q_def)
  qed
  then have head: "take (HEADER_SIZE + n) f = MAGIC @ pack_u32 (int (length q)) @ prev @ q"
    using f(1) size prev len by (simp add: r)
  have "take 4 (drop (HEADER_SIZE + n) f) = pack_u32 (crc (take (HEADER_SIZE + n) f))"
    using pack_u32_unpack [of "HEADER_SIZE + n" f] f(2) c by simp
  then have summed: "take (HEADER_SIZE + n + 4) f = frame_summed crc prev q"
    unfolding split [of "HEADER_SIZE + n" 4] head by (simp add: frame_summed_def Let_def)
  then have hash: "drop (HEADER_SIZE + n + 4) f = frame_hash H crc prev q"
    using h by (simp add: frame_hash_def)
  show "f = frame_bytes H crc prev (fr_payload r)"
    using append_take_drop_id [of "HEADER_SIZE + n + 4" f] unfolding summed hash
    by (simp add: frame_bytes_def r)
  show "r = \<lparr>fr_payload = fr_payload r, fr_previous_hash = prev, fr_record_hash = frame_hash H crc prev (fr_payload r),
       fr_offset = offs, fr_size = int OVERHEAD + int n\<rparr>"
    using hash by (simp add: r)
qed

lemma next_frame_sound:
  assumes "next_frame H crc chunk m prev offs s = Inr (Some (r, s'))"
  shows "s = frame_bytes H crc prev (fr_payload r) @ s'" and "int (length (fr_payload r)) \<le> m"
    and "r = \<lparr>fr_payload = fr_payload r, fr_previous_hash = prev, fr_record_hash = frame_hash H crc prev (fr_payload r),
       fr_offset = offs, fr_size = int OVERHEAD + int (length (fr_payload r))\<rparr>"
proof -
  obtain n where n: "unpack_u32 s 4 = int n" using unpack_u32_range [of s 4] by (metis nonneg_int_cases)
  have p: "take 4 s = MAGIC" "int n \<le> m" "OVERHEAD + n \<le> length s"
    "verify_frame H crc prev offs (take (OVERHEAD + n) s) (int n) = Inr r" "s' = drop (OVERHEAD + n) s"
    using assms unfolding next_frame_eq n by (auto simp: result_simps split: if_splits)
  have f: "take 4 (take (OVERHEAD + n) s) = MAGIC" "length (take (OVERHEAD + n) s) = OVERHEAD + n"
    "unpack_u32 (take (OVERHEAD + n) s) 4 = int n"
    using p(1,3) n by (simp_all add: min_def unpack_u32_def drop_take)
  note sound = verify_frame_sound [OF p(4) f]
  show "s = frame_bytes H crc prev (fr_payload r) @ s'"
    using append_take_drop_id [of "OVERHEAD + n" s] sound(1) p(5) by metis
  show "int (length (fr_payload r)) \<le> m" using sound(2) p(2) by simp
  show "r = \<lparr>fr_payload = fr_payload r, fr_previous_hash = prev, fr_record_hash = frame_hash H crc prev (fr_payload r),
       fr_offset = offs, fr_size = int OVERHEAD + int (length (fr_payload r))\<rparr>"
    using sound(2,3) by simp
qed

end

lemma next_frame_torn_offset:
  "next_frame H crc chunk m prev offs s = Inl (TornTail t) \<Longrightarrow> t = offs"
  by (auto simp: next_frame_eq verify_frame_def Let_def result_simps split: if_splits)

lemma next_frame_end: "next_frame H crc chunk m prev offs s = Inr None \<Longrightarrow> s = []"
  by (auto simp: next_frame_eq result_simps split: if_splits)

text \<open>What the reader has accepted of a stream: whole frames, then a tail it did not.\<close>

definition accepted :: "(bytes \<Rightarrow> bytes) \<Rightarrow> (bytes \<Rightarrow> int) \<Rightarrow> int \<Rightarrow> bytes \<Rightarrow> int \<Rightarrow> bytes \<Rightarrow> FrameRecord list \<Rightarrow> frame_error option \<Rightarrow> bool" where
  "accepted H crc m prev offs s rs e \<longleftrightarrow>
    rs = chain_records H crc prev offs (map fr_payload rs) \<and>
    chain_bytes H crc prev (map fr_payload rs) = take (chain_length (map fr_payload rs)) s \<and>
    chain_length (map fr_payload rs) \<le> length s \<and>
    (\<forall>r\<in>set rs. int (length (fr_payload r)) \<le> m) \<and>
    (e = None \<longrightarrow> chain_length (map fr_payload rs) = length s) \<and>
    (\<forall>t. e = Some (TornTail t) \<longrightarrow> t = offs + int (chain_length (map fr_payload rs)))"

context frame_sums
begin

lemma iter_loop_sound:
  "length prev = 32 \<Longrightarrow> iter_loop H crc chunk m prev offs s = (rs, e) \<Longrightarrow> accepted H crc m prev offs s rs e"
proof (induction "length s" arbitrary: prev offs s rs e rule: less_induct)
  case less
  consider er where "next_frame H crc chunk m prev offs s = Inl er"
    | "next_frame H crc chunk m prev offs s = Inr None"
    | r s' where "next_frame H crc chunk m prev offs s = Inr (Some (r, s'))"
    by (metis old.sum.exhaust option.exhaust surj_pair)
  then show ?case
  proof cases
    case 1
    then show ?thesis
      using less.prems next_frame_torn_offset by (fastforce simp: iter_loop.simps [of _ _ _ _ _ _ s] accepted_def chain_length_def)
  next
    case 2
    then have "iter_loop H crc chunk m prev offs s = ([], None)" by (simp add: iter_loop.simps [of _ _ _ _ _ _ s])
    then show ?thesis
      using less.prems next_frame_end [OF 2] by (simp add: accepted_def chain_length_def)
  next
    case (3 r s')
    let ?p = "fr_payload r"
    note s = next_frame_sound [OF 3]
    obtain rs' where rs: "rs = r # rs'" and rec: "iter_loop H crc chunk m (frame_hash H crc prev ?p) (offs + fr_size r) s' = (rs', e)"
      using less.prems(2) 3 s(3) by (auto simp: iter_loop.simps [of _ _ _ _ _ _ s] Let_def split: prod.splits)
        (metis FrameRecord.select_convs(3))
    have IH: "accepted H crc m (frame_hash H crc prev ?p) (offs + fr_size r) s' rs' e"
      by (rule less.hyps [OF next_frame_shorter [OF 3] length_frame_hash rec])
    have len: "length (frame_bytes H crc prev ?p) = OVERHEAD + length ?p"
      by (rule length_frame_bytes [OF less.prems(1)])
    have size: "fr_size r = int OVERHEAD + int (length ?p)"
      by (subst s(3)) simp
    have cl: "chain_length (map fr_payload rs) = OVERHEAD + length ?p + chain_length (map fr_payload rs')"
      by (simp add: rs chain_length_def)
    have 1: "rs = chain_records H crc prev offs (map fr_payload rs)"
      using IH s(3) by (simp add: accepted_def rs size add.assoc)
    have 2: "chain_bytes H crc prev (map fr_payload rs) = take (chain_length (map fr_payload rs)) s"
      using IH s(1) len unfolding cl by (simp add: accepted_def rs)
    have 3: "length s = OVERHEAD + length ?p + length s'"
      using arg_cong [OF s(1), of length] len by simp
    have ih: "chain_length (map fr_payload rs') \<le> length s'" "\<forall>r\<in>set rs'. int (length (fr_payload r)) \<le> m"
      "e = None \<longrightarrow> chain_length (map fr_payload rs') = length s'"
      "\<forall>t. e = Some (TornTail t) \<longrightarrow> t = offs + fr_size r + int (chain_length (map fr_payload rs'))"
      using IH unfolding accepted_def by blast+
    show ?thesis
      unfolding accepted_def
      by (intro conjI, rule 1, rule 2) (use ih 3 cl s(2) in \<open>simp_all add: rs size add.assoc\<close>)
  qed
qed

lemma chain_records_payloads [simp]: "map fr_payload (chain_records H crc prev offs ps) = ps"
  by (induction ps arbitrary: prev offs) simp_all

lemma chain_records_end:
  "chain_records H crc prev offs ps \<noteq> [] \<Longrightarrow>
   fr_offset (last (chain_records H crc prev offs ps)) + fr_size (last (chain_records H crc prev offs ps)) = offs + int (chain_length ps)"
proof (induction ps arbitrary: prev offs)
  case (Cons p ps)
  show ?case
  proof (cases "ps = []")
    case True
    then show ?thesis by (simp add: chain_length_def)
  next
    case False
    then have "chain_records H crc (frame_hash H crc prev p) (offs + int OVERHEAD + int (length p)) ps \<noteq> []"
      by (cases ps) simp_all
    with Cons.IH [OF this] show ?thesis by (simp add: chain_length_def)
  qed
qed simp

lemma iter_frames_chunk: "iter_frames H crc chunk s m = iter_frames H crc chunk' s m"
proof -
  have "iter_loop H crc chunk m prev offs s = iter_loop H crc chunk' m prev offs s" for prev offs
    by (induction "length s" arbitrary: prev offs s rule: less_induct)
      (subst (1 2) iter_loop.simps, auto simp: next_frame_eq [of _ _ chunk] next_frame_eq [of _ _ chunk'] result_simps split: sum.splits option.splits)
  then show ?thesis by (simp add: iter_frames_def split: sum.splits)
qed

end

context frame_sums
begin

lemma iter_frames_ok:
  "0 < m \<Longrightarrow> m \<le> 0xFFFFFFFF \<Longrightarrow> iter_frames H crc chunk s m = iter_loop H crc chunk m zero_hash 0 s"
  by (simp add: iter_frames_def validate_max_frame_def)

lemma read_frames_prefix:
  assumes "0 < m" and "m \<le> 0xFFFFFFFF" and "\<forall>p\<in>set ps. int (length p) \<le> m"
  shows "read_frames H crc chunk (take n (chain_bytes H crc zero_hash ps)) m = Inr
    \<lparr>df_records = chain_records H crc zero_hash 0 (whole_frames n ps),
     df_torn_tail = (chain_length (whole_frames n ps) < min n (chain_length ps)),
     df_verified_bytes = int (chain_length (whole_frames n ps))\<rparr>"
proof -
  have "chain_records H crc zero_hash 0 qs = [] \<Longrightarrow> qs = []" for qs by (cases qs) simp_all
  then have "(if chain_records H crc zero_hash 0 qs = [] then 0
      else fr_offset (last (chain_records H crc zero_hash 0 qs)) + fr_size (last (chain_records H crc zero_hash 0 qs)))
    = int (chain_length qs)" for qs
    using chain_records_end [of zero_hash 0 qs] by (auto simp: chain_length_def)
  then show ?thesis
    using iter_loop_chain [OF assms(2) _ assms(3), of zero_hash chunk 0 n]
    by (simp add: read_frames_def iter_frames_ok [OF assms(1,2)])
qed

lemma read_frames_sound:
  assumes "read_frames H crc chunk raw m = Inr d"
  shows "df_records d = chain_records H crc zero_hash 0 (map fr_payload (df_records d))"
    and "df_verified_bytes d = int (chain_length (map fr_payload (df_records d)))"
    and "take (nat (df_verified_bytes d)) raw = chain_bytes H crc zero_hash (map fr_payload (df_records d))"
    and "df_verified_bytes d \<le> int (length raw)"
    and "\<not> df_torn_tail d \<Longrightarrow> df_verified_bytes d = int (length raw)"
    and "\<forall>r\<in>set (df_records d). int (length (fr_payload r)) \<le> m"
    and "0 < m" and "m \<le> 0xFFFFFFFF"
proof -
  obtain rs e where it: "iter_frames H crc chunk raw m = (rs, e)" by (cases "iter_frames H crc chunk raw m")
  show m: "0 < m" "m \<le> 0xFFFFFFFF"
    using assms by (auto simp: read_frames_def iter_frames_def validate_max_frame_def split: if_splits)
  have a: "accepted H crc m zero_hash 0 raw rs e"
    using it unfolding iter_frames_ok [OF m] by (intro iter_loop_sound) simp_all
  have d: "df_records d = rs" "df_torn_tail d \<longleftrightarrow> e \<noteq> None" "df_verified_bytes d = int (chain_length (map fr_payload rs))"
  proof -
    have rs: "rs = chain_records H crc zero_hash 0 (map fr_payload rs)" using a unfolding accepted_def by blast
    have last: "rs \<noteq> [] \<Longrightarrow> fr_offset (last rs) + fr_size (last rs) = int (chain_length (map fr_payload rs))"
      using chain_records_end [of zero_hash 0 "map fr_payload rs"] rs by simp
    have torn: "e = Some (TornTail t) \<Longrightarrow> t = int (chain_length (map fr_payload rs))" for t
      using a unfolding accepted_def by simp
    show "df_records d = rs" "df_torn_tail d \<longleftrightarrow> e \<noteq> None" "df_verified_bytes d = int (chain_length (map fr_payload rs))"
      using assms it last torn by (auto simp: read_frames_def chain_length_def split: option.splits frame_error.splits if_splits)
  qed
  show "df_records d = chain_records H crc zero_hash 0 (map fr_payload (df_records d))"
    "df_verified_bytes d = int (chain_length (map fr_payload (df_records d)))"
    "take (nat (df_verified_bytes d)) raw = chain_bytes H crc zero_hash (map fr_payload (df_records d))"
    "df_verified_bytes d \<le> int (length raw)"
    "\<not> df_torn_tail d \<Longrightarrow> df_verified_bytes d = int (length raw)"
    "\<forall>r\<in>set (df_records d). int (length (fr_payload r)) \<le> m"
    using a d unfolding accepted_def by simp_all
qed

lemma chain_head_snoc: "chain_head H crc prev (ps @ [p]) = frame_hash H crc (chain_head H crc prev ps) p"
  by (induction ps arbitrary: prev) simp_all

lemma frame_summed_inject:
  assumes "frame_summed crc a p = frame_summed crc b q" and "length a = 32" and "length b = 32"
  shows "a = b \<and> p = q"
proof -
  let ?x = "pack_u32 (crc (MAGIC @ pack_u32 (int (length p)) @ a @ p))" and ?y = "pack_u32 (crc (MAGIC @ pack_u32 (int (length q)) @ b @ q))"
  from assms(1) have "MAGIC @ pack_u32 (int (length p)) @ a @ p @ ?x = MAGIC @ pack_u32 (int (length q)) @ b @ q @ ?y"
    by (simp only: frame_summed_def Let_def append_assoc)
  moreover have "MAGIC @ u @ v = MAGIC @ u' @ v' \<Longrightarrow> length u = length u' \<Longrightarrow> v = v'" for u u' v v' :: bytes by simp
  ultimately have "a @ p @ ?x = b @ q @ ?y" by (metis length_pack_u32)
  then have "a = b" "p @ ?x = q @ ?y" using assms(2,3) append_eq_append_conv by metis+
  moreover have "length ?x = length ?y" by simp
  ultimately show ?thesis using append_eq_append_conv by metis
qed

lemma chain_inputs_snoc:
  "chain_inputs H crc prev (ps @ [p]) = insert (HASH_DOMAIN @ frame_summed crc (chain_head H crc prev ps) p) (chain_inputs H crc prev ps)"
  by (induction ps arbitrary: prev) auto

lemma chain_head_input: "ps \<noteq> [] \<Longrightarrow> \<exists>x\<in>chain_inputs H crc prev ps. H x = chain_head H crc prev ps"
  by (cases ps rule: rev_cases) (simp_all add: chain_head_snoc chain_inputs_snoc frame_hash_def)

lemma chain_head_binds:
  "chain_head H crc zero_hash ps = chain_head H crc zero_hash qs \<Longrightarrow>
   ps = qs \<or>
   (\<exists>x\<in>chain_inputs H crc zero_hash ps. \<exists>y\<in>chain_inputs H crc zero_hash qs. x \<noteq> y \<and> H x = H y) \<or>
   (\<exists>x\<in>chain_inputs H crc zero_hash ps \<union> chain_inputs H crc zero_hash qs. H x = zero_hash)"
proof (induction ps arbitrary: qs rule: rev_induct)
  case Nil
  then show ?case
    using chain_head_input [of qs zero_hash] by (cases "qs = []") auto
next
  case (snoc p ps)
  show ?case
  proof (cases qs rule: rev_cases)
    case Nil
    with snoc.prems show ?thesis using chain_head_input [of "ps @ [p]" zero_hash] by auto
  next
    case q: (snoc qs' q)
    let ?a = "chain_head H crc zero_hash ps" and ?b = "chain_head H crc zero_hash qs'"
    have eq: "H (HASH_DOMAIN @ frame_summed crc ?a p) = H (HASH_DOMAIN @ frame_summed crc ?b q)"
      using snoc.prems by (simp add: q chain_head_snoc frame_hash_def)
    show ?thesis
    proof (cases "frame_summed crc ?a p = frame_summed crc ?b q")
      case True
      then have "?a = ?b" "p = q"
        using frame_summed_inject length_chain_head by (metis length_replicate)+
      with snoc.IH [of qs'] show ?thesis unfolding q chain_inputs_snoc by blast
    next
      case False
      then have "HASH_DOMAIN @ frame_summed crc ?a p \<noteq> HASH_DOMAIN @ frame_summed crc ?b q" by simp
      with eq show ?thesis unfolding q chain_inputs_snoc by blast
    qed
  qed
qed

end

context frame_sums
begin

lemma write_chain_Inr:
  assumes "length prev = 32"
  shows "write_chain H crc m prev ps = Inr raw \<longleftrightarrow>
    raw = chain_bytes H crc prev ps \<and> (\<forall>p\<in>set ps. 0 < m \<and> m \<le> 0xFFFFFFFF \<and> int (length p) \<le> m)"
  using assms
proof (induction ps arbitrary: prev raw)
  case (Cons p ps)
  have "drop (length (frame_bytes H crc prev p) - 32) (frame_bytes H crc prev p) = frame_hash H crc prev p"
    by (simp add: frame_bytes_def)
  with Cons show ?case by (auto simp: result_simps encode_frame_eq)
qed auto

lemma whole_frames_snoc:
  "n \<le> OVERHEAD + length p \<Longrightarrow>
   whole_frames (chain_length ps + n) (ps @ [p]) = ps @ (if n = OVERHEAD + length p then [p] else [])"
  by (induction ps) (auto simp: chain_length_def)

lemma chain_records_snoc:
  "chain_records H crc prev offs (qs @ [p]) = chain_records H crc prev offs qs @
    [\<lparr>fr_payload = p, fr_previous_hash = chain_head H crc prev qs, fr_record_hash = frame_hash H crc (chain_head H crc prev qs) p,
      fr_offset = offs + int (chain_length qs), fr_size = int OVERHEAD + int (length p)\<rparr>]"
  by (induction qs arbitrary: prev offs) (simp_all add: chain_length_def)

lemma append_prefix:
  assumes "read_frames H crc chunk raw m = Inr d" and "\<not> df_torn_tail d"
    and "encode_frame H crc p (chain_head H crc zero_hash (map fr_payload (df_records d))) m = Inr f" and "n \<le> length f"
  shows "read_frames H crc chunk (raw @ take n f) m = Inr
    \<lparr>df_records = df_records d @ (if n = length f then
        [\<lparr>fr_payload = p, fr_previous_hash = chain_head H crc zero_hash (map fr_payload (df_records d)),
          fr_record_hash = drop (length f - 32) f, fr_offset = int (length raw), fr_size = int (length f)\<rparr>] else []),
     df_torn_tail = (0 < n \<and> n < length f),
     df_verified_bytes = int (length raw) + (if n = length f then int (length f) else 0)\<rparr>"
proof -
  let ?ps = "map fr_payload (df_records d)"
  let ?h = "chain_head H crc zero_hash ?ps"
  note d = read_frames_sound [OF assms(1)]
  have h: "length ?h = 32" by (rule length_chain_head) simp
  have f: "f = frame_bytes H crc ?h p" and p: "int (length p) \<le> m"
    using assms(3) by (auto simp: encode_frame_eq)
  have lf: "length f = OVERHEAD + length p" unfolding f by (rule length_frame_bytes [OF h])
  have raw: "raw = chain_bytes H crc zero_hash ?ps" and lr: "length raw = chain_length ?ps"
    using d(2,3) d(5) [OF assms(2)] by simp_all
  have take: "raw @ take n f = take (chain_length ?ps + n) (chain_bytes H crc zero_hash (?ps @ [p]))"
    using lr assms(4) by (simp add: chain_bytes_append f flip: raw)
  have ok: "\<forall>q\<in>set (?ps @ [p]). int (length q) \<le> m" using d(6) p by auto
  have whole: "whole_frames (chain_length ?ps + n) (?ps @ [p]) = ?ps @ (if n = length f then [p] else [])"
    using whole_frames_snoc [of n p ?ps] assms(4) lf by simp
  have cl: "chain_length (xs @ ys) = chain_length xs + chain_length ys" for xs ys by (simp add: chain_length_def)
  have tl: "drop (length f - 32) f = frame_hash H crc ?h p" by (simp add: f frame_bytes_def)
  have dr: "df_records d = chain_records H crc zero_hash 0 ?ps" by (rule d(1))
  note eq = read_frames_prefix [OF d(7,8) ok, of chunk "chain_length ?ps + n", folded take, unfolded whole]
  show ?thesis
  proof (cases "n = length f")
    case True
    have full: "chain_length (?ps @ [p]) = chain_length ?ps + n" using True lf by (simp add: chain_length_def)
    show ?thesis
      using eq True lf lr tl by (simp add: chain_records_snoc full flip: dr)
  next
    case False
    have "chain_length ?ps + n < chain_length (?ps @ [p])" using False assms(4) lf by (simp add: chain_length_def)
    with False assms(4) show ?thesis
      using eq lr by (simp flip: dr)
  qed
qed

lemma read_frames_head:
  assumes "read_frames H crc chunk raw m = Inr d" and "df_records d \<noteq> []"
  shows "fr_record_hash (last (df_records d)) = chain_head H crc zero_hash (map fr_payload (df_records d))"
proof -
  have "ps \<noteq> [] \<Longrightarrow> fr_record_hash (last (chain_records H crc prev offs ps)) = chain_head H crc prev ps" for prev offs ps
    by (cases ps rule: rev_cases) (simp_all add: chain_records_snoc chain_head_snoc)
  with read_frames_sound(1) [OF assms(1)] assms(2) show ?thesis by (metis list.map_disc_iff)
qed

lemma records_reencode:
  assumes "\<forall>p\<in>set ps. int (length p) \<le> m" and "0 < m" and "m \<le> 0xFFFFFFFF" and "length prev = 32"
  shows "\<exists>fs. map (\<lambda>r. encode_frame H crc (fr_payload r) (fr_previous_hash r) m) (chain_records H crc prev offs ps) = map Inr fs \<and>
    concat fs = chain_bytes H crc prev ps"
  using assms(1,4)
proof (induction ps arbitrary: prev offs)
  case (Cons p ps)
  then have "\<forall>p\<in>set ps. int (length p) \<le> m" by simp
  from Cons.IH [OF this length_frame_hash, of prev p "offs + int OVERHEAD + int (length p)"]
  obtain fs where fs: "map (\<lambda>r. encode_frame H crc (fr_payload r) (fr_previous_hash r) m)
      (chain_records H crc (frame_hash H crc prev p) (offs + int OVERHEAD + int (length p)) ps) = map Inr fs"
    "concat fs = chain_bytes H crc (frame_hash H crc prev p) ps"
    by blast
  have "encode_frame H crc p prev m = Inr (frame_bytes H crc prev p)"
    using Cons.prems assms(2,3) by (simp add: encode_frame_eq)
  with fs show ?case by (intro exI [of _ "frame_bytes H crc prev p # fs"]) simp
qed simp

end

interpretation agf1: frame_sums sha256 crc32c
proof
  fix b
  show "0 \<le> crc32c b" "crc32c b < 2 ^ 32"
    using uint_bounded [where 'a = 32] by (simp_all add: crc32c_def)
qed

lemma EncodeFrame_agrees:
  assumes "frame_sums H crc" and "length prev = 32"
  shows "(\<exists>meta. EncodeFrame H crc p prev mf = Inr (f, meta)) \<longleftrightarrow> encode_frame H crc p prev (uint mf) = Inr f"
proof -
  have mf: "uint mf \<le> 2 ^ 32 - 1" using uint_bounded [of mf] by simp
  have z: "mf = 0 \<longleftrightarrow> uint mf = 0" by (simp add: uint_0_iff)
  have pos: "0 \<le> uint mf" by simp
  show ?thesis
    unfolding frame_sums.encode_frame_eq [OF assms(1)] EncodeFrame_def Let_def z
    using mf pos assms(2) by (auto simp: frame_bytes_def frame_summed_def frame_hash_def Let_def)
qed

lemma DecodeFrame_eq:
  "mf \<noteq> 0 \<Longrightarrow> DecodeFrame H crc raw mf prev =
    (if length raw \<ge> 4 \<and> take 4 raw \<noteq> MAGIC then Inl (ErrJournalCorrupt ''invalid frame magic'')
     else if length raw < HEADER_SIZE then Inl ErrTornTail
     else if unpack_u32 raw 4 > uint mf then Inl (ErrJournalCorrupt ''payload length exceeds limit'')
     else if int (length raw) < int OVERHEAD + unpack_u32 raw 4 then Inl ErrTornTail
     else if int (length raw) \<noteq> int OVERHEAD + unpack_u32 raw 4 then Inl (ErrJournalCorrupt ''trailing frame bytes'')
     else case verify_frame H crc prev offs raw (unpack_u32 raw 4) of
       Inr r \<Rightarrow> Inr (\<lparr>rm_Hash = fr_record_hash r, rm_PreviousHash = fr_previous_hash r,
         rm_PayloadLength = unpack_u32 raw 4, rm_Size = fr_size r, rm_Offset = 0\<rparr>, fr_payload r)
     | Inl e \<Rightarrow> Inl (ErrJournalCorrupt (if e = JournalCorrupt ''previous record hash mismatch'' then ''previous hash mismatch''
         else case e of JournalCorrupt s \<Rightarrow> s | _ \<Rightarrow> [])))"
  unfolding DecodeFrame_def verify_frame_def Let_def by simp

lemma verify_frame_error: "verify_frame H crc prev offs raw n = Inl e \<Longrightarrow> \<exists>s. e = JournalCorrupt s"
  by (auto simp: verify_frame_def Let_def split: if_splits)

lemma DecodeFrame_agrees:
  assumes "mf \<noteq> 0"
  shows "(\<exists>meta. DecodeFrame H crc raw mf prev = Inr (meta, p)) \<longleftrightarrow>
      (\<exists>r. next_frame H crc chunk (uint mf) prev offs raw = Inr (Some (r, [])) \<and> fr_payload r = p)"
    and "raw \<noteq> [] \<Longrightarrow> DecodeFrame H crc raw mf prev = Inl ErrTornTail \<longleftrightarrow>
      next_frame H crc chunk (uint mf) prev offs raw = Inl (TornTail offs)"
proof -
  obtain n where n: "unpack_u32 raw 4 = int n" using unpack_u32_range [of raw 4] by (metis nonneg_int_cases)
  show "(\<exists>meta. DecodeFrame H crc raw mf prev = Inr (meta, p)) \<longleftrightarrow>
      (\<exists>r. next_frame H crc chunk (uint mf) prev offs raw = Inr (Some (r, [])) \<and> fr_payload r = p)"
    unfolding DecodeFrame_eq [OF assms, of _ _ _ _ offs] next_frame_eq n nat_int
    by (auto simp: result_simps split: sum.splits)
  show "raw \<noteq> [] \<Longrightarrow> DecodeFrame H crc raw mf prev = Inl ErrTornTail \<longleftrightarrow>
      next_frame H crc chunk (uint mf) prev offs raw = Inl (TornTail offs)"
    unfolding DecodeFrame_eq [OF assms, of _ _ _ _ offs] next_frame_eq n nat_int
    by (auto simp: result_simps split: sum.splits dest: verify_frame_error)
qed

section \<open>Properties\<close>

text \<open>
  C13. Crash safety of a journal file: when the octets a writer produced are cut at any point, the
  reader returns exactly the payloads whose frames are whole, reports a torn tail exactly when a
  partial frame is left, and its verified length is the length of those whole frames. This holds
  however the stream splits its reads.
\<close>

theorem torn_journal_recovers_whole_frames:
  assumes "frame_sums H crc" and "write_chain H crc m zero_hash ps = Inr raw" and "ps \<noteq> []"
  shows "read_frames H crc chunk (take n raw) m = Inr
    \<lparr>df_records = chain_records H crc zero_hash 0 (whole_frames n ps),
     df_torn_tail = (chain_length (whole_frames n ps) < min n (length raw)),
     df_verified_bytes = int (chain_length (whole_frames n ps))\<rparr>"
proof -
  note fs = assms(1)
  have raw: "raw = chain_bytes H crc zero_hash ps" and ok: "\<forall>p\<in>set ps. 0 < m \<and> m \<le> 0xFFFFFFFF \<and> int (length p) \<le> m"
    using assms(2) by (simp_all add: frame_sums.write_chain_Inr [OF fs])
  moreover have "0 < m" "m \<le> 0xFFFFFFFF" using ok assms(3) by (auto simp: neq_Nil_conv)
  moreover have "length raw = chain_length ps"
    by (simp add: raw frame_sums.length_chain_bytes [OF fs])
  ultimately show ?thesis using frame_sums.read_frames_prefix [OF fs, of m ps chunk n] by simp
qed

theorem torn_journal_recovers_whole_frames_witness:
  "read_frames sha256 crc32c (\<lambda>_ _. 1) (take 100 (chain_bytes sha256 crc32c zero_hash [''a'', ''bc''])) 16 = Inr
    \<lparr>df_records = chain_records sha256 crc32c zero_hash 0 [''a''], df_torn_tail = True, df_verified_bytes = 77\<rparr>"
proof -
  have w: "write_chain sha256 crc32c 16 zero_hash [''a'', ''bc''] = Inr (chain_bytes sha256 crc32c zero_hash [''a'', ''bc''])"
    by (subst agf1.write_chain_Inr) simp_all
  show ?thesis
    using torn_journal_recovers_whole_frames [OF agf1.frame_sums_axioms w, of "\<lambda>_ _. 1" 100]
    by (simp add: agf1.length_chain_bytes chain_length_def)
qed

text \<open>
  C3. An append is atomic under a crash: take any journal the reader accepts whole and append any
  number of octets of the next frame. A later read returns the old records, and the new one too
  exactly when all octets of its frame arrived; an interrupted append is reported as a torn tail
  at the old length.
\<close>

theorem interrupted_append_is_all_or_nothing:
  assumes "frame_sums H crc" and "read_frames H crc chunk raw m = Inr d" and "\<not> df_torn_tail d"
    and "encode_frame H crc p (if df_records d = [] then zero_hash else fr_record_hash (last (df_records d))) m = Inr f"
    and "n \<le> length f"
  shows "\<exists>d'. read_frames H crc chunk (raw @ take n f) m = Inr d' \<and>
    map fr_payload (df_records d') = map fr_payload (df_records d) @ (if n = length f then [p] else []) \<and>
    df_torn_tail d' = (0 < n \<and> n < length f) \<and>
    df_verified_bytes d' = int (length raw) + (if n = length f then int (length f) else 0)"
proof -
  have head: "(if df_records d = [] then zero_hash else fr_record_hash (last (df_records d))) =
      chain_head H crc zero_hash (map fr_payload (df_records d))"
    using frame_sums.read_frames_head [OF assms(1,2)] by simp
  from frame_sums.append_prefix [OF assms(1,2,3) assms(4) [unfolded head] assms(5)] show ?thesis
    by auto
qed

theorem interrupted_append_is_all_or_nothing_witness:
  "\<exists>d'. read_frames sha256 crc32c (\<lambda>n _. n) ([] @ take 20 (frame_bytes sha256 crc32c zero_hash ''x'')) 16 = Inr d' \<and>
    map fr_payload (df_records d') = [] \<and> df_torn_tail d' \<and> df_verified_bytes d' = 0"
proof -
  have e: "read_frames sha256 crc32c (\<lambda>n _. n) [] 16 = Inr \<lparr>df_records = [], df_torn_tail = False, df_verified_bytes = 0\<rparr>"
    by (simp add: read_frames_def iter_frames_def validate_max_frame_def iter_loop.simps next_frame_eq)
  have f: "encode_frame sha256 crc32c ''x'' zero_hash 16 = Inr (frame_bytes sha256 crc32c zero_hash ''x'')"
    by (simp add: agf1.encode_frame_eq)
  show ?thesis
    using interrupted_append_is_all_or_nothing [OF agf1.frame_sums_axioms e, of "''x''" "frame_bytes sha256 crc32c zero_hash ''x''" 20] f
    by simp
qed

text \<open>
  C15. What the reader accepts is what a writer would have written: every record re-encodes with
  \<open>encode_frame\<close>, the frames concatenate to the verified octets of the file, and without a torn
  tail these are the whole file.
\<close>

theorem accepted_records_reencode:
  assumes "frame_sums H crc" and "read_frames H crc chunk raw m = Inr d"
  shows "\<exists>fs. map (\<lambda>r. encode_frame H crc (fr_payload r) (fr_previous_hash r) m) (df_records d) = map Inr fs \<and>
    concat fs = take (nat (df_verified_bytes d)) raw \<and>
    (\<not> df_torn_tail d \<longrightarrow> concat fs = raw)"
proof -
  note s = frame_sums.read_frames_sound [OF assms]
  have "\<forall>p\<in>set (map fr_payload (df_records d)). int (length p) \<le> m" using s(6) by simp
  from frame_sums.records_reencode [OF assms(1) this s(7,8), of zero_hash 0] s(1,3,5) show ?thesis by auto
qed

theorem accepted_records_reencode_witness:
  "\<exists>fs. map (\<lambda>r. encode_frame sha256 crc32c (fr_payload r) (fr_previous_hash r) 16) (chain_records sha256 crc32c zero_hash 0 [''a'']) = map Inr fs \<and>
    concat fs = chain_bytes sha256 crc32c zero_hash [''a'']"
proof -
  have r: "read_frames sha256 crc32c (\<lambda>n _. n) (take 77 (chain_bytes sha256 crc32c zero_hash [''a''])) 16 = Inr
      \<lparr>df_records = chain_records sha256 crc32c zero_hash 0 [''a''], df_torn_tail = False, df_verified_bytes = 77\<rparr>"
    by (subst agf1.read_frames_prefix) (simp_all add: chain_length_def)
  have t: "take 77 (chain_bytes sha256 crc32c zero_hash [''a'']) = chain_bytes sha256 crc32c zero_hash [''a'']"
    by (simp add: agf1.length_chain_bytes chain_length_def)
  show ?thesis
    using accepted_records_reencode [OF agf1.frame_sums_axioms r] t by auto
qed

text \<open>
  C14. The hash of the last record fixes the whole history: two accepted journals with the same last
  record hash have the same payloads and the same verified octets, unless among the inputs the two
  files themselves give to the digest there are two different ones with equal digests, or one whose
  digest is the all-zero hash that opens a chain.
\<close>

theorem last_hash_fixes_history:
  assumes "frame_sums H crc" and "read_frames H crc chunk raw m = Inr d" and "read_frames H crc chunk' raw' m' = Inr d'"
    and "df_records d \<noteq> []" and "df_records d' \<noteq> []"
    and "fr_record_hash (last (df_records d)) = fr_record_hash (last (df_records d'))"
  shows "(map fr_payload (df_records d) = map fr_payload (df_records d') \<and>
      take (nat (df_verified_bytes d)) raw = take (nat (df_verified_bytes d')) raw') \<or>
    (\<exists>x\<in>chain_inputs H crc zero_hash (map fr_payload (df_records d)).
      \<exists>y\<in>chain_inputs H crc zero_hash (map fr_payload (df_records d')). x \<noteq> y \<and> H x = H y) \<or>
    (\<exists>x\<in>chain_inputs H crc zero_hash (map fr_payload (df_records d)) \<union>
      chain_inputs H crc zero_hash (map fr_payload (df_records d')). H x = zero_hash)"
proof -
  have "chain_head H crc zero_hash (map fr_payload (df_records d)) = chain_head H crc zero_hash (map fr_payload (df_records d'))"
    using frame_sums.read_frames_head [OF assms(1,2,4)] frame_sums.read_frames_head [OF assms(1,3,5)] assms(6) by simp
  from frame_sums.chain_head_binds [OF assms(1) this] frame_sums.read_frames_sound(3) [OF assms(1,2)]
    frame_sums.read_frames_sound(3) [OF assms(1,3)] show ?thesis by auto
qed

theorem last_hash_fixes_history_witness:
  "take 77 (chain_bytes sha256 crc32c zero_hash [''a'']) = take 77 (take 90 (chain_bytes sha256 crc32c zero_hash [''a'', ''b''])) \<or>
    (\<exists>x\<in>chain_inputs sha256 crc32c zero_hash [''a'']. sha256 x = zero_hash)"
proof -
  have r: "read_frames sha256 crc32c (\<lambda>n _. n) (take 77 (chain_bytes sha256 crc32c zero_hash [''a''])) 16 = Inr
      \<lparr>df_records = chain_records sha256 crc32c zero_hash 0 [''a''], df_torn_tail = False, df_verified_bytes = 77\<rparr>"
    by (subst agf1.read_frames_prefix) (simp_all add: chain_length_def)
  have r': "read_frames sha256 crc32c (\<lambda>n _. n) (take 90 (chain_bytes sha256 crc32c zero_hash [''a'', ''b''])) 16 = Inr
      \<lparr>df_records = chain_records sha256 crc32c zero_hash 0 [''a''], df_torn_tail = True, df_verified_bytes = 77\<rparr>"
    by (subst agf1.read_frames_prefix) (simp_all add: chain_length_def)
  show ?thesis
    using last_hash_fixes_history [OF agf1.frame_sums_axioms r r'] by auto
qed

text \<open>
  C28. The Go and the Python implementations of the format agree: they encode every payload to the
  same octets under the same limit, accept the same single frames with the same payload, and call
  the same non-empty inputs torn.
\<close>

theorem go_and_python_frames_agree:
  assumes "frame_sums H crc" and "length prev = 32"
  shows "((\<exists>meta. EncodeFrame H crc p prev mf = Inr (f, meta)) \<longleftrightarrow> encode_frame H crc p prev (uint mf) = Inr f) \<and>
    (mf \<noteq> 0 \<longrightarrow>
      ((\<exists>meta. DecodeFrame H crc raw mf prev = Inr (meta, p)) \<longleftrightarrow>
        (\<exists>r. next_frame H crc chunk (uint mf) prev offs raw = Inr (Some (r, [])) \<and> fr_payload r = p)) \<and>
      (raw \<noteq> [] \<longrightarrow> (DecodeFrame H crc raw mf prev = Inl ErrTornTail \<longleftrightarrow>
        next_frame H crc chunk (uint mf) prev offs raw = Inl (TornTail offs))))"
  by (intro conjI impI EncodeFrame_agrees [OF assms] DecodeFrame_agrees)

theorem go_and_python_frames_agree_witness:
  "\<exists>meta. DecodeFrame sha256 crc32c (frame_bytes sha256 crc32c zero_hash ''ab'') 16 zero_hash = Inr (meta, ''ab'')"
proof -
  have "next_frame sha256 crc32c (\<lambda>n _. n) (uint (16 :: 32 word)) zero_hash 0 (frame_bytes sha256 crc32c zero_hash ''ab'' @ []) = Inr (Some
    (\<lparr>fr_payload = ''ab'', fr_previous_hash = zero_hash, fr_record_hash = frame_hash sha256 crc32c zero_hash ''ab'',
      fr_offset = 0, fr_size = int OVERHEAD + int (length ''ab'')\<rparr>, []))"
    by (rule agf1.next_frame_chain) simp_all
  then show ?thesis
    using go_and_python_frames_agree [OF agf1.frame_sums_axioms, of zero_hash "''ab''" 16 _ "frame_bytes sha256 crc32c zero_hash ''ab''" "\<lambda>n _. n" 0]
    by auto
qed

end
