(* ===== verification/CanonicalJson.thy ===== *)
theory CanonicalJson
  imports Sha256
begin

text \<open>
  AGmind Canonical JSON, \<open>core/agmind_immune/canonicaljson.py\<close>: the encoder \<open>_quote\<close> /
  \<open>_encode\<close> / \<open>canonical_json\<close> and the identifier derivations built on it.

  A \<open>dict\<close> is an association list in insertion order; a well-formed one has distinct keys
  (\<open>json_wf\<close>). Pydantic models reach the encoder through \<open>model_dump\<close> and are objects here.
  \<open>JFloat\<close> stands for every float and \<open>JOther\<close> for every value of a type the encoder does
  not know: both are always refused, so they carry no payload.
\<close>

section \<open>Values\<close>

datatype json =
    JNull
  | JBool bool
  | JInt int
  | JFloat
  | JStr str
  | JArr "json list"
  | JObj "(str \<times> json) list"
  | JOther

datatype json_error =
    InvalidUtf8
  | IntegerRange
  | FloatForbidden
  | NestingDepth
  | UnsupportedType

abbreviation "MIN_CANONICAL_INTEGER \<equiv> - (2 ^ 63) :: int"
abbreviation "MAX_CANONICAL_INTEGER \<equiv> 2 ^ 64 - 1 :: int"
abbreviation "MAX_JSON_NESTING_DEPTH \<equiv> 64 :: nat"

section \<open>The encoder\<close>

text \<open>The two-character escapes of \<open>_quote\<close>, and \<open>\u00XX\<close> for the other control characters.\<close>

definition quote_char :: "char \<Rightarrow> str" where
  "quote_char c =
    (let x = (of_char c :: nat) in
     if x = 8 then [CHR 0x5C, CHR ''b'']
     else if x = 12 then [CHR 0x5C, CHR ''f'']
     else if x = 10 then [CHR 0x5C, CHR ''n'']
     else if x = 13 then [CHR 0x5C, CHR ''r'']
     else if x = 9 then [CHR 0x5C, CHR ''t'']
     else if x = 34 then [CHR 0x5C, CHR 0x22]
     else if x = 92 then [CHR 0x5C, CHR 0x5C]
     else if x < 32 then
       [CHR 0x5C, CHR ''u'', CHR ''0'', CHR ''0'', hex_digit_char (x div 16), hex_digit_char (x mod 16)]
     else [c])"

definition quote :: "str \<Rightarrow> json_error + str" where
  "quote s =
    (if \<not> utf8_ok s then Inl InvalidUtf8
     else Inr (CHR 0x22 # concat (map quote_char s) @ [CHR 0x22]))"

text \<open>
  One member of an object: the key is quoted before the value is encoded, so the first error
  in sorted key order is the one raised.
\<close>

definition encode_member :: "str \<times> (json_error + str) \<Rightarrow> json_error + str" where
  "encode_member m = rbind (quote (fst m)) (\<lambda>k. rbind (snd m) (\<lambda>v. Inr (k @ '':'' @ v)))"

fun encode :: "json \<Rightarrow> nat \<Rightarrow> json_error + str" where
  "encode JNull d = Inr ''null''"
| "encode (JBool b) d = Inr (if b then ''true'' else ''false'')"
| "encode (JInt i) d =
    (if \<not> (MIN_CANONICAL_INTEGER \<le> i \<and> i \<le> MAX_CANONICAL_INTEGER) then Inl IntegerRange
     else Inr (int_to_dec i))"
| "encode JFloat d = Inl FloatForbidden"
| "encode (JStr s) d = quote s"
| "encode (JArr vs) d =
    (if Suc d > MAX_JSON_NESTING_DEPTH then Inl NestingDepth
     else rbind (rseq (map (\<lambda>v. encode v (Suc d)) vs)) (\<lambda>ss. Inr (''['' @ join '','' ss @ '']'')))"
| "encode (JObj kvs) d =
    (if Suc d > MAX_JSON_NESTING_DEPTH then Inl NestingDepth
     else rbind
       (rseq (map encode_member (sort_key fst (map (\<lambda>kv. (fst kv, encode (snd kv) (Suc d))) kvs))))
       (\<lambda>ss. Inr (''{'' @ join '','' ss @ ''}'')))"
| "encode JOther d = Inl UnsupportedType"

definition canonical_json :: "json \<Rightarrow> json_error + bytes" where
  "canonical_json v = encode v 0"

section \<open>Object identity\<close>

text \<open>
  Python compares dictionaries without regard to insertion order. \<open>json_norm\<close> orders the
  members of every object by key, so two well-formed values are equal in Python exactly when
  their normal forms are; \<open>json_wf\<close> says that every object has distinct keys.
\<close>

fun json_norm :: "json \<Rightarrow> json" where
  "json_norm (JArr vs) = JArr (map json_norm vs)"
| "json_norm (JObj kvs) = JObj (sort_key fst (map (\<lambda>kv. (fst kv, json_norm (snd kv))) kvs))"
| "json_norm v = v"

fun json_wf :: "json \<Rightarrow> bool" where
  "json_wf (JArr vs) \<longleftrightarrow> list_all json_wf vs"
| "json_wf (JObj kvs) \<longleftrightarrow> distinct (map fst kvs) \<and> list_all (\<lambda>kv. json_wf (snd kv)) kvs"
| "json_wf _ \<longleftrightarrow> True"

section \<open>Evaluation\<close>

lemma quote_char_int [code]:
  "quote_char c =
    (let x = (of_char c :: int) in
     if 35 \<le> x \<and> x \<noteq> 92 then [c]
     else if x = 8 then [CHR 0x5C, CHR ''b'']
     else if x = 12 then [CHR 0x5C, CHR ''f'']
     else if x = 10 then [CHR 0x5C, CHR ''n'']
     else if x = 13 then [CHR 0x5C, CHR ''r'']
     else if x = 9 then [CHR 0x5C, CHR ''t'']
     else if x = 34 then [CHR 0x5C, CHR 0x22]
     else if x = 92 then [CHR 0x5C, CHR 0x5C]
     else if x < 32 then
       [CHR 0x5C, CHR ''u'', CHR ''0'', CHR ''0'', hex_digit_char (nat x div 16), hex_digit_char (nat x mod 16)]
     else [c])"
  unfolding of_char_int quote_char_def Let_def by (simp add: nat_int) linarith?

end
