(* ===== verification/StrictJson.thy ===== *)
theory StrictJson
  imports CanonicalJson
begin

text \<open>
  Strict JSON decoding, \<open>core/agmind_immune/contracts.py\<close>: the number hook, the
  duplicate-key hook, the depth pre-scan, the Unicode check and \<open>decode_strict\<close>, together with
  the part of the standard library's \<open>json.JSONDecoder\<close> they drive.

  The scanner follows the grammar of \<open>JSONDecoder.raw_decode\<close>. Its recursion is bounded by a
  fuel argument; \<open>scan_value_fuel\<close> shows that two units per input octet and one more are
  enough, and \<open>decode_document\<close> always supplies that much, so \<open>OutOfFuel\<close> never reaches a caller.
\<close>

section \<open>Definitions\<close>

datatype decode_error =
    InputTooLarge
  | InputNotUtf8
  | DepthExceeded
  | JsonSyntax
  | DuplicateKey str
  | LexicalNegativeZero
  | IntegerTokenRange
  | FloatToken
  | ConstantToken
  | TrailingData
  | NotAnObject
  | SurrogateText
  | MissingProperty str
  | TopLevelNull str
  | OutOfFuel

subsection \<open>Hooks\<close>

text \<open>
  \<open>_parse_integer\<close>: the token is compared with the limit as text, first by length and then
  lexicographically.
\<close>

definition parse_integer :: "str \<Rightarrow> decode_error + int" where
  "parse_integer token =
    (if token = ''-0'' then Inl LexicalNegativeZero
     else
       let negative = (take 1 token = ''-'');
           magnitude = (if negative then drop 1 token else token);
           limit = (if negative then int_to_dec (2 ^ 63) else int_to_dec (2 ^ 64 - 1))
       in if length magnitude > length limit \<or> length magnitude = length limit \<and> magnitude > limit
          then Inl IntegerTokenRange
          else Inr (if negative then - int (nat_of_dec magnitude) else int (nat_of_dec magnitude)))"

text \<open>\<open>_unique_object\<close>\<close>

fun unique_object_from :: "(str \<times> json) list \<Rightarrow> (str \<times> json) list \<Rightarrow> decode_error + (str \<times> json) list" where
  "unique_object_from acc [] = Inr acc"
| "unique_object_from acc ((k, v) # ps) =
    (if k \<in> fst ` set acc then Inl (DuplicateKey k) else unique_object_from (acc @ [(k, v)]) ps)"

definition unique_object :: "(str \<times> json) list \<Rightarrow> decode_error + (str \<times> json) list" where
  "unique_object ps = unique_object_from [] ps"

text \<open>\<open>_validate_json_depth\<close>: the state is the depth, \<open>in_string\<close> and \<open>escaped\<close>.\<close>

fun depth_scan :: "str \<Rightarrow> int \<Rightarrow> bool \<Rightarrow> bool \<Rightarrow> decode_error + unit" where
  "depth_scan [] depth in_string escaped = Inr ()"
| "depth_scan (c # cs) depth in_string escaped =
    (if in_string then
       (if escaped then depth_scan cs depth True False
        else if c = CHR 0x5C then depth_scan cs depth True True
        else if c = CHR 0x22 then depth_scan cs depth False False
        else depth_scan cs depth True False)
     else if c = CHR 0x22 then depth_scan cs depth True False
     else if c = CHR ''['' \<or> c = CHR ''{'' then
       (if depth + 1 > int MAX_JSON_NESTING_DEPTH then Inl DepthExceeded
        else depth_scan cs (depth + 1) False False)
     else if c = CHR '']'' \<or> c = CHR ''}'' then depth_scan cs (depth - 1) False False
     else depth_scan cs depth False False)"

definition validate_json_depth :: "str \<Rightarrow> decode_error + unit" where
  "validate_json_depth text = depth_scan text 0 False False"

text \<open>\<open>_validate_unicode\<close>\<close>

fun unicode_ok :: "json \<Rightarrow> bool" where
  "unicode_ok (JStr s) \<longleftrightarrow> utf8_ok s"
| "unicode_ok (JArr vs) \<longleftrightarrow> list_all unicode_ok vs"
| "unicode_ok (JObj kvs) \<longleftrightarrow> list_all (\<lambda>kv. utf8_ok (fst kv) \<and> unicode_ok (snd kv)) kvs"
| "unicode_ok _ \<longleftrightarrow> True"

subsection \<open>The standard library's scanner\<close>

definition is_ws :: "char \<Rightarrow> bool" where
  "is_ws c \<longleftrightarrow> c = CHR '' '' \<or> c = CHR 0x09 \<or> c = CHR 0x0A \<or> c = CHR 0x0D"

definition skip_ws :: "str \<Rightarrow> str" where
  "skip_ws s = dropWhile is_ws s"

definition hex_val :: "char \<Rightarrow> nat option" where
  "hex_val c =
    (let x = (of_char c :: nat) in
     if 48 \<le> x \<and> x \<le> 57 then Some (x - 48)
     else if 97 \<le> x \<and> x \<le> 102 then Some (x - 87)
     else if 65 \<le> x \<and> x \<le> 70 then Some (x - 55)
     else None)"

fun hex4 :: "str \<Rightarrow> nat option" where
  "hex4 [a, b, c, d] =
    (case (hex_val a, hex_val b, hex_val c, hex_val d) of
       (Some w, Some x, Some y, Some z) \<Rightarrow> Some (((w * 16 + x) * 16 + y) * 16 + z)
     | _ \<Rightarrow> None)"
| "hex4 _ = None"

text \<open>
  UTF-8 octets of a code point. A lone surrogate gets its three-octet form, which
  \<open>utf8_ok\<close> refuses.
\<close>

definition utf8_of_code :: "nat \<Rightarrow> bytes" where
  "utf8_of_code x =
    (if x < 128 then [char_of x]
     else if x < 2048 then [char_of (192 + x div 64), char_of (128 + x mod 64)]
     else if x < 65536 then
       [char_of (224 + x div 4096), char_of (128 + x div 64 mod 64), char_of (128 + x mod 64)]
     else
       [char_of (240 + x div 262144), char_of (128 + x div 4096 mod 64),
        char_of (128 + x div 64 mod 64), char_of (128 + x mod 64)])"

definition simple_escape :: "char \<Rightarrow> char option" where
  "simple_escape c =
    (if c = CHR 0x22 then Some (CHR 0x22)
     else if c = CHR 0x5C then Some (CHR 0x5C)
     else if c = CHR ''/'' then Some (CHR ''/'')
     else if c = CHR ''b'' then Some (CHR 0x08)
     else if c = CHR ''f'' then Some (CHR 0x0C)
     else if c = CHR ''n'' then Some (CHR 0x0A)
     else if c = CHR ''r'' then Some (CHR 0x0D)
     else if c = CHR ''t'' then Some (CHR 0x09)
     else None)"

text \<open>
  \<open>\uXXXX\<close> after the \<open>u\<close>: the octets it denotes and the rest. A high surrogate joins a low
  one that follows as another escape.
\<close>

definition unicode_escape :: "str \<Rightarrow> decode_error + bytes \<times> str" where
  "unicode_escape s =
    (case hex4 (take 4 s) of
       None \<Rightarrow> Inl JsonSyntax
     | Some x \<Rightarrow>
         let r = drop 4 s in
         if 0xD800 \<le> x \<and> x \<le> 0xDBFF \<and> take 2 r = [CHR 0x5C, CHR ''u''] then
           (case hex4 (take 4 (drop 2 r)) of
              None \<Rightarrow> Inl JsonSyntax
            | Some y \<Rightarrow>
                if 0xDC00 \<le> y \<and> y \<le> 0xDFFF
                then Inr (utf8_of_code (0x10000 + (x - 0xD800) * 1024 + (y - 0xDC00)), drop 6 r)
                else Inr (utf8_of_code x, r))
         else Inr (utf8_of_code x, r))"

text \<open>\<open>scanstring\<close> after the opening quote, in strict mode.\<close>

fun scan_string :: "nat \<Rightarrow> str \<Rightarrow> decode_error + str \<times> str" where
  "scan_string 0 s = Inl OutOfFuel"
| "scan_string (Suc n) s =
    (case s of
       [] \<Rightarrow> Inl JsonSyntax
     | c # r \<Rightarrow>
         if c = CHR 0x22 then Inr ([], r)
         else if c = CHR 0x5C then
           (case r of
              [] \<Rightarrow> Inl JsonSyntax
            | e # r1 \<Rightarrow>
                if e = CHR ''u'' then
                  rbind (unicode_escape r1) (\<lambda>(bs, r2).
                    rbind (scan_string n r2) (\<lambda>(t, r3). Inr (bs @ t, r3)))
                else
                  (case simple_escape e of
                     None \<Rightarrow> Inl JsonSyntax
                   | Some b \<Rightarrow> rbind (scan_string n r1) (\<lambda>(t, r3). Inr (b # t, r3))))
         else if (of_char c :: nat) < 32 then Inl JsonSyntax
         else rbind (scan_string n r) (\<lambda>(t, r3). Inr (c # t, r3)))"

text \<open>
  \<open>_match_number\<close>: an optional minus, a zero or a digit run that does not start with zero,
  then an optional fraction and an optional exponent, either of which makes the token a float.
\<close>

definition scan_int_part :: "str \<Rightarrow> decode_error + str \<times> str" where
  "scan_int_part s =
    (case s of
       [] \<Rightarrow> Inl JsonSyntax
     | c # r \<Rightarrow>
         if c = CHR ''0'' then Inr ([c], r)
         else if is_digit c then Inr (takeWhile is_digit s, dropWhile is_digit s)
         else Inl JsonSyntax)"

definition has_fraction :: "str \<Rightarrow> bool" where
  "has_fraction s = (case s of c # d # _ \<Rightarrow> c = CHR ''.'' \<and> is_digit d | _ \<Rightarrow> False)"

definition has_exponent :: "str \<Rightarrow> bool" where
  "has_exponent s =
    (case s of
       c # r \<Rightarrow> (c = CHR ''e'' \<or> c = CHR ''E'') \<and>
         (case (case r of d # r1 \<Rightarrow> if d = CHR ''-'' \<or> d = CHR ''+'' then r1 else r | [] \<Rightarrow> r) of
            d # _ \<Rightarrow> is_digit d | [] \<Rightarrow> False)
     | [] \<Rightarrow> False)"

definition scan_number :: "str \<Rightarrow> decode_error + json \<times> str" where
  "scan_number s =
    (let sign = (if take 1 s = ''-'' then ''-'' else []); s1 = drop (length sign) s in
     rbind (scan_int_part s1) (\<lambda>(ds, r).
       if has_fraction r \<or> has_exponent r then Inl FloatToken
       else rbind (parse_integer (sign @ ds)) (\<lambda>i. Inr (JInt i, r))))"

fun scan_value :: "nat \<Rightarrow> str \<Rightarrow> decode_error + json \<times> str"
  and scan_items :: "nat \<Rightarrow> str \<Rightarrow> decode_error + json list \<times> str"
  and scan_members :: "nat \<Rightarrow> str \<Rightarrow> decode_error + (str \<times> json) list \<times> str" where
  "scan_value 0 s = Inl OutOfFuel"
| "scan_value (Suc n) s =
    (if take 1 s = [CHR 0x22] then rbind (scan_string (Suc (length s)) (drop 1 s)) (\<lambda>(t, r). Inr (JStr t, r))
     else if take 1 s = ''{'' then
       (let r = skip_ws (drop 1 s) in
        if take 1 r = ''}'' then Inr (JObj [], drop 1 r)
        else rbind (scan_members n r) (\<lambda>(ms, r1). rbind (unique_object ms) (\<lambda>kvs. Inr (JObj kvs, r1))))
     else if take 1 s = ''['' then
       (let r = skip_ws (drop 1 s) in
        if take 1 r = '']'' then Inr (JArr [], drop 1 r)
        else rbind (scan_items n r) (\<lambda>(vs, r1). Inr (JArr vs, r1)))
     else if take 4 s = ''null'' then Inr (JNull, drop 4 s)
     else if take 4 s = ''true'' then Inr (JBool True, drop 4 s)
     else if take 5 s = ''false'' then Inr (JBool False, drop 5 s)
     else if take 3 s = ''NaN'' \<or> take 8 s = ''Infinity'' \<or> take 9 s = ''-Infinity'' then Inl ConstantToken
     else scan_number s)"
| "scan_items 0 s = Inl OutOfFuel"
| "scan_items (Suc n) s =
    rbind (scan_value n s) (\<lambda>(v, r).
      let r1 = skip_ws r in
      if take 1 r1 = '']'' then Inr ([v], drop 1 r1)
      else if take 1 r1 = '','' then rbind (scan_items n (skip_ws (drop 1 r1))) (\<lambda>(vs, r2). Inr (v # vs, r2))
      else Inl JsonSyntax)"
| "scan_members 0 s = Inl OutOfFuel"
| "scan_members (Suc n) s =
    (if take 1 s = [CHR 0x22] then
       rbind (scan_string (Suc (length s)) (drop 1 s)) (\<lambda>(k, r).
         let r1 = skip_ws r in
         if take 1 r1 = '':'' then
           rbind (scan_value n (skip_ws (drop 1 r1))) (\<lambda>(v, r2).
             let r3 = skip_ws r2 in
             if take 1 r3 = ''}'' then Inr ([(k, v)], drop 1 r3)
             else if take 1 r3 = '','' then
               rbind (scan_members n (skip_ws (drop 1 r3))) (\<lambda>(ms, r4). Inr ((k, v) # ms, r4))
             else Inl JsonSyntax)
         else Inl JsonSyntax)
     else Inl JsonSyntax)"

subsection \<open>decode\_strict\<close>

text \<open>
  The steps of \<open>decode_strict\<close> before model validation. \<open>required\<close> is the list of the
  model's required wire names in declaration order; the result is the decoded object, whose
  validation by the model's own validators follows in the components.
\<close>

definition decode_document :: "str list \<Rightarrow> bytes \<Rightarrow> int \<Rightarrow> decode_error + (str \<times> json) list" where
  "decode_document required raw max_bytes =
    (if max_bytes < 1 \<or> int (length raw) > max_bytes then Inl InputTooLarge
     else if \<not> utf8_ok raw then Inl InputNotUtf8
     else rbind (validate_json_depth raw) (\<lambda>_.
       let text = skip_ws raw in
       rbind (scan_value (2 * length text + 1) text) (\<lambda>(v, r).
         if skip_ws r \<noteq> [] then Inl TrailingData
         else case v of
           JObj kvs \<Rightarrow>
             if \<not> unicode_ok v then Inl SurrogateText
             else (case filter (\<lambda>name. name \<notin> fst ` set kvs) required of
                     name # _ \<Rightarrow> Inl (MissingProperty name)
                   | [] \<Rightarrow> (case filter (\<lambda>kv. snd kv = JNull) kvs of
                             kv # _ \<Rightarrow> Inl (TopLevelNull (fst kv))
                           | [] \<Rightarrow> Inr kvs))
         | _ \<Rightarrow> Inl NotAnObject)))"

section \<open>Text of strings and integers\<close>

lemma digit_val_less_iff: "is_digit c \<Longrightarrow> is_digit d \<Longrightarrow> digit_val c < digit_val d \<longleftrightarrow> c < d"
  by (auto simp: is_digit_def digit_val_def less_char_def)

lemma dec_text_less_iff:
  "length xs = length ys \<Longrightarrow> list_all is_digit xs \<Longrightarrow> list_all is_digit ys \<Longrightarrow>
   xs < ys \<longleftrightarrow> nat_of_dec xs < nat_of_dec ys"
proof (induction xs ys rule: list_induct2)
  case Nil
  then show ?case by simp
next
  case (Cons x xs y ys)
  have bx: "nat_of_dec xs < 10 ^ length ys" and by': "nat_of_dec ys < 10 ^ length ys"
    using Cons nat_of_dec_less [of xs] nat_of_dec_less [of ys] by auto
  have step: "a < b \<Longrightarrow> a * p + u < b * p + v" if "u < p" for a b p u v :: nat
  proof -
    assume "a < b"
    then have "a * p + p \<le> b * p" by (metis Suc_leI add.commute mult_Suc mult_le_mono1)
    with that show ?thesis by linarith
  qed
  consider "x < y" | "x = y" | "y < x" by fastforce
  then show ?case
  proof cases
    case 1
    then have "digit_val x < digit_val y" using Cons.prems digit_val_less_iff by simp
    with step [OF bx] 1 show ?thesis using Cons.hyps by (simp add: nat_of_dec_Cons)
  next
    case 2
    then show ?thesis using Cons by (simp add: nat_of_dec_Cons)
  next
    case 3
    then have "digit_val y < digit_val x" using Cons.prems digit_val_less_iff by simp
    from step [OF by' this, of "nat_of_dec xs"] 3 show ?thesis
      using Cons.hyps by (auto simp: nat_of_dec_Cons)
  qed
qed

lemma length_nat_to_dec_mono: "m \<le> n \<Longrightarrow> length (nat_to_dec m) \<le> length (nat_to_dec n)"
proof (induction m arbitrary: n rule: nat_to_dec.induct)
  case (1 m)
  show ?case
  proof (cases "m < 10")
    case True
    then have "length (nat_to_dec m) = 1" by (simp add: nat_to_dec.simps [of m])
    moreover have "length (nat_to_dec n) \<noteq> 0" by simp
    ultimately show ?thesis by linarith
  next
    case False
    moreover have "\<not> n < 10" using False 1 by linarith
    moreover have "m div 10 \<le> n div 10" using 1 by (simp add: div_le_mono)
    ultimately show ?thesis
      using "1.IH" by (simp add: nat_to_dec.simps [of m] nat_to_dec.simps [of n])
  qed
qed

lemma dec_text_within:
  assumes "m \<le> n"
  shows "\<not> (length (nat_to_dec m) > length (nat_to_dec n) \<or>
    length (nat_to_dec m) = length (nat_to_dec n) \<and> nat_to_dec m > nat_to_dec n)"
  using length_nat_to_dec_mono [OF assms] assms
    dec_text_less_iff [of "nat_to_dec n" "nat_to_dec m"]
  by (auto simp: nat_to_dec_digits)

lemma nat_to_dec_not_minus: "take 1 (nat_to_dec n) \<noteq> ''-''"
proof
  assume "take 1 (nat_to_dec n) = ''-''"
  then have "is_digit CHR ''-''"
    using nat_to_dec_digits [of n] by (cases "nat_to_dec n") auto
  then show False by (simp add: is_digit_def)
qed

lemma parse_integer_int_to_dec:
  assumes "MIN_CANONICAL_INTEGER \<le> i" and "i \<le> MAX_CANONICAL_INTEGER"
  shows "parse_integer (int_to_dec i) = Inr i"
proof (cases "i < 0")
  case True
  then have "nat (- i) \<le> 2 ^ 63" using assms by (simp add: nat_le_iff)
  from dec_text_within [OF this]
  have "\<not> (length (nat_to_dec (nat (- i))) > length (int_to_dec (2 ^ 63)) \<or>
    length (nat_to_dec (nat (- i))) = length (int_to_dec (2 ^ 63)) \<and> nat_to_dec (nat (- i)) > int_to_dec (2 ^ 63))"
    by (simp add: int_to_dec_def nat_power_eq)
  moreover have "int_to_dec i \<noteq> ''-0''"
  proof
    assume "int_to_dec i = ''-0''"
    then have "nat_to_dec (nat (- i)) = ''0''" using True by (simp add: int_to_dec_def)
    then have "nat (- i) = 0" using nat_to_dec_hd_zero [of "nat (- i)"] by simp
    with True show False by simp
  qed
  ultimately show ?thesis
    using True by (simp add: parse_integer_def Let_def int_to_dec_def [of i])
next
  case False
  then have "nat i \<le> 2 ^ 64 - 1" using assms by (simp add: nat_le_iff)
  from dec_text_within [OF this]
  have "\<not> (length (nat_to_dec (nat i)) > length (int_to_dec (2 ^ 64 - 1)) \<or>
    length (nat_to_dec (nat i)) = length (int_to_dec (2 ^ 64 - 1)) \<and> nat_to_dec (nat i) > int_to_dec (2 ^ 64 - 1))"
    by (simp add: int_to_dec_def)
  moreover have "int_to_dec i \<noteq> ''-0''"
    using nat_to_dec_not_minus [of "nat i"] False by (auto simp: int_to_dec_def)
  ultimately show ?thesis
    using False nat_to_dec_not_minus [of "nat i"] by (simp add: parse_integer_def Let_def int_to_dec_def [of i])
qed

lemma sort_key_fst_map: "sort_key fst (map (\<lambda>kv. (fst kv, f (snd kv))) kvs) = map (\<lambda>kv. (fst kv, f (snd kv))) (sort_key fst kvs)"
  using sort_key_map_snd [of f kvs] by (simp add: case_prod_unfold)

lemma quote_Inr: "quote s = Inr q \<longleftrightarrow> utf8_ok s \<and> q = CHR 0x22 # concat (map quote_char s) @ [CHR 0x22]"
  by (auto simp: quote_def)

text \<open>strings\<close>

lemma hex_val_hex_digit: "n < 16 \<Longrightarrow> hex_val (hex_digit_char n) = Some n"
  by (auto simp: hex_val_def of_char_hex_digit)

lemma of_char_inj_nat: "(of_char c :: nat) = of_char d \<longleftrightarrow> c = d"
  by (rule of_char_eq_iff)

lemma hex4_control: "x < 32 \<Longrightarrow> hex4 [CHR ''0'', CHR ''0'', hex_digit_char (x div 16), hex_digit_char (x mod 16)] = Some x"
proof -
  assume x: "x < 32"
  have "hex_val CHR ''0'' = Some 0" by (simp add: hex_val_def)
  moreover have "x div 16 < 16" "x mod 16 < 16" using x by auto
  ultimately show ?thesis by (simp add: hex_val_hex_digit)
qed

lemma utf8_of_code_control: "(of_char c :: nat) < 32 \<Longrightarrow> utf8_of_code (of_char c) = [c]"
  by (simp add: utf8_of_code_def)

lemma unicode_escape_control: "(of_char c :: nat) < 32 \<Longrightarrow>
  unicode_escape (CHR ''0'' # CHR ''0'' # hex_digit_char (of_char c div 16) # hex_digit_char (of_char c mod 16) # r) = Inr ([c], r)"
  using hex4_control [of "of_char c"] by (simp add: unicode_escape_def utf8_of_code_control)

lemma eq_char_of: "c = d \<longleftrightarrow> (of_char c :: nat) = of_char d"
  by (simp add: of_char_eq_iff)

lemma of_char_eq_lit: "(of_char d :: nat) = n \<Longrightarrow> (of_char c :: nat) = n \<Longrightarrow> c = d"
  using of_char_eq_iff by metis

lemma of_char_eq_escapes:
  "(of_char c :: nat) = 8 \<Longrightarrow> c = CHR 0x08" "(of_char c :: nat) = 12 \<Longrightarrow> c = CHR 0x0C"
  "(of_char c :: nat) = 10 \<Longrightarrow> c = CHR 0x0A" "(of_char c :: nat) = 13 \<Longrightarrow> c = CHR 0x0D"
  "(of_char c :: nat) = 9 \<Longrightarrow> c = CHR 0x09" "(of_char c :: nat) = 34 \<Longrightarrow> c = CHR 0x22"
  "(of_char c :: nat) = 92 \<Longrightarrow> c = CHR 0x5C"
  by (rule of_char_eq_lit; simp)+

lemma scan_string_quote_char:
  assumes "scan_string n r = Inr (t, r')"
  shows "scan_string (Suc n) (quote_char c @ r) = Inr (c # t, r')"
proof -
  let ?x = "of_char c :: nat"
  consider "?x = 8" | "?x = 12" | "?x = 10" | "?x = 13" | "?x = 9" | "?x = 34" | "?x = 92"
    | "?x < 32" "?x \<noteq> 8" "?x \<noteq> 9" "?x \<noteq> 10" "?x \<noteq> 12" "?x \<noteq> 13" | "32 \<le> ?x" "?x \<noteq> 34" "?x \<noteq> 92"
    by linarith
  then show ?thesis
  proof cases
    case 8
    then have "quote_char c @ r = CHR 0x5C # CHR ''u'' # CHR ''0'' # CHR ''0'' # hex_digit_char (?x div 16) # hex_digit_char (?x mod 16) # r"
      by (simp add: quote_char_def Let_def)
    then show ?thesis using assms unicode_escape_control [OF 8(1), of r] by simp
  next
    case 9
    then have "c \<noteq> CHR 0x22" "c \<noteq> CHR 0x5C" by auto
    moreover have "quote_char c = [c]" using 9 by (simp add: quote_char_def Let_def)
    ultimately show ?thesis using 9 assms by simp
  qed ((drule of_char_eq_escapes, simp add: quote_char_def assms simple_escape_def)+)
qed

lemma scan_string_quoted:
  "length s < n \<Longrightarrow> scan_string n (concat (map quote_char s) @ CHR 0x22 # r) = Inr (s, r)"
proof (induction s arbitrary: n)
  case Nil
  then show ?case by (cases n) simp_all
next
  case (Cons c s)
  then obtain m where n: "n = Suc m" and m: "length s < m"
    by (cases n) simp_all
  show ?case
    using scan_string_quote_char [OF Cons.IH [OF m]] by (simp add: n del: scan_string.simps)
qed

definition delimited :: "str \<Rightarrow> bool" where
  "delimited r \<longleftrightarrow> r = [] \<or> hd r = CHR '','' \<or> hd r = CHR '']'' \<or> hd r = CHR ''}''"

definition value_start :: "char \<Rightarrow> bool" where
  "value_start c \<longleftrightarrow> is_digit c \<or> c \<in> set ''-ntf[{'' \<or> c = CHR 0x22"

lemma value_start_not: "value_start c \<Longrightarrow> \<not> is_ws c \<and> c \<noteq> CHR '']'' \<and> c \<noteq> CHR ''}'' \<and> c \<noteq> CHR '',''"
  by (auto simp: value_start_def is_ws_def is_digit_def)

lemma skip_ws_id: "s \<noteq> [] \<Longrightarrow> \<not> is_ws (hd s) \<Longrightarrow> skip_ws s = s"
  by (cases s) (simp_all add: skip_ws_def)

lemma skip_ws_delim: "delimited r \<Longrightarrow> skip_ws r = r"
  by (cases r) (auto simp: delimited_def skip_ws_def is_ws_def)

lemma is_digit_hd_nat_to_dec: "is_digit (hd (nat_to_dec n))"
  using nat_to_dec_digits [of n] by (cases "nat_to_dec n") auto

lemma encode_start: "encode v d = Inr s \<Longrightarrow> s \<noteq> [] \<and> value_start (hd s)"
  by (cases v)
    (auto simp: value_start_def result_simps quote_Inr int_to_dec_def is_digit_hd_nat_to_dec split: if_splits)

lemma delimited_number_end: "delimited r \<Longrightarrow> \<not> has_fraction r \<and> \<not> has_exponent r \<and> takeWhile is_digit r = []"
  by (cases r) (auto simp: delimited_def has_fraction_def has_exponent_def is_digit_def split: list.splits)

lemma scan_int_part_nat: "delimited r \<Longrightarrow> scan_int_part (nat_to_dec n @ r) = Inr (nat_to_dec n, r)"
proof -
  assume r: "delimited r"
  obtain c cs where c: "nat_to_dec n = c # cs"
    by (cases "nat_to_dec n") simp_all
  have dig: "\<forall>x\<in>set (nat_to_dec n). is_digit x"
    using nat_to_dec_digits [of n] by (simp add: list_all_iff)
  show ?thesis
  proof (cases "c = CHR ''0''")
    case True
    then have "n = 0" using nat_to_dec_hd_zero [of n] c by simp
    moreover have "digit_char 0 = CHR ''0''"
      by (rule of_char_eq_lit [where n = 48]) simp_all
    ultimately have "nat_to_dec n = ''0''" by (simp add: nat_to_dec.simps [of 0])
    then show ?thesis by (simp add: scan_int_part_def)
  next
    case False
    have "takeWhile is_digit (nat_to_dec n @ r) = nat_to_dec n"
      using dig delimited_number_end [OF r] by (simp add: takeWhile_append2)
    moreover have "dropWhile is_digit (nat_to_dec n @ r) = r"
    proof -
      have "dropWhile is_digit r = r"
        using delimited_number_end [OF r] by (metis append_Nil takeWhile_dropWhile_id)
      then show ?thesis using dig by (simp add: dropWhile_append2)
    qed
    ultimately show ?thesis using False dig c by (simp add: scan_int_part_def)
  qed
qed

lemma scan_number_int:
  assumes "delimited r" and "MIN_CANONICAL_INTEGER \<le> i" and "i \<le> MAX_CANONICAL_INTEGER"
  shows "scan_number (int_to_dec i @ r) = Inr (JInt i, r)"
proof -
  have nf: "\<not> (has_fraction r \<or> has_exponent r)"
    using delimited_number_end [OF assms(1)] by blast
  show ?thesis
  proof (cases "i < 0")
    case True
    then have "int_to_dec i = ''-'' @ nat_to_dec (nat (- i))" by (simp add: int_to_dec_def)
    then show ?thesis
      using nf parse_integer_int_to_dec [OF assms(2,3)] scan_int_part_nat [OF assms(1)]
      by (simp add: scan_number_def Let_def)
  next
    case False
    then have "int_to_dec i = nat_to_dec (nat i)" by (simp add: int_to_dec_def)
    moreover have "take 1 (nat_to_dec (nat i) @ r) \<noteq> ''-''"
      using nat_to_dec_not_minus [of "nat i"] by (cases "nat_to_dec (nat i)") simp_all
    ultimately show ?thesis
      using nf parse_integer_int_to_dec [OF assms(2,3)] scan_int_part_nat [OF assms(1)]
      by (simp add: scan_number_def Let_def)
  qed
qed

lemma is_digit_not_punct: "is_digit c \<Longrightarrow> c \<notin> set ''{[ntfNI-'' \<and> c \<noteq> CHR 0x22"
  by (auto simp: is_digit_def)

lemma scan_value_number:
  assumes "is_digit c \<or> c = CHR ''-'' \<and> s \<noteq> [] \<and> is_digit (hd s)"
  shows "scan_value (Suc n) (c # s) = scan_number (c # s)"
  using assms
proof
  assume "is_digit c"
  then show ?thesis using is_digit_not_punct [of c] by simp
next
  assume c: "c = CHR ''-'' \<and> s \<noteq> [] \<and> is_digit (hd s)"
  then obtain d t where "s = d # t" "is_digit d" by (cases s) simp_all
  then show ?thesis using is_digit_not_punct [of d] c by simp
qed

lemma scan_value_int:
  assumes "delimited r" and "MIN_CANONICAL_INTEGER \<le> i" and "i \<le> MAX_CANONICAL_INTEGER"
  shows "scan_value (Suc n) (int_to_dec i @ r) = Inr (JInt i, r)"
proof -
  obtain c s where cs: "int_to_dec i @ r = c # s"
    by (cases "int_to_dec i") simp_all
  have "is_digit c \<or> c = CHR ''-'' \<and> s \<noteq> [] \<and> is_digit (hd s)"
  proof (cases "i < 0")
    case True
    then have "c = CHR ''-''" "s = nat_to_dec (nat (- i)) @ r"
      using cs by (simp_all add: int_to_dec_def)
    then show ?thesis using is_digit_hd_nat_to_dec by simp
  next
    case False
    then have "hd (nat_to_dec (nat i)) = c"
      using cs by (cases "nat_to_dec (nat i)") (simp_all add: int_to_dec_def)
    then show ?thesis using is_digit_hd_nat_to_dec [of "nat i"] by simp
  qed
  from scan_value_number [OF this, of n] cs scan_number_int [OF assms] show ?thesis by simp
qed

lemma length_quote_chars: "length s \<le> length (concat (map quote_char s))"
proof (induction s)
  case (Cons c s)
  have "0 < length (quote_char c)" by (simp add: quote_char_def Let_def)
  with Cons show ?case by (simp add: Suc_le_eq add_strict_increasing)
qed simp

lemma unique_object_from_distinct:
  "distinct (map fst (acc @ ps)) \<Longrightarrow> unique_object_from acc ps = Inr (acc @ ps)"
proof (induction acc ps rule: unique_object_from.induct)
  case (2 acc k v ps)
  have "k \<notin> fst ` set acc" using "2.prems" by auto
  with 2 show ?case by simp
qed simp

lemma unique_object_distinct: "distinct (map fst ps) \<Longrightarrow> unique_object ps = Inr ps"
  by (simp add: unique_object_def unique_object_from_distinct)

lemma scan_string_value:
  "scan_value (Suc n) (CHR 0x22 # concat (map quote_char s) @ CHR 0x22 # r) = Inr (JStr s, r)"
  using length_quote_chars [of s] by (simp add: scan_string_quoted del: scan_string.simps)

definition scans_back :: "json \<Rightarrow> nat \<Rightarrow> bool" where
  "scans_back v d \<longleftrightarrow> (\<forall>s r n. encode v d = Inr s \<longrightarrow> delimited r \<longrightarrow> 2 * length (s @ r) < n \<longrightarrow>
     scan_value n (s @ r) = Inr (json_norm v, r))"

lemma scans_backD:
  "scans_back v d \<Longrightarrow> encode v d = Inr s \<Longrightarrow> delimited r \<Longrightarrow> 2 * length (s @ r) < n \<Longrightarrow>
   scan_value n (s @ r) = Inr (json_norm v, r)"
  by (simp add: scans_back_def)

lemma delimited_simps [simp]:
  "delimited (CHR '','' # r)" "delimited (CHR '']'' # r)" "delimited (CHR ''}'' # r)" "delimited []"
  by (simp_all add: delimited_def)

lemma skip_ws_value:
  assumes "encode v d = Inr s"
  shows "skip_ws (s @ r) = s @ r" and "take 1 (s @ r) \<noteq> '']''" and "take 1 (s @ r) \<noteq> ''}''"
proof -
  from encode_start [OF assms] have s: "s \<noteq> []" "value_start (hd s)" by simp_all
  then show "skip_ws (s @ r) = s @ r"
    using value_start_not by (intro skip_ws_id) simp_all
  from s show "take 1 (s @ r) \<noteq> '']''" "take 1 (s @ r) \<noteq> ''}''"
    using value_start_not [of "hd s"] by (cases s; auto)+
qed

lemma scan_items_join:
  assumes "\<forall>v\<in>set vs. scans_back v d" and "map (\<lambda>v. encode v d) vs = map Inr ss" and "vs \<noteq> []"
    and "2 * length (join '','' ss @ '']'' @ r) + 1 < n"
  shows "scan_items n (join '','' ss @ '']'' @ r) = Inr (map json_norm vs, r)"
  using assms
proof (induction vs arbitrary: ss n)
  case (Cons v vs)
  from Cons.prems(2) obtain s ss' where ss: "ss = s # ss'" and s: "encode v d = Inr s"
    and ss': "map (\<lambda>v. encode v d) vs = map Inr ss'"
    by (cases ss) auto
  obtain m where n: "n = Suc m" using Cons.prems(4) by (cases n) auto
  have v: "scans_back v d" using Cons.prems(1) by simp
  show ?case
  proof (cases "vs = []")
    case True
    then have "ss' = []" using ss' by simp
    moreover have "scan_value m (s @ '']'' @ r) = Inr (json_norm v, '']'' @ r)"
      using Cons.prems(4) ss \<open>ss' = []\<close> n by (intro scans_backD [OF v s]) simp_all
    ultimately show ?thesis using True by (simp add: ss n skip_ws_delim)
  next
    case False
    then obtain v' vs' s' ss'' where vs: "vs = v' # vs'" and ss'2: "ss' = s' # ss''" and s': "encode v' d = Inr s'"
      using ss' by (cases vs; cases ss') auto
    let ?rest = "join '','' ss' @ '']'' @ r"
    have len: "2 * length (s @ '','' @ ?rest) < m"
      using Cons.prems(4) by (simp add: ss n join_Cons ss'2)
    have sv: "scan_value m (s @ '','' @ ?rest) = Inr (json_norm v, '','' @ ?rest)"
      using len encode_start [OF s] by (intro scans_backD [OF v s]) auto
    have skip: "skip_ws ?rest = ?rest"
      using skip_ws_value(1) [OF s'] by (simp add: ss'2 join_Cons)
    have "scan_items m ?rest = Inr (map json_norm vs, r)"
      using Cons.prems(1) ss' False len by (intro Cons.IH) auto
    with sv skip show ?thesis
      by (simp add: ss n join_Cons ss'2 skip_ws_delim)
  qed
qed simp

abbreviation quoted :: "str \<Rightarrow> str" where
  "quoted k \<equiv> CHR 0x22 # concat (map quote_char k) @ [CHR 0x22]"

lemma scan_members_join:
  assumes "\<forall>kv\<in>set kvs. scans_back (snd kv) d \<and> utf8_ok (fst kv)"
    and "map (\<lambda>kv. encode (snd kv) d) kvs = map Inr ts" and "kvs \<noteq> []"
    and "ss = map2 (\<lambda>kv t. quoted (fst kv) @ '':'' @ t) kvs ts"
    and "2 * length (join '','' ss @ ''}'' @ r) < n"
  shows "scan_members n (join '','' ss @ ''}'' @ r) = Inr (map (\<lambda>kv. (fst kv, json_norm (snd kv))) kvs, r)"
  using assms
proof (induction kvs arbitrary: ss ts n)
  case (Cons kv kvs)
  from Cons.prems(2) obtain t ts' where ts: "ts = t # ts'" and t: "encode (snd kv) d = Inr t"
    and ts': "map (\<lambda>kv. encode (snd kv) d) kvs = map Inr ts'"
    by (cases ts) auto
  obtain m where n: "n = Suc m" using Cons.prems(5) by (cases n) auto
  have v: "scans_back (snd kv) d" using Cons.prems(1) by simp
  define ss' where "ss' = map2 (\<lambda>kv t. quoted (fst kv) @ '':'' @ t) kvs ts'"
  define tail where "tail = (if kvs = [] then ''}'' @ r else '','' @ join '','' ss' @ ''}'' @ r)"
  have ss: "ss = (quoted (fst kv) @ '':'' @ t) # ss'"
    using Cons.prems(4) by (simp add: ts ss'_def)
  have ss'e: "ss' = [] \<longleftrightarrow> kvs = []"
    using ts' by (cases kvs; cases ts') (auto simp: ss'_def)
  have txt_eq: "join '','' ss @ ''}'' @ r = CHR 0x22 # concat (map quote_char (fst kv)) @ CHR 0x22 # CHR '':'' # t @ tail"
    by (simp add: ss join_Cons tail_def ss'e)
  have dt: "delimited tail" by (simp add: tail_def)
  have len: "2 * length (t @ tail) < m"
    using Cons.prems(5) unfolding txt_eq by (simp add: n)
  have sv: "scan_value m (t @ tail) = Inr (json_norm (snd kv), tail)"
    by (rule scans_backD [OF v t dt len])
  have key: "scan_string (Suc (length (join '','' ss @ ''}'' @ r))) (concat (map quote_char (fst kv)) @ CHR 0x22 # CHR '':'' # t @ tail)
      = Inr (fst kv, CHR '':'' # t @ tail)"
    using length_quote_chars [of "fst kv"] by (intro scan_string_quoted) (simp only: txt_eq, simp)
  have colon: "skip_ws (CHR '':'' # t @ tail) = CHR '':'' # t @ tail"
    by (rule skip_ws_id) (simp_all add: is_ws_def)
  have val: "skip_ws (t @ tail) = t @ tail" by (rule skip_ws_value(1) [OF t])
  have step: "scan_members n (join '','' ss @ ''}'' @ r) =
      (if take 1 tail = ''}'' then Inr ([(fst kv, json_norm (snd kv))], drop 1 tail)
       else rbind (scan_members m (skip_ws (drop 1 tail))) (\<lambda>(ms, r4). Inr ((fst kv, json_norm (snd kv)) # ms, r4)))"
    using key colon val sv dt unfolding txt_eq n
    by (auto simp: skip_ws_delim tail_def simp del: scan_string.simps)
  show ?case
  proof (cases "kvs = []")
    case True
    then show ?thesis unfolding step by (simp add: tail_def)
  next
    case False
    then obtain kv' kvs' t' ts'' where k': "kvs = kv' # kvs'" "ts' = t' # ts''"
      using ts' by (cases kvs; cases ts') auto
    let ?rest = "join '','' ss' @ ''}'' @ r"
    have skip: "skip_ws ?rest = ?rest"
      by (rule skip_ws_id) (simp_all add: k' ss'_def join_Cons is_ws_def)
    have "2 * length ?rest < m"
      using len False by (simp add: tail_def)
    then have "scan_members m ?rest = Inr (map (\<lambda>kv. (fst kv, json_norm (snd kv))) kvs, r)"
      using Cons.prems(1) ts' False by (intro Cons.IH [OF _ ts' _ ss'_def]) auto
    then show ?thesis unfolding step using False skip by (simp add: tail_def)
  qed
qed simp

lemma encode_member_Inr:
  "encode_member (k, r) = Inr s \<longleftrightarrow> utf8_ok k \<and> (\<exists>t. r = Inr t \<and> s = quoted k @ '':'' @ t)"
  by (auto simp: encode_member_def result_simps quote_Inr)

lemma encode_members_Inr:
  assumes "map encode_member (map (\<lambda>kv. (fst kv, encode (snd kv) d)) kvs) = map Inr ss"
  shows "\<exists>ts. map (\<lambda>kv. encode (snd kv) d) kvs = map Inr ts \<and> ss = map2 (\<lambda>kv t. quoted (fst kv) @ '':'' @ t) kvs ts \<and>
    (\<forall>kv\<in>set kvs. utf8_ok (fst kv))"
  using assms
proof (induction kvs arbitrary: ss)
  case (Cons kv kvs)
  from Cons.prems obtain s ss' where ss: "ss = s # ss'" and s: "encode_member (fst kv, encode (snd kv) d) = Inr s"
    and rest: "map encode_member (map (\<lambda>kv. (fst kv, encode (snd kv) d)) kvs) = map Inr ss'"
    by (cases ss) auto
  from s obtain t where "encode (snd kv) d = Inr t" "s = quoted (fst kv) @ '':'' @ t" "utf8_ok (fst kv)"
    unfolding encode_member_Inr by blast
  moreover from Cons.IH [OF rest] obtain ts where "map (\<lambda>kv. encode (snd kv) d) kvs = map Inr ts"
    "ss' = map2 (\<lambda>kv t. quoted (fst kv) @ '':'' @ t) kvs ts" "\<forall>kv\<in>set kvs. utf8_ok (fst kv)" by blast
  ultimately show ?case by (intro exI [of _ "t # ts"]) (simp add: ss)
qed simp

lemma scans_back_array:
  assumes "\<forall>v\<in>set vs. scans_back v (Suc d)"
  shows "scans_back (JArr vs) d"
  unfolding scans_back_def
proof (intro allI impI)
  fix s r n
  assume s: "encode (JArr vs) d = Inr s" and r: "delimited r" and n: "2 * length (s @ r) < n"
  from s obtain ss where ss: "map (\<lambda>v. encode v (Suc d)) vs = map Inr ss" and s: "s = ''['' @ join '','' ss @ '']''"
    by (auto simp: result_simps rseq_Inr_iff)
  obtain m where m: "n = Suc m" using n by (cases n) auto
  show "scan_value n (s @ r) = Inr (json_norm (JArr vs), r)"
  proof (cases "vs = []")
    case True
    then show ?thesis using ss by (simp add: s m skip_ws_delim)
  next
    case False
    then obtain v vs' t ts where vs: "vs = v # vs'" and ts: "ss = t # ts" and t: "encode v (Suc d) = Inr t"
      using ss by (cases vs; cases ss) auto
    let ?body = "join '','' ss @ '']'' @ r"
    obtain u where u: "?body = t @ u" by (cases ts) (auto simp: ts join_Cons)
    have "skip_ws ?body = ?body" "take 1 ?body \<noteq> '']''"
      using skip_ws_value [OF t, of u] unfolding u by blast+
    moreover have "scan_items m ?body = Inr (map json_norm vs, r)"
      using n by (intro scan_items_join [OF assms ss False]) (simp add: s m)
    ultimately show ?thesis by (simp add: s m)
  qed
qed

lemma scans_back_object:
  assumes "\<forall>kv\<in>set kvs. scans_back (snd kv) (Suc d)" and "distinct (map fst kvs)"
  shows "scans_back (JObj kvs) d"
  unfolding scans_back_def
proof (intro allI impI)
  fix s r n
  assume s: "encode (JObj kvs) d = Inr s" and r: "delimited r" and n: "2 * length (s @ r) < n"
  let ?kvs = "sort_key fst kvs"
  from s obtain ss where ss: "map encode_member (map (\<lambda>kv. (fst kv, encode (snd kv) (Suc d))) ?kvs) = map Inr ss"
    and s: "s = ''{'' @ join '','' ss @ ''}''"
    by (auto simp: result_simps rseq_Inr_iff sort_key_fst_map [of "\<lambda>v. encode v (Suc d)"])
  from encode_members_Inr [OF ss] obtain ts where ts: "map (\<lambda>kv. encode (snd kv) (Suc d)) ?kvs = map Inr ts"
    and ssd: "ss = map2 (\<lambda>kv t. quoted (fst kv) @ '':'' @ t) ?kvs ts" and ok: "\<forall>kv\<in>set ?kvs. utf8_ok (fst kv)" by blast
  have norm: "json_norm (JObj kvs) = JObj (map (\<lambda>kv. (fst kv, json_norm (snd kv))) ?kvs)"
    by (simp add: sort_key_fst_map)
  have dist: "distinct (map fst (map (\<lambda>kv. (fst kv, json_norm (snd kv))) ?kvs))"
    using assms(2) by (simp add: comp_def distinct_map)
  obtain m where m: "n = Suc m" using n by (cases n) auto
  show "scan_value n (s @ r) = Inr (json_norm (JObj kvs), r)"
  proof (cases "kvs = []")
    case True
    then show ?thesis using ss by (simp add: s m skip_ws_delim)
  next
    case False
    then have "?kvs \<noteq> []" by (metis length_0_conv length_sort)
    then obtain kv kvs' t ts' where k: "?kvs = kv # kvs'" "ts = t # ts'"
      using ts by (cases ?kvs; cases ts) auto
    let ?body = "join '','' ss @ ''}'' @ r"
    have "skip_ws ?body = ?body"
      by (rule skip_ws_id) (simp_all add: k ssd join_Cons is_ws_def)
    moreover have "take 1 ?body \<noteq> ''}''" by (simp add: k ssd join_Cons)
    moreover have "scan_members m ?body = Inr (map (\<lambda>kv. (fst kv, json_norm (snd kv))) ?kvs, r)"
      using n assms(1) ok \<open>?kvs \<noteq> []\<close> by (intro scan_members_join [OF _ ts _ ssd]) (simp_all add: s m)
    ultimately show ?thesis
      using unique_object_distinct [OF dist] by (simp add: s m sort_key_fst_map)
  qed
qed

lemma scan_value_keyword:
  "0 < n \<Longrightarrow> scan_value n (''null'' @ r) = Inr (JNull, r)"
  "0 < n \<Longrightarrow> scan_value n (''true'' @ r) = Inr (JBool True, r)"
  "0 < n \<Longrightarrow> scan_value n (''false'' @ r) = Inr (JBool False, r)"
  by (auto simp: gr0_conv_Suc)

lemma encode_scans_back: "json_wf v \<Longrightarrow> scans_back v d"
proof (induction v d rule: encode.induct)
  case (3 i d)
  show ?case unfolding scans_back_def
    by (auto simp: result_simps simp del: scan_value.simps dest!: less_imp_Suc_add intro!: scan_value_int)
next
  case (5 s d)
  show ?case unfolding scans_back_def
    by (auto simp: quote_Inr dest!: less_imp_Suc_add simp del: scan_value.simps intro: scan_string_value)
next
  case (6 vs d)
  show ?case
  proof (cases "d < MAX_JSON_NESTING_DEPTH")
    case True
    with 6 show ?thesis by (intro scans_back_array) (simp add: list_all_iff)
  qed (simp add: scans_back_def)
next
  case (7 kvs d)
  show ?case
  proof (cases "d < MAX_JSON_NESTING_DEPTH")
    case True
    with 7 show ?thesis by (intro scans_back_object) (auto simp: list_all_iff)
  qed (simp add: scans_back_def)
qed (use scan_value_keyword in \<open>auto simp: scans_back_def split: if_splits\<close>)

section \<open>The pre-scans accept canonical text\<close>

lemma hex_digit_char_plain: "n < 16 \<Longrightarrow> hex_digit_char n \<noteq> CHR 0x22 \<and> hex_digit_char n \<noteq> CHR 0x5C"
  using of_char_hex_digit [of n] by (auto split: if_splits)

lemma depth_scan_string:
  "c \<noteq> CHR 0x22 \<Longrightarrow> c \<noteq> CHR 0x5C \<Longrightarrow> depth_scan (c # r) d True False = depth_scan r d True False"
  "depth_scan (CHR 0x5C # e # r) d True False = depth_scan r d True False"
  "depth_scan (CHR 0x22 # r) d True False = depth_scan r d False False"
  by simp_all

lemma depth_scan_quote_char:
  "depth_scan (quote_char c @ r) d True False = depth_scan r d True False"
proof -
  have "(of_char c :: nat) \<noteq> 34 \<Longrightarrow> c \<noteq> CHR 0x22" "(of_char c :: nat) \<noteq> 92 \<Longrightarrow> c \<noteq> CHR 0x5C"
    by auto
  then show ?thesis
    using hex_digit_char_plain [of "of_char c div 16"] hex_digit_char_plain [of "of_char c mod 16"]
    unfolding quote_char_def Let_def
    by (simp add: depth_scan_string del: depth_scan.simps)
qed

lemma depth_scan_quoted:
  "depth_scan (concat (map quote_char s) @ CHR 0x22 # r) d True False = depth_scan r d False False"
  by (induction s) (simp_all add: depth_scan_quote_char depth_scan_string del: depth_scan.simps)

lemma depth_scan_skip:
  "c \<noteq> CHR 0x22 \<Longrightarrow> c \<noteq> CHR ''['' \<Longrightarrow> c \<noteq> CHR ''{'' \<Longrightarrow> c \<noteq> CHR '']'' \<Longrightarrow> c \<noteq> CHR ''}'' \<Longrightarrow>
   depth_scan (c # r) d False False = depth_scan r d False False"
  by simp

lemma depth_scan_digits: "list_all is_digit s \<Longrightarrow> depth_scan (s @ r) d False False = depth_scan r d False False"
proof (induction s)
  case (Cons c s)
  then have "c \<noteq> CHR 0x22" "c \<noteq> CHR ''[''" "c \<noteq> CHR '']''" "c \<noteq> CHR ''{''" "c \<noteq> CHR ''}''"
    by (auto simp: is_digit_def)
  with Cons show ?case by (simp add: depth_scan_skip del: depth_scan.simps)
qed simp

lemma depth_scan_int: "depth_scan (int_to_dec i @ r) d False False = depth_scan r d False False"
  by (simp add: int_to_dec_def depth_scan_digits nat_to_dec_digits depth_scan_skip del: depth_scan.simps)

lemma depth_scan_join:
  assumes "\<forall>s\<in>set ss. \<forall>r. depth_scan (s @ r) d False False = depth_scan r d False False"
  shows "depth_scan (join '','' ss @ r) d False False = depth_scan r d False False"
  using assms by (induction ss) (simp_all add: join_Cons depth_scan_skip del: depth_scan.simps)

lemma depth_scan_encode:
  "encode v d = Inr s \<Longrightarrow> depth_scan (s @ r) (int d) False False = depth_scan r (int d) False False"
proof (induction v d arbitrary: s r rule: encode.induct)
  case (3 i d)
  then show ?case by (auto simp: depth_scan_int split: if_splits)
next
  case (5 t d)
  then show ?case by (auto simp: quote_Inr depth_scan_quoted)
next
  case (6 vs d)
  then obtain ss where d: "d < MAX_JSON_NESTING_DEPTH" and ss: "map (\<lambda>v. encode v (Suc d)) vs = map Inr ss"
    and s: "s = ''['' @ join '','' ss @ '']''"
    by (auto simp: result_simps rseq_Inr_iff)
  have "\<forall>t\<in>set ss. \<forall>r. depth_scan (t @ r) (int (Suc d)) False False = depth_scan r (int (Suc d)) False False"
  proof
    fix t assume "t \<in> set ss"
    then obtain v where "v \<in> set vs" "encode v (Suc d) = Inr t"
      using ss by (metis (no_types, lifting) imageE image_eqI list.set_map)
    then show "\<forall>r. depth_scan (t @ r) (int (Suc d)) False False = depth_scan r (int (Suc d)) False False"
      using 6 d by auto
  qed
  from depth_scan_join [OF this] show ?case using d by (simp add: s add.commute)
next
  case (7 kvs d)
  let ?kvs = "sort_key fst kvs"
  from 7 obtain ss where d: "d < MAX_JSON_NESTING_DEPTH"
    and ss: "map encode_member (map (\<lambda>kv. (fst kv, encode (snd kv) (Suc d))) ?kvs) = map Inr ss"
    and s: "s = ''{'' @ join '','' ss @ ''}''"
    by (auto simp: result_simps rseq_Inr_iff sort_key_fst_map [of "\<lambda>v. encode v (Suc d)"])
  have "\<forall>t\<in>set ss. \<forall>r. depth_scan (t @ r) (int (Suc d)) False False = depth_scan r (int (Suc d)) False False"
  proof
    fix t assume "t \<in> set ss"
    then have "Inr t \<in> set (map encode_member (map (\<lambda>kv. (fst kv, encode (snd kv) (Suc d))) ?kvs))"
      using ss by simp
    then obtain kv where "kv \<in> set kvs" "encode_member (fst kv, encode (snd kv) (Suc d)) = Inr t"
      by auto
    then obtain u where "kv \<in> set kvs" "encode (snd kv) (Suc d) = Inr u" "t = quoted (fst kv) @ '':'' @ u"
      unfolding encode_member_Inr by blast
    then show "\<forall>r. depth_scan (t @ r) (int (Suc d)) False False = depth_scan r (int (Suc d)) False False"
      using 7(1) [of kv] d by (auto simp: depth_scan_quoted)
  qed
  from depth_scan_join [OF this] show ?case using d by (simp add: s add.commute)
qed (auto split: if_splits)

lemma utf8_ok_low: "(of_char a :: nat) < 128 \<Longrightarrow> utf8_ok (a # r) \<longleftrightarrow> utf8_ok r"
  by simp

lemma utf8_ok_lead:
  assumes "utf8_ok (a # r)" and "128 \<le> (of_char a :: nat)"
  shows "(\<exists>b r'. r = b # r' \<and> utf8_cont b \<and> (\<forall>t. utf8_ok (a # b # t) = utf8_ok t)) \<or>
    (\<exists>b c r'. r = b # c # r' \<and> utf8_cont b \<and> utf8_cont c \<and> (\<forall>t. utf8_ok (a # b # c # t) = utf8_ok t)) \<or>
    (\<exists>b c d r'. r = b # c # d # r' \<and> utf8_cont b \<and> utf8_cont c \<and> utf8_cont d \<and>
      (\<forall>t. utf8_ok (a # b # c # d # t) = utf8_ok t))"
proof -
  let ?x = "of_char a :: nat"
  note unf = utf8_ok.simps(2) [of a] Let_def
  consider "194 \<le> ?x" "?x < 224" | "224 \<le> ?x" "?x < 240" | "240 \<le> ?x" "?x < 245"
    using assms unfolding unf by (auto split: if_splits)
  then show ?thesis
  proof cases
    case 1
    then obtain b r' where "r = b # r'" "utf8_cont b"
      using assms unfolding unf by (cases r) auto
    with 1 show ?thesis unfolding unf by simp
  next
    case 2
    then have "case r of b # c # r2 \<Rightarrow>
         utf8_cont b \<and> utf8_cont c \<and> (?x = 224 \<longrightarrow> 160 \<le> (of_char b :: nat)) \<and>
         (?x = 237 \<longrightarrow> (of_char b :: nat) < 160) \<and> utf8_ok r2 | _ \<Rightarrow> False"
      using assms unfolding unf by simp
    then obtain b c r' where "r = b # c # r'" "utf8_cont b" "utf8_cont c"
      "?x = 224 \<longrightarrow> 160 \<le> (of_char b :: nat)" "?x = 237 \<longrightarrow> (of_char b :: nat) < 160"
      by (auto split: list.splits simp del: utf8_ok.simps)
    with 2 show ?thesis unfolding unf by simp
  next
    case 3
    then have "case r of b # c # d # r3 \<Rightarrow>
         utf8_cont b \<and> utf8_cont c \<and> utf8_cont d \<and> (?x = 240 \<longrightarrow> 144 \<le> (of_char b :: nat)) \<and>
         (?x = 244 \<longrightarrow> (of_char b :: nat) < 144) \<and> utf8_ok r3 | _ \<Rightarrow> False"
      using assms unfolding unf by simp
    then obtain b c d r' where "r = b # c # d # r'" "utf8_cont b" "utf8_cont c" "utf8_cont d"
      "?x = 240 \<longrightarrow> 144 \<le> (of_char b :: nat)" "?x = 244 \<longrightarrow> (of_char b :: nat) < 144"
      by (auto split: list.splits simp del: utf8_ok.simps)
    with 3 show ?thesis unfolding unf by simp
  qed
qed

text \<open>A non-empty strict text splits off its first character, an ASCII octet or octets above 127.\<close>

lemma utf8_ok_head:
  assumes "utf8_ok (a # r)"
  obtains w r' where "a # r = w @ r'" and "\<And>t. utf8_ok (w @ t) = utf8_ok t" and "w \<noteq> []"
    and "w = [a] \<and> (of_char a :: nat) < 128 \<or> (\<forall>c\<in>set w. 128 \<le> (of_char c :: nat))"
proof (cases "(of_char a :: nat) < 128")
  case True
  then show ?thesis using that [of "[a]" r] by simp
next
  case False
  then have "128 \<le> (of_char a :: nat)" by simp
  from utf8_ok_lead [OF assms this] consider b r' where "r = b # r'" "utf8_cont b" "\<forall>t. utf8_ok (a # b # t) = utf8_ok t"
    | b c r' where "r = b # c # r'" "utf8_cont b" "utf8_cont c" "\<forall>t. utf8_ok (a # b # c # t) = utf8_ok t"
    | b c d r' where "r = b # c # d # r'" "utf8_cont b" "utf8_cont c" "utf8_cont d" "\<forall>t. utf8_ok (a # b # c # d # t) = utf8_ok t"
    by blast
  then show ?thesis
  proof cases
    case 1
    with False show ?thesis using that [of "[a, b]" r'] by (simp add: utf8_cont_def del: utf8_ok.simps)
  next
    case 2
    with False show ?thesis using that [of "[a, b, c]" r'] by (simp add: utf8_cont_def del: utf8_ok.simps)
  next
    case 3
    with False show ?thesis using that [of "[a, b, c, d]" r'] by (simp add: utf8_cont_def del: utf8_ok.simps)
  qed
qed

lemma utf8_ok_append: "utf8_ok s \<Longrightarrow> utf8_ok (s @ r) \<longleftrightarrow> utf8_ok r"
proof (induction s rule: length_induct)
  case (1 s)
  show ?case
  proof (cases s)
    case (Cons a s')
    then obtain w t where "s = w @ t" "\<And>u. utf8_ok (w @ u) = utf8_ok u" "w \<noteq> []"
      using 1 utf8_ok_head by metis
    with 1 show ?thesis by (simp del: utf8_ok.simps)
  qed simp
qed

lemma utf8_ok_ascii: "list_all (\<lambda>c. (of_char c :: nat) < 128) s \<Longrightarrow> utf8_ok (s @ r) = utf8_ok r"
  by (induction s) simp_all

lemma quote_char_ascii: "(of_char c :: nat) < 128 \<Longrightarrow> list_all (\<lambda>c. (of_char c :: nat) < 128) (quote_char c)"
  using mod_less_divisor [of 16 "of_char c :: nat"] by (simp add: quote_char_def Let_def of_char_hex_digit del: mod_less_divisor)

lemma quote_char_high: "\<forall>c\<in>set w. 128 \<le> (of_char c :: nat) \<Longrightarrow> concat (map quote_char w) = w"
  by (induction w) (auto simp: quote_char_def Let_def)

lemma utf8_ok_quote_chars: "utf8_ok s \<Longrightarrow> utf8_ok (concat (map quote_char s) @ r) = utf8_ok r"
proof (induction s rule: length_induct)
  case (1 s)
  show ?case
  proof (cases s)
    case (Cons a s')
    then have "utf8_ok (a # s')" using 1(2) by simp
    then obtain w t where w: "a # s' = w @ t" "\<And>u. utf8_ok (w @ u) = utf8_ok u" "w \<noteq> []"
      "w = [a] \<and> (of_char a :: nat) < 128 \<or> (\<forall>c\<in>set w. 128 \<le> (of_char c :: nat))"
      by (rule utf8_ok_head) blast
    have "utf8_ok t" using 1(2) w(2) unfolding Cons w(1) by blast
    moreover have "length t < length s" using w(3) unfolding Cons w(1) by simp
    ultimately have rest: "utf8_ok (concat (map quote_char t) @ r) = utf8_ok r" using 1(1) by blast
    show ?thesis
    proof (cases "w = [a] \<and> (of_char a :: nat) < 128")
      case True
      then show ?thesis using rest utf8_ok_ascii [OF quote_char_ascii, of a] unfolding Cons w(1)
        by (simp del: utf8_ok.simps)
    next
      case False
      then have "concat (map quote_char w) = w" using w(4) quote_char_high by blast
      then show ?thesis using rest w(2) unfolding Cons w(1) by (simp del: utf8_ok.simps)
    qed
  qed simp
qed

lemma utf8_ok_int: "utf8_ok (int_to_dec i)"
proof -
  have "list_all (\<lambda>c. (of_char c :: nat) < 128) (int_to_dec i)"
    using nat_to_dec_digits [of "nat \<bar>i\<bar>"]
    by (fastforce simp: int_to_dec_def list_all_iff is_digit_def)
  from utf8_ok_ascii [OF this, of "[]"] show ?thesis by simp
qed

lemma utf8_ok_join: "\<forall>s\<in>set ss. utf8_ok s \<Longrightarrow> utf8_ok (join '','' ss)"
  by (induction ss) (auto simp add: join_Cons utf8_ok_append utf8_ok_low simp del: utf8_ok.simps(2))

lemma encode_array_parts:
  assumes "encode (JArr vs) d = Inr s"
  obtains ss where "d < MAX_JSON_NESTING_DEPTH" and "map (\<lambda>v. encode v (Suc d)) vs = map Inr ss"
    and "s = ''['' @ join '','' ss @ '']''" and "\<And>t. t \<in> set ss \<Longrightarrow> \<exists>v\<in>set vs. encode v (Suc d) = Inr t"
proof -
  from assms obtain ss where 1: "d < MAX_JSON_NESTING_DEPTH" "map (\<lambda>v. encode v (Suc d)) vs = map Inr ss"
    "s = ''['' @ join '','' ss @ '']''"
    by (auto simp: result_simps rseq_Inr_iff)
  have "\<exists>v\<in>set vs. encode v (Suc d) = Inr t" if "t \<in> set ss" for t
    using that 1(2) by (metis (no_types, lifting) imageE image_eqI list.set_map)
  with 1 show ?thesis using that by blast
qed

lemma encode_object_parts:
  assumes "encode (JObj kvs) d = Inr s"
  obtains ss where "d < MAX_JSON_NESTING_DEPTH"
    and "map encode_member (map (\<lambda>kv. (fst kv, encode (snd kv) (Suc d))) (sort_key fst kvs)) = map Inr ss"
    and "s = ''{'' @ join '','' ss @ ''}''"
    and "\<And>t. t \<in> set ss \<Longrightarrow> \<exists>kv\<in>set kvs. \<exists>u. utf8_ok (fst kv) \<and> encode (snd kv) (Suc d) = Inr u \<and> t = quoted (fst kv) @ '':'' @ u"
proof -
  from assms obtain ss where 1: "d < MAX_JSON_NESTING_DEPTH"
    "map encode_member (map (\<lambda>kv. (fst kv, encode (snd kv) (Suc d))) (sort_key fst kvs)) = map Inr ss"
    "s = ''{'' @ join '','' ss @ ''}''"
    by (auto simp: result_simps rseq_Inr_iff sort_key_fst_map [of "\<lambda>v. encode v (Suc d)"])
  have "\<exists>kv\<in>set kvs. \<exists>u. utf8_ok (fst kv) \<and> encode (snd kv) (Suc d) = Inr u \<and> t = quoted (fst kv) @ '':'' @ u"
    if "t \<in> set ss" for t
  proof -
    have "Inr t \<in> set (map encode_member (map (\<lambda>kv. (fst kv, encode (snd kv) (Suc d))) (sort_key fst kvs)))"
      using that 1(2) by simp
    then obtain kv where "kv \<in> set kvs" "encode_member (fst kv, encode (snd kv) (Suc d)) = Inr t" by auto
    then show ?thesis unfolding encode_member_Inr by blast
  qed
  with 1 show ?thesis using that by blast
qed

lemma utf8_ok_quoted: "utf8_ok k \<Longrightarrow> utf8_ok (CHR 0x22 # concat (map quote_char k) @ CHR 0x22 # r) = utf8_ok r"
  using utf8_ok_quote_chars [of k "CHR 0x22 # r"] by (simp add: utf8_ok_low del: utf8_ok.simps)

lemma utf8_ok_encode: "encode v d = Inr s \<Longrightarrow> utf8_ok s"
proof (induction v d arbitrary: s rule: encode.induct)
  case (3 i d)
  then show ?case by (auto simp: utf8_ok_int split: if_splits simp del: utf8_ok.simps)
next
  case (5 t d)
  then show ?case using utf8_ok_quoted [of t "[]"] by (simp add: quote_Inr)
next
  case (6 vs d)
  from 6(2) show ?case
  proof (rule encode_array_parts)
    fix ss
    assume d: "d < MAX_JSON_NESTING_DEPTH" and s: "s = ''['' @ join '','' ss @ '']''"
      and each: "\<And>t. t \<in> set ss \<Longrightarrow> \<exists>v\<in>set vs. encode v (Suc d) = Inr t"
    have "\<forall>t\<in>set ss. utf8_ok t" using 6(1) d each by (metis Suc_leI linorder_not_less)
    from utf8_ok_join [OF this] show ?thesis
      by (simp add: s utf8_ok_low utf8_ok_append del: utf8_ok.simps(2))
  qed
next
  case (7 kvs d)
  from 7(2) show ?case
  proof (rule encode_object_parts)
    fix ss
    assume d: "d < MAX_JSON_NESTING_DEPTH" and s: "s = ''{'' @ join '','' ss @ ''}''"
      and each: "\<And>t. t \<in> set ss \<Longrightarrow> \<exists>kv\<in>set kvs. \<exists>u. utf8_ok (fst kv) \<and> encode (snd kv) (Suc d) = Inr u \<and> t = quoted (fst kv) @ '':'' @ u"
    have "\<forall>t\<in>set ss. utf8_ok t"
    proof
      fix t assume "t \<in> set ss"
      from each [OF this] obtain kv u where kv: "kv \<in> set kvs" "utf8_ok (fst kv)" "encode (snd kv) (Suc d) = Inr u"
        and t: "t = quoted (fst kv) @ '':'' @ u" by blast
      have "utf8_ok u" using 7(1) [of kv] kv d by (auto simp del: utf8_ok.simps)
      then show "utf8_ok t" using utf8_ok_quoted [OF kv(2), of "'':'' @ u"]
        by (simp add: t utf8_ok_low del: utf8_ok.simps)
    qed
    from utf8_ok_join [OF this] show ?thesis
      by (simp add: s utf8_ok_low utf8_ok_append del: utf8_ok.simps(2))
  qed
qed (auto split: if_splits)

lemma unicode_ok_norm: "encode v d = Inr s \<Longrightarrow> unicode_ok (json_norm v)"
proof (induction v d arbitrary: s rule: encode.induct)
  case (5 t d)
  then show ?case by (simp add: quote_Inr del: utf8_ok.simps)
next
  case (6 vs d)
  from 6(2) obtain ss where d: "d < MAX_JSON_NESTING_DEPTH" and ss: "map (\<lambda>v. encode v (Suc d)) vs = map Inr ss"
    by (rule encode_array_parts)
  have "\<exists>t. encode v (Suc d) = Inr t" if "v \<in> set vs" for v
    using ss that by (metis (no_types, lifting) imageE image_eqI list.set_map)
  with 6(1) d show ?case by (fastforce simp: list_all_iff)
next
  case (7 kvs d)
  from 7(2) obtain ss where d: "d < MAX_JSON_NESTING_DEPTH"
    and ss: "map encode_member (map (\<lambda>kv. (fst kv, encode (snd kv) (Suc d))) (sort_key fst kvs)) = map Inr ss"
    by (rule encode_object_parts)
  have "utf8_ok (fst kv) \<and> (\<exists>t. encode (snd kv) (Suc d) = Inr t)" if "kv \<in> set kvs" for kv
  proof -
    have "encode_member (fst kv, encode (snd kv) (Suc d)) \<in> set (map Inr ss)"
      unfolding ss [symmetric] using that by auto
    then show ?thesis by (auto simp: encode_member_Inr)
  qed
  with 7(1) d show ?case by (fastforce simp: list_all_iff simp del: utf8_ok.simps)
qed (auto split: if_splits)

section \<open>Canonical documents decode to their normal form\<close>

lemma canonical_document_scans:
  assumes "canonical_json v = Inr raw" and "json_wf v"
  shows "scan_value (2 * length (skip_ws raw) + 1) (skip_ws raw) = Inr (json_norm v, [])"
    and "skip_ws raw = raw" and "utf8_ok raw" and "validate_json_depth raw = Inr ()" and "unicode_ok (json_norm v)"
proof -
  have e: "encode v 0 = Inr raw" using assms(1) by (simp add: canonical_json_def)
  show skip: "skip_ws raw = raw" using skip_ws_value(1) [OF e, of "[]"] by simp
  show "scan_value (2 * length (skip_ws raw) + 1) (skip_ws raw) = Inr (json_norm v, [])"
    using scans_backD [OF encode_scans_back [OF assms(2)] e, of "[]"] by (simp add: skip del: scan_value.simps)
  show "utf8_ok raw" by (rule utf8_ok_encode [OF e])
  show "unicode_ok (json_norm v)" by (rule unicode_ok_norm [OF e])
  show "validate_json_depth raw = Inr ()"
    using depth_scan_encode [OF e, of "[]"] by (simp add: validate_json_depth_def)
qed

lemma decode_document_canonical:
  assumes "canonical_json (JObj kvs) = Inr raw" and "json_wf (JObj kvs)"
    and "set required \<subseteq> fst ` set kvs" and "\<forall>kv\<in>set kvs. snd kv \<noteq> JNull"
    and "int (length raw) \<le> max_bytes"
  shows "decode_document required raw max_bytes = Inr (map (\<lambda>kv. (fst kv, json_norm (snd kv))) (sort_key fst kvs))"
proof -
  let ?out = "map (\<lambda>kv. (fst kv, json_norm (snd kv))) (sort_key fst kvs)"
  have norm: "json_norm (JObj kvs) = JObj ?out" by (simp add: sort_key_fst_map)
  note scans = canonical_document_scans [OF assms(1,2), unfolded norm]
  have "raw \<noteq> []" using scans(1,2) by (auto simp: scan_number_def scan_int_part_def)
  then have "1 \<le> max_bytes" using assms(5) by (cases raw) auto
  moreover have "filter (\<lambda>name. name \<notin> fst ` set ?out) required = []"
    using assms(3) by (force simp: filter_empty_conv image_iff)
  moreover have "json_norm v = JNull \<longleftrightarrow> v = JNull" for v by (cases v) auto
  then have "filter (\<lambda>kv. snd kv = JNull) ?out = []"
    using assms(4) by (auto simp: filter_empty_conv)
  ultimately show ?thesis
    using scans(1,3,4,5) assms(5) unfolding decode_document_def scans(2)
    by (simp add: skip_ws_def Let_def del: utf8_ok.simps unicode_ok.simps scan_value.simps)
qed

section \<open>The scanner's fuel\<close>

lemma length_skip_ws: "length (skip_ws s) \<le> length s"
  by (simp add: skip_ws_def length_dropWhile_le)

lemma unicode_escape_shorter: "unicode_escape s = Inr (bs, r) \<Longrightarrow> length r \<le> length s"
  by (auto simp: unicode_escape_def Let_def split: option.splits if_splits)

lemma unicode_escape_no_fuel: "unicode_escape s \<noteq> Inl OutOfFuel"
  by (auto simp: unicode_escape_def Let_def split: option.splits)

lemma scan_string_InrE:
  assumes "scan_string (Suc n) s = Inr (t, r)"
  obtains "s = CHR 0x22 # r" | s' t' where "scan_string n s' = Inr (t', r)" and "length s' < length s"
  using assms
  by (auto simp: result_simps split: if_splits list.splits option.splits dest: unicode_escape_shorter)

lemma scan_string_fuelE:
  assumes "scan_string (Suc n) s = Inl OutOfFuel"
  obtains s' where "scan_string n s' = Inl OutOfFuel" and "length s' < length s"
  using assms
  by (auto simp: result_simps unicode_escape_no_fuel split: if_splits list.splits option.splits dest: unicode_escape_shorter)

lemma scan_string_shorter: "scan_string n s = Inr (t, r) \<Longrightarrow> length r < length s"
proof (induction n arbitrary: s t)
  case (Suc n)
  from Suc.prems show ?case
    by (rule scan_string_InrE) (auto dest: Suc.IH)
qed simp

lemma scan_string_fuel: "length s < n \<Longrightarrow> scan_string n s \<noteq> Inl OutOfFuel"
proof (induction n arbitrary: s)
  case (Suc n)
  show ?case
  proof
    assume "scan_string (Suc n) s = Inl OutOfFuel"
    then show False by (rule scan_string_fuelE) (use Suc in force)
  qed
qed simp

lemma scan_int_part_shorter: "scan_int_part s = Inr (ds, r) \<Longrightarrow> length r < length s"
  using length_dropWhile_le [of is_digit "tl s"]
  by (auto simp: scan_int_part_def split: if_splits list.splits)

lemma scan_number_shorter: "scan_number s = Inr (v, r) \<Longrightarrow> length r < length s"
  by (force simp: scan_number_def Let_def result_simps split: if_splits dest: scan_int_part_shorter)

lemma scan_number_no_fuel: "scan_number s \<noteq> Inl OutOfFuel"
  by (auto simp: scan_number_def scan_int_part_def parse_integer_def Let_def result_simps split: if_splits list.splits)

lemma unique_object_no_fuel: "unique_object_from acc ps \<noteq> Inl OutOfFuel"
  by (induction acc ps rule: unique_object_from.induct) auto

lemma scan_value_shorter_step:
  assumes items: "\<And>s vs r. scan_items n s = Inr (vs, r) \<Longrightarrow> length r < length s"
    and members: "\<And>s ms r. scan_members n s = Inr (ms, r) \<Longrightarrow> length r < length s"
    and eq: "scan_value (Suc n) s = Inr (v, r)"
  shows "length r < length s"
proof (cases s)
  case Nil
  with eq show ?thesis by (auto simp: scan_number_def scan_int_part_def)
next
  case (Cons c s1)
  have skip: "length (skip_ws s1) \<le> length s1" by (rule length_skip_ws)
  show ?thesis
    using eq skip unfolding scan_value.simps Let_def Cons
    by (auto simp: result_simps simp del: scan_string.simps split: if_splits
        dest!: scan_string_shorter items members scan_number_shorter)
qed

lemma length_drop_skip: "length (drop k (skip_ws s)) \<le> length s" "length (skip_ws (drop k (skip_ws s))) \<le> length s"
  using length_skip_ws [of s] length_skip_ws [of "drop k (skip_ws s)"] by auto

lemma scan_items_shorter_step:
  assumes val: "\<And>s v r. scan_value n s = Inr (v, r) \<Longrightarrow> length r < length s"
    and items: "\<And>s vs r. scan_items n s = Inr (vs, r) \<Longrightarrow> length r < length s"
    and eq: "scan_items (Suc n) s = Inr (vs, r)"
  shows "length r < length s"
proof -
  from eq obtain v r0 where r0: "scan_value n s = Inr (v, r0)"
    and r: "r = drop 1 (skip_ws r0) \<or> (\<exists>ws. scan_items n (skip_ws (drop 1 (skip_ws r0))) = Inr (ws, r))"
    by (auto simp: result_simps Let_def split: if_splits)
  have "length r \<le> length r0"
    using r length_drop_skip [of 1 r0] items by fastforce
  with val [OF r0] show ?thesis by simp
qed

lemma scan_members_shorter_step:
  assumes val: "\<And>s v r. scan_value n s = Inr (v, r) \<Longrightarrow> length r < length s"
    and members: "\<And>s ms r. scan_members n s = Inr (ms, r) \<Longrightarrow> length r < length s"
    and eq: "scan_members (Suc n) s = Inr (ms, r)"
  shows "length r < length s"
proof -
  from eq obtain k r0 v r2 where r0: "scan_string (Suc (length s)) (drop 1 s) = Inr (k, r0)"
    and r2: "scan_value n (skip_ws (drop 1 (skip_ws r0))) = Inr (v, r2)"
    and r: "r = drop 1 (skip_ws r2) \<or> (\<exists>ms. scan_members n (skip_ws (drop 1 (skip_ws r2))) = Inr (ms, r))"
    by (auto simp: result_simps Let_def simp del: scan_string.simps split: if_splits)
  have "length r \<le> length r2"
    using r length_drop_skip [of 1 r2] members by fastforce
  with val [OF r2] scan_string_shorter [OF r0] length_drop_skip [of 1 r0] show ?thesis by simp
qed

lemma scan_shorter_all:
  "(\<forall>s v r. scan_value n s = Inr (v, r) \<longrightarrow> length r < length s) \<and>
   (\<forall>s vs r. scan_items n s = Inr (vs, r) \<longrightarrow> length r < length s) \<and>
   (\<forall>s ms r. scan_members n s = Inr (ms, r) \<longrightarrow> length r < length s)"
proof (induction n)
  case (Suc n)
  then have IH: "\<And>s v r. scan_value n s = Inr (v, r) \<Longrightarrow> length r < length s"
    "\<And>s vs r. scan_items n s = Inr (vs, r) \<Longrightarrow> length r < length s"
    "\<And>s ms r. scan_members n s = Inr (ms, r) \<Longrightarrow> length r < length s"
    by blast+
  show ?case
    by (intro conjI allI impI; erule scan_value_shorter_step [rotated 2] scan_items_shorter_step [rotated 2]
        scan_members_shorter_step [rotated 2]; erule IH)
qed simp

lemma scan_value_shorter: "scan_value n s = Inr (v, r) \<Longrightarrow> length r < length s"
  using scan_shorter_all [of n] by blast

lemma scan_value_fuelE:
  assumes "scan_value (Suc n) s = Inl OutOfFuel" 
  shows "\<exists>s'. length s' < length s \<and> (scan_items n s' = Inl OutOfFuel \<or> scan_members n s' = Inl OutOfFuel)"
proof -
  have "scan_string (Suc (length s)) (drop 1 s) \<noteq> Inl OutOfFuel"
    by (rule scan_string_fuel) simp
  moreover have "length (skip_ws (drop 1 s)) < length s" if "take 1 s = [c]" for c
    using that length_skip_ws [of "drop 1 s"] by (cases s) auto
  ultimately show ?thesis
    using assms unfolding scan_value.simps Let_def
    by (auto simp: result_simps unique_object_def unique_object_no_fuel scan_number_no_fuel simp del: scan_string.simps
        split: if_splits)
qed

lemma scan_items_fuelE:
  assumes "scan_items (Suc n) s = Inl OutOfFuel"
  shows "scan_value n s = Inl OutOfFuel \<or> (\<exists>s'. length s' < length s \<and> scan_items n s' = Inl OutOfFuel)"
proof -
  have "length (skip_ws (drop 1 (skip_ws r))) < length s" if "scan_value n s = Inr (v, r)" for v r
    using scan_value_shorter [OF that] length_drop_skip(2) [of 1 r] by simp
  then show ?thesis using assms by (fastforce simp: result_simps Let_def split: if_splits)
qed

lemma scan_members_fuelE:
  assumes "scan_members (Suc n) s = Inl OutOfFuel"
  shows "\<exists>s'. length s' < length s \<and> (scan_value n s' = Inl OutOfFuel \<or> scan_members n s' = Inl OutOfFuel)"
proof -
  have key: "length (skip_ws (drop 1 (skip_ws r))) < length s" if "scan_string (Suc (length s)) (drop 1 s) = Inr (k, r)" for k r
    using scan_string_shorter [OF that] length_drop_skip(2) [of 1 r] by simp
  moreover have "length (skip_ws (drop 1 (skip_ws r))) < length t" if "scan_value n t = Inr (v, r)" for v r t
    using scan_value_shorter [OF that] length_drop_skip(2) [of 1 r] by simp
  moreover have "scan_string (Suc (length s)) (drop 1 s) \<noteq> Inl OutOfFuel" by (rule scan_string_fuel) simp
  moreover from assms calculation(3) obtain k r where r: "scan_string (Suc (length s)) (drop 1 s) = Inr (k, r)"
    and v: "scan_value n (skip_ws (drop 1 (skip_ws r))) = Inl OutOfFuel \<or>
      (\<exists>v r2. scan_value n (skip_ws (drop 1 (skip_ws r))) = Inr (v, r2) \<and>
        scan_members n (skip_ws (drop 1 (skip_ws r2))) = Inl OutOfFuel)"
    by (auto simp: result_simps Let_def simp del: scan_string.simps split: if_splits)
  ultimately show ?thesis by (meson less_trans)
qed

text \<open>Two units per octet and one more: the scanner never runs out.\<close>

lemma scan_fuel_all:
  "(\<forall>s. 2 * length s < n \<longrightarrow> scan_value n s \<noteq> Inl OutOfFuel) \<and>
   (\<forall>s. 2 * length s + 1 < n \<longrightarrow> scan_items n s \<noteq> Inl OutOfFuel) \<and>
   (\<forall>s. 2 * length s < n \<longrightarrow> scan_members n s \<noteq> Inl OutOfFuel)"
proof (induction n)
  case (Suc n)
  have "scan_value (Suc n) s \<noteq> Inl OutOfFuel" if "2 * length s < Suc n" for s
  proof
    assume "scan_value (Suc n) s = Inl OutOfFuel"
    from scan_value_fuelE [OF this] obtain s' where "length s' < length s"
      "scan_items n s' = Inl OutOfFuel \<or> scan_members n s' = Inl OutOfFuel" by blast
    with that Suc show False by auto
  qed
  moreover have "scan_items (Suc n) s \<noteq> Inl OutOfFuel" if "2 * length s + 1 < Suc n" for s
  proof
    assume "scan_items (Suc n) s = Inl OutOfFuel"
    from scan_items_fuelE [OF this] that Suc show False by auto
  qed
  moreover have "scan_members (Suc n) s \<noteq> Inl OutOfFuel" if "2 * length s < Suc n" for s
  proof
    assume "scan_members (Suc n) s = Inl OutOfFuel"
    from scan_members_fuelE [OF this] that Suc show False by auto
  qed
  ultimately show ?case by blast
qed simp

lemma scan_value_fuel: "2 * length s < n \<Longrightarrow> scan_value n s \<noteq> Inl OutOfFuel"
  using scan_fuel_all [of n] by blast

lemma decode_document_fuel: "decode_document required raw max_bytes \<noteq> Inl OutOfFuel"
proof -
  have depth: "depth_scan cs d a b \<noteq> Inl OutOfFuel" for cs d a b
    by (induction cs d a b rule: depth_scan.induct) auto
  show ?thesis
    using scan_value_fuel [of "skip_ws raw" "2 * length (skip_ws raw) + 1"] depth [of raw 0 False False]
    unfolding decode_document_def
    by (auto simp: result_simps Let_def validate_json_depth_def simp del: utf8_ok.simps unicode_ok.simps scan_value.simps depth_scan.simps
        split: json.splits list.splits if_splits)
qed

section \<open>The order of members\<close>

text \<open>Encoding sorts the members of every object, so it does not see the order in which they are stored.\<close>

lemma sort_key_map_fst: "sort_key fst (map (\<lambda>kv. (fst kv, f (snd kv))) xs) = map (\<lambda>kv. (fst kv, f (snd kv))) (sort_key fst xs)"
  for f :: "'a \<Rightarrow> 'b" and xs :: "('k::linorder \<times> 'a) list"
proof -
  have "insort_key fst (fst x, f (snd x)) (map (\<lambda>kv. (fst kv, f (snd kv))) ys) = map (\<lambda>kv. (fst kv, f (snd kv))) (insort_key fst x ys)"
    for x :: "'k \<times> 'a" and ys by (induction ys) simp_all
  then show ?thesis by (induction xs) simp_all
qed

lemma sort_key_idem: "sort_key f (sort_key f xs) = sort_key f xs"
  by (rule sort_key_id_if_sorted) simp

lemma encode_norm: "encode (json_norm v) d = encode v d"
proof (induction v d rule: encode.induct)
  case (6 vs d)
  then show ?case by (auto simp: comp_def cong: map_cong)
next
  case (7 kvs d)
  show ?case
  proof (cases "Suc d > MAX_JSON_NESTING_DEPTH")
    case False
    let ?e = "\<lambda>v. encode v (Suc d)"
    have "sort_key fst (map (\<lambda>kv. (fst kv, ?e (snd kv))) (sort_key fst (map (\<lambda>kv. (fst kv, json_norm (snd kv))) kvs))) =
        map (\<lambda>kv. (fst kv, ?e (snd kv))) (map (\<lambda>kv. (fst kv, json_norm (snd kv))) (sort_key fst kvs))"
      unfolding sort_key_map_fst [of ?e] sort_key_idem sort_key_map_fst [of json_norm] ..
    also have "\<dots> = map (\<lambda>kv. (fst kv, ?e (snd kv))) (sort_key fst kvs)" using 7 [OF False] by simp
    also have "\<dots> = sort_key fst (map (\<lambda>kv. (fst kv, ?e (snd kv))) kvs)" unfolding sort_key_map_fst [of ?e] ..
    finally show ?thesis using False by (simp only: json_norm.simps encode.simps if_False)
  qed simp
qed simp_all

lemma canonical_json_norm: "canonical_json (json_norm v) = canonical_json v"
  by (simp add: canonical_json_def encode_norm)

section \<open>Properties\<close>

text \<open>
  C26. A document that \<open>canonical_json\<close> emits decodes under \<open>decode_strict\<close> to exactly the encoded
  members, in key order: the size, UTF-8, depth, duplicate-key, surrogate, required-member and
  top-level-null checks all pass on it.
\<close>

theorem canonical_json_decode_roundtrip:
  assumes "canonical_json (JObj kvs) = Inr raw" and "json_wf (JObj kvs)"
    and "set required \<subseteq> fst ` set kvs" and "\<forall>kv\<in>set kvs. snd kv \<noteq> JNull"
    and "int (length raw) \<le> max_bytes"
  shows "decode_document required raw max_bytes = Inr (map (\<lambda>kv. (fst kv, json_norm (snd kv))) (sort_key fst kvs))"
  using assms by (rule decode_document_canonical)

theorem canonical_json_decode_roundtrip_witness:
  \<open>decode_document [''b''] ''{"a":[1,-2],"b":"x"}'' 64 = Inr [(''a'', JArr [JInt 1, JInt (-2)]), (''b'', JStr ''x'')]\<close>
proof -
  have h: \<open>canonical_json (JObj [(''b'', JStr ''x''), (''a'', JArr [JInt 1, JInt (-2)])]) = Inr ''{"a":[1,-2],"b":"x"}''\<close>
    by code_simp
  have n: "map (\<lambda>kv. (fst kv, json_norm (snd kv))) (sort_key fst [(''b'', JStr ''x''), (''a'', JArr [JInt 1, JInt (-2)])])
    = [(''a'', JArr [JInt 1, JInt (-2)]), (''b'', JStr ''x'')]"
    by code_simp
  show ?thesis
    using canonical_json_decode_roundtrip [OF h, of "[''b'']" 64] unfolding n by simp
qed

text \<open>
  C27. Canonical bytes identify a value: of two values with distinct keys, the second is encoded to the
  bytes of the first exactly when the two are equal up to the order of object members, at every depth.
  A digest of canonical bytes therefore identifies the value, and no stored order shows in it.
\<close>

theorem canonical_json_injective:
  assumes "canonical_json v = Inr raw" and "json_wf v" and "json_wf w"
  shows "canonical_json w = Inr raw \<longleftrightarrow> json_norm v = json_norm w"
proof
  assume "canonical_json w = Inr raw"
  from canonical_document_scans(1) [OF assms(1,2)] canonical_document_scans(1) [OF this assms(3)] show "json_norm v = json_norm w"
    by (simp del: scan_value.simps)
next
  assume "json_norm v = json_norm w"
  then have "canonical_json (json_norm v) = canonical_json (json_norm w)" by simp
  with assms(1) show "canonical_json w = Inr raw" by (simp add: canonical_json_norm)
qed

theorem canonical_json_injective_witness:
  \<open>canonical_json (JObj [(''a'', JInt 1), (''b'', JArr [JObj [(''c'', JInt 2), (''d'', JNull)]])]) = Inr ''{"a":1,"b":[{"c":2,"d":null}]}'' \<and>
   canonical_json (JObj [(''b'', JArr [JObj [(''d'', JNull), (''c'', JInt 2)]]), (''a'', JInt 1)]) = Inr ''{"a":1,"b":[{"c":2,"d":null}]}''\<close>
proof -
  let ?v = "JObj [(''a'', JInt 1), (''b'', JArr [JObj [(''c'', JInt 2), (''d'', JNull)]])]"
  let ?w = "JObj [(''b'', JArr [JObj [(''d'', JNull), (''c'', JInt 2)]]), (''a'', JInt 1)]"
  have v: \<open>canonical_json ?v = Inr ''{"a":1,"b":[{"c":2,"d":null}]}''\<close> by code_simp
  have "json_wf ?v" "json_wf ?w" "json_norm ?v = json_norm ?w" by code_simp+
  with v canonical_json_injective [OF v, of ?w] show ?thesis by simp
qed

end
