(* ===== verification/Identifiers.thy ===== *)
theory Identifiers
  imports StrictJson
begin

text \<open>
  The identifiers, content hashes and signed messages of \<open>core/agmind_immune/canonicaljson.py\<close>.
  The digest is the argument \<open>H\<close>; \<open>Ed25519PublicKey.verify\<close> is the argument \<open>verify\<close> (public
  key, signature, message). Shown here: identifiers of one kind separate their inputs, derivations
  of different kinds never hash the same octets, and what the verification routines accept.
\<close>

section \<open>Definitions\<close>

datatype ident_error =
    IdentValue str
  | IdentType str
  | IdentCanonical json_error
  | InvalidSignature

abbreviation nul :: char where "nul \<equiv> CHR 0x00"

text \<open>The digest the examples are evaluated with.\<close>

abbreviation zero_digest :: "bytes \<Rightarrow> bytes" where "zero_digest \<equiv> (\<lambda>_. replicate 32 nul)"

subsection \<open>Standard library pieces\<close>

text \<open>\<open>n.to_bytes(8, "big", signed=False)\<close>\<close>

definition to_bytes8 :: "int \<Rightarrow> bytes option" where
  "to_bytes8 n =
    (if 0 \<le> n \<and> n < 2 ^ 64 then Some (map (\<lambda>k. char_of (n div 2 ^ k)) [56, 48, 40, 32, 24, 16, 8, 0]) else None)"

text \<open>
  \<open>bytes.fromhex\<close>: pairs of hexadecimal digits of either case, with ASCII white space skipped
  before each pair and at the end.
\<close>

definition is_ascii_space :: "char \<Rightarrow> bool" where
  "is_ascii_space c \<longleftrightarrow> (of_char c :: nat) = 32 \<or> 9 \<le> (of_char c :: nat) \<and> (of_char c :: nat) \<le> 13"

fun fromhex :: "str \<Rightarrow> bytes option" where
  "fromhex [] = Some []"
| "fromhex [c] = (if is_ascii_space c then Some [] else None)"
| "fromhex (c # d # s) =
    (if is_ascii_space c then fromhex (d # s)
     else case (hex_val c, hex_val d) of
       (Some x, Some y) \<Rightarrow> map_option ((#) (char_of (16 * x + y))) (fromhex s)
     | _ \<Rightarrow> None)"

text \<open>\<open>value.encode("ascii")\<close>\<close>

definition ascii :: "str \<Rightarrow> str \<Rightarrow> ident_error + bytes" where
  "ascii value field =
    (if list_all (\<lambda>c. (of_char c :: nat) < 128) value then Inr value else Inl (IdentValue (field @ '' must be ASCII'')))"

definition hexdigest :: "(bytes \<Rightarrow> bytes) \<Rightarrow> bytes \<Rightarrow> str" where
  "hexdigest H m = hexlify (H m)"

text \<open>Documents: \<open>document.pop(key, None)\<close> and \<open>document.get(key)\<close> on the object's members.\<close>

type_synonym document = "(str \<times> json) list"

definition doc_pop :: "str \<Rightarrow> document \<Rightarrow> document" where
  "doc_pop key doc = filter (\<lambda>kv. fst kv \<noteq> key) doc"

definition doc_get :: "document \<Rightarrow> str \<Rightarrow> json" where
  "doc_get doc key = (case map_of doc key of None \<Rightarrow> JNull | Some v \<Rightarrow> v)"

definition canonical :: "json \<Rightarrow> ident_error + bytes" where
  "canonical v = map_err IdentCanonical (canonical_json v)"

subsection \<open>Identifiers\<close>

definition pcc_detector_bundle_sha256 :: "(bytes \<Rightarrow> bytes) \<Rightarrow> bytes \<Rightarrow> ident_error + str" where
  "pcc_detector_bundle_sha256 H rule_file_bytes =
    (case map to_bytes8 (map (\<lambda>v. int (length v)) [rule_file_bytes, ''agmind.falco-connect.v1'', ''0.44.1'']) of
       [Some a, Some b, Some c] \<Rightarrow>
         Inr (hexdigest H (''AGMIND_DETECTOR_BUNDLE_V1'' @ [nul] @ a @ rule_file_bytes @
           b @ ''agmind.falco-connect.v1'' @ c @ ''0.44.1''))
     | _ \<Rightarrow> Inl (IdentValue ''overflow''))"

definition key_id :: "(bytes \<Rightarrow> bytes) \<Rightarrow> bytes \<Rightarrow> ident_error + str" where
  "key_id H public_key =
    (if length public_key \<noteq> 32 then Inl (IdentValue ''Ed25519 public key must contain 32 bytes'')
     else Inr (take 32 (hexdigest H public_key)))"

definition event_id :: "(bytes \<Rightarrow> bytes) \<Rightarrow> str \<Rightarrow> str \<Rightarrow> int \<Rightarrow> int \<Rightarrow> str \<Rightarrow> ident_error + str" where
  "event_id H host_id boot_id key_epoch source_sequence normalized_fields_sha256 =
    (case fromhex normalized_fields_sha256 of
       None \<Rightarrow> Inl (IdentValue ''invalid normalized_fields_sha256'')
     | Some normalized_digest \<Rightarrow>
         if length normalized_digest \<noteq> 32 then Inl (IdentValue ''normalized_fields_sha256 must contain 32 bytes'')
         else case (to_bytes8 key_epoch, to_bytes8 source_sequence) of
           (Some a, Some b) \<Rightarrow>
             rbind (ascii host_id ''host_id'') (\<lambda>host.
             rbind (ascii boot_id ''boot_id'') (\<lambda>boot.
               Inr (''evt_'' @ hexdigest H (''AGMIND_EVENT_ID_V1'' @ [nul] @ host @ [nul] @ boot @ [nul] @
                 a @ b @ normalized_digest))))
         | _ \<Rightarrow> Inl (IdentValue ''event counters must be uint64''))"

definition release_id :: "(bytes \<Rightarrow> bytes) \<Rightarrow> str \<Rightarrow> str \<Rightarrow> ident_error + str" where
  "release_id H image_id immutable_spec_sha256 =
    rbind (ascii image_id ''image_id'') (\<lambda>a.
    rbind (ascii immutable_spec_sha256 ''immutable_spec_sha256'') (\<lambda>b.
      Inr (''rel_'' @ take 32 (hexdigest H (''AGMIND_RELEASE_ID_V1'' @ [nul] @ a @ [nul] @ b)))))"

definition incident_id :: "(bytes \<Rightarrow> bytes) \<Rightarrow> str \<Rightarrow> ident_error + str" where
  "incident_id H primary_event_id =
    rbind (ascii primary_event_id ''primary_event_id'') (\<lambda>a.
      Inr (''inc_'' @ hexdigest H (''AGMIND_INCIDENT_ID_V1'' @ [nul] @ a)))"

definition candidate_preimage :: "str list \<Rightarrow> bytes" where
  "candidate_preimage fields = ''AGMIND_CANDIDATE_ID_V1'' @ [nul] @ join [nul] fields"

definition candidate_id :: "(bytes \<Rightarrow> bytes) \<Rightarrow> str \<Rightarrow> str \<Rightarrow> str \<Rightarrow> str \<Rightarrow> str \<Rightarrow> ident_error + str" where
  "candidate_id H event_id_value docker_container_id docker_started_at destination_ipv4 detector_bundle_sha256 =
    rbind (rseq (map (\<lambda>v. ascii v ''candidate field'')
        [event_id_value, docker_container_id, docker_started_at, destination_ipv4, detector_bundle_sha256])) (\<lambda>fields.
      Inr (''cand_'' @ hexdigest H (candidate_preimage fields)))"

definition candidate_facts_sha256 :: "(bytes \<Rightarrow> bytes) \<Rightarrow> document \<Rightarrow> ident_error + str" where
  "candidate_facts_sha256 H candidate =
    rbind (canonical (JObj candidate)) (\<lambda>raw. Inr (hexdigest H (''AGMIND_CANDIDATE_FACTS_V1'' @ [nul] @ raw)))"

definition intent_preimage :: "bytes \<Rightarrow> bytes \<Rightarrow> int \<Rightarrow> bytes" where
  "intent_preimage candidate policy ttl =
    ''AGMIND_INTENT_ID_V1'' @ [nul] @ candidate @ [nul] @ policy @ [nul] @ int_to_dec ttl"

definition intent_id :: "(bytes \<Rightarrow> bytes) \<Rightarrow> str \<Rightarrow> str \<Rightarrow> int \<Rightarrow> ident_error + str" where
  "intent_id H candidate_id_value policy_bundle_sha256 ttl_seconds =
    (if \<not> (0 \<le> ttl_seconds \<and> ttl_seconds \<le> 2 ^ 64 - 1) then Inl (IdentValue ''ttl_seconds must be uint64'')
     else
       rbind (ascii candidate_id_value ''candidate_id'') (\<lambda>a.
       rbind (ascii policy_bundle_sha256 ''policy_bundle_sha256'') (\<lambda>b.
         Inr (''int_'' @ take 32 (hexdigest H (intent_preimage a b ttl_seconds))))))"

definition plan_id :: "(bytes \<Rightarrow> bytes) \<Rightarrow> str \<Rightarrow> bytes \<Rightarrow> ident_error + str" where
  "plan_id H intent_id_value nonce =
    (if length nonce \<noteq> 32 then Inl (IdentValue ''nonce must contain exactly 32 bytes'')
     else rbind (ascii intent_id_value ''intent_id'') (\<lambda>a.
       Inr (''plan_'' @ take 32 (hexdigest H (''AGMIND_PLAN_ID_V1'' @ [nul] @ a @ [nul] @ nonce)))))"

definition plan_hash :: "(bytes \<Rightarrow> bytes) \<Rightarrow> document \<Rightarrow> ident_error + str" where
  "plan_hash H plan =
    rbind (canonical (JObj (doc_pop ''plan_hash'' plan))) (\<lambda>raw.
      Inr (hexdigest H (''AGMIND_PLAN_HASH_V1'' @ [nul] @ raw)))"

definition action_id :: "(bytes \<Rightarrow> bytes) \<Rightarrow> str \<Rightarrow> ident_error + str" where
  "action_id H plan_hash_value =
    (case fromhex plan_hash_value of
       None \<Rightarrow> Inl (IdentValue ''invalid plan_hash'')
     | Some d \<Rightarrow>
         if length d \<noteq> 32 then Inl (IdentValue ''plan_hash must contain 32 bytes'')
         else Inr (''act_'' @ take 32 (hexdigest H (''AGMIND_ACTION_ID_V1'' @ [nul] @ d))))"

definition action_record_content :: "document \<Rightarrow> document" where
  "action_record_content record = doc_pop ''actuator_signature'' (doc_pop ''record_sha256'' (doc_pop ''record_id'' record))"

definition action_record_preimage :: "document \<Rightarrow> ident_error + bytes" where
  "action_record_preimage record =
    rbind (canonical (JObj (action_record_content record))) (\<lambda>raw. Inr (''AGMIND_ACTION_RECORD_HASH_V1'' @ [nul] @ raw))"

definition action_record_hash :: "(bytes \<Rightarrow> bytes) \<Rightarrow> document \<Rightarrow> ident_error + str" where
  "action_record_hash H record = rbind (action_record_preimage record) (\<lambda>m. Inr (hexdigest H m))"

definition action_record_id :: "str \<Rightarrow> ident_error + str" where
  "action_record_id record_sha256 =
    (if length record_sha256 \<noteq> 64 \<or> \<not> list_all is_lower_hex record_sha256
     then Inl (IdentValue ''record_sha256 must be exactly 64 lowercase hex characters'')
     else Inr (''ar_'' @ take 32 record_sha256))"

subsection \<open>Signed messages\<close>

definition event_signing_message :: "document \<Rightarrow> ident_error + bytes" where
  "event_signing_message envelope =
    rbind (canonical (JObj (doc_pop ''source_signature'' envelope))) (\<lambda>raw.
      Inr (''AGMIND_EVENT_ENVELOPE_V1'' @ [nul] @ raw))"

definition action_record_signing_message :: "document \<Rightarrow> ident_error + bytes" where
  "action_record_signing_message record =
    rbind (canonical (JObj (doc_pop ''actuator_signature'' record))) (\<lambda>raw.
      Inr (''AGMIND_ACTION_RECORD_V1'' @ [nul] @ raw))"

definition key_transition_signing_message :: "document \<Rightarrow> ident_error + bytes" where
  "key_transition_signing_message transition =
    rbind (canonical (JObj (doc_pop ''new_signature'' (doc_pop ''old_signature'' transition)))) (\<lambda>raw.
      Inr (''AGMIND_KEY_TRANSITION_V1'' @ [nul] @ raw))"

text \<open>
  The hexadecimal text member a verification routine needs: a \<open>TypeError\<close> when it is not a
  string, a \<open>ValueError\<close> when it is not hexadecimal.
\<close>

definition hex_member :: "document \<Rightarrow> str \<Rightarrow> str \<Rightarrow> ident_error + bytes" where
  "hex_member doc key message =
    (case doc_get doc key of
       JStr s \<Rightarrow> (case fromhex s of None \<Rightarrow> Inl (IdentValue message) | Some b \<Rightarrow> Inr b)
     | _ \<Rightarrow> Inl (IdentType message))"

definition verify_signature :: "(bytes \<Rightarrow> bytes \<Rightarrow> bytes \<Rightarrow> bool) \<Rightarrow> bytes \<Rightarrow> bytes \<Rightarrow> bytes \<Rightarrow> ident_error + unit" where
  "verify_signature verify public_key signature message =
    (if verify public_key signature message then Inr () else Inl InvalidSignature)"

definition verify_event_signature ::
    "(bytes \<Rightarrow> bytes) \<Rightarrow> (bytes \<Rightarrow> bytes \<Rightarrow> bytes \<Rightarrow> bool) \<Rightarrow> document \<Rightarrow> bytes \<Rightarrow> ident_error + unit" where
  "verify_event_signature H verify document public_key =
    rbind (key_id H public_key) (\<lambda>kid.
      if doc_get document ''key_id'' \<noteq> JStr kid then Inl (IdentValue ''event key_id does not bind the supplied public key'')
      else rbind (hex_member document ''source_signature'' ''invalid event signature'') (\<lambda>signature.
        rbind (event_signing_message document) (\<lambda>message.
          verify_signature verify public_key signature message)))"

definition verify_action_record ::
    "(bytes \<Rightarrow> bytes) \<Rightarrow> (bytes \<Rightarrow> bytes \<Rightarrow> bytes \<Rightarrow> bool) \<Rightarrow> document \<Rightarrow> bytes \<Rightarrow> ident_error + unit" where
  "verify_action_record H verify document public_key =
    rbind (key_id H public_key) (\<lambda>kid.
      if doc_get document ''actuator_key_id'' \<noteq> JStr kid then Inl (IdentValue ''actuator_key_id does not bind the supplied public key'')
      else rbind (action_record_hash H document) (\<lambda>expected_hash.
        if doc_get document ''record_sha256'' \<noteq> JStr expected_hash then Inl (IdentValue ''record_sha256 does not match record content'')
        else rbind (action_record_id expected_hash) (\<lambda>expected_id.
          if doc_get document ''record_id'' \<noteq> JStr expected_id then Inl (IdentValue ''record_id does not match record_sha256'')
          else rbind (hex_member document ''actuator_signature'' ''invalid actuator signature'') (\<lambda>signature.
            rbind (action_record_signing_message document) (\<lambda>message.
              verify_signature verify public_key signature message)))))"

definition verify_key_transition ::
    "(bytes \<Rightarrow> bytes) \<Rightarrow> (bytes \<Rightarrow> bytes \<Rightarrow> bytes \<Rightarrow> bool) \<Rightarrow> document \<Rightarrow> bytes \<Rightarrow> ident_error + unit" where
  "verify_key_transition H verify document old_public_key =
    rbind (key_id H old_public_key) (\<lambda>old_kid.
      if doc_get document ''old_key_id'' \<noteq> JStr old_kid then Inl (IdentValue ''old_key_id does not bind the supplied public key'')
      else rbind (hex_member document ''new_public_key'' ''invalid new_public_key'') (\<lambda>new_public_key.
        rbind (key_id H new_public_key) (\<lambda>new_kid.
          if doc_get document ''new_key_id'' \<noteq> JStr new_kid then Inl (IdentValue ''new_key_id does not bind new_public_key'')
          else case (doc_get document ''old_signature'', doc_get document ''new_signature'') of
            (JStr old_text, JStr new_text) \<Rightarrow>
              (case (fromhex old_text, fromhex new_text) of
                 (Some old_signature, Some new_signature) \<Rightarrow>
                   rbind (key_transition_signing_message document) (\<lambda>message.
                     rbind (verify_signature verify old_public_key old_signature message) (\<lambda>_.
                       verify_signature verify new_public_key new_signature message))
               | _ \<Rightarrow> Inl (IdentValue ''invalid transition signature''))
          | _ \<Rightarrow> Inl (IdentType ''transition requires both signatures''))))"

section \<open>Octet lemmas\<close>

lemma split_at_nul:
  assumes "a @ nul # x = b @ nul # y" and "nul \<notin> set a" and "nul \<notin> set b"
  shows "a = b \<and> x = y"
  using assms
proof (induction a arbitrary: b)
  case Nil
  then show ?case by (cases b) auto
next
  case (Cons c a)
  then show ?case by (cases b) auto
qed

lemma join_nul_inject:
  assumes "length xs = length ys" and "join [nul] xs = join [nul] ys"
    and "\<forall>s\<in>set xs. nul \<notin> set s" and "\<forall>s\<in>set ys. nul \<notin> set s"
  shows "xs = ys"
  using assms
proof (induction xs ys rule: list_induct2)
  case (Cons x xs y ys)
  show ?case
  proof (cases "xs = []")
    case True
    with Cons show ?thesis by (simp add: join_Cons)
  next
    case False
    then have "ys \<noteq> []" using Cons.hyps by auto
    with False Cons.prems(1) have "x @ nul # join [nul] xs = y @ nul # join [nul] ys" by (simp add: join_Cons)
    from split_at_nul [OF this] Cons show ?thesis by simp
  qed
qed simp

lemma to_bytes8_Some: "to_bytes8 n = Some b \<Longrightarrow> length b = 8 \<and> 0 \<le> n \<and> n < 2 ^ 64"
  by (auto simp: to_bytes8_def split: if_splits)

definition from_bytes :: "bytes \<Rightarrow> int" where
  "from_bytes b = foldl (\<lambda>a c. 256 * a + of_char c) 0 b"

lemma from_bytes_digits:
  "0 \<le> n \<Longrightarrow> foldl (\<lambda>a c. 256 * a + of_char c) (n div 256 ^ k) (map (\<lambda>i. char_of (n div 256 ^ i)) (rev [0..<k])) = (n :: int)"
proof (induction k)
  case (Suc k)
  have "256 * (n div 256 ^ Suc k) + n div 256 ^ k mod 256 = n div 256 ^ k"
    using zdiv_zmult2_eq [of 256 n "256 ^ k"] by (simp add: mult.commute)
  with Suc show ?case by simp
qed simp

lemma to_bytes8_from_bytes: "to_bytes8 n = Some b \<Longrightarrow> from_bytes b = n"
proof -
  assume b: "to_bytes8 n = Some b"
  then have n: "0 \<le> n" "n < 2 ^ 64" using to_bytes8_Some by blast+
  then have z: "n div 256 ^ 8 = 0" by simp
  have "b = map (\<lambda>i. char_of (n div 256 ^ i)) (rev [0..<8])"
    using b n by (simp add: to_bytes8_def upt_rec)
  with from_bytes_digits [OF n(1), of 8] z show ?thesis by (simp add: from_bytes_def)
qed

lemma to_bytes8_inject: "to_bytes8 m = Some b \<Longrightarrow> to_bytes8 n = Some b \<Longrightarrow> m = n"
  using to_bytes8_from_bytes by blast

lemma ascii_Inr: "ascii s f = Inr b \<longleftrightarrow> list_all (\<lambda>c. (of_char c :: nat) < 128) s \<and> b = s"
  by (auto simp: ascii_def)

lemma hexdigest_inject: "hexdigest H m = hexdigest H m' \<longleftrightarrow> H m = H m'"
  by (simp add: hexdigest_def hexlify_inject)

lemma canonical_Inr: "canonical v = Inr raw \<longleftrightarrow> canonical_json v = Inr raw"
  by (simp add: canonical_def result_simps)

lemma candidate_id_Inr:
  "candidate_id H a b c d e = Inr i \<longleftrightarrow>
    (\<forall>s\<in>set [a, b, c, d, e]. list_all (\<lambda>c. (of_char c :: nat) < 128) s) \<and>
    i = ''cand_'' @ hexdigest H (candidate_preimage [a, b, c, d, e])"
  by (auto simp: candidate_id_def result_simps ascii_Inr)

lemma candidate_preimage_inject:
  assumes "candidate_preimage xs = candidate_preimage ys" and "length xs = length ys"
    and "\<forall>s\<in>set xs. nul \<notin> set s" and "\<forall>s\<in>set ys. nul \<notin> set s"
  shows "xs = ys"
  using assms by (intro join_nul_inject) (simp_all add: candidate_preimage_def)

lemma length_take_hexdigest: "take 32 (hexdigest H m) = take 32 (hexdigest H m') \<longleftrightarrow> take 16 (H m) = take 16 (H m')"
proof -
  have "take (2 * k) (hexlify b) = hexlify (take k b)" for k and b
  proof (induction k arbitrary: b)
    case (Suc k)
    then show ?case by (cases b) (simp_all add: hexlify_Cons)
  qed simp
  from this [of 16] show ?thesis by (simp add: hexdigest_def hexlify_inject)
qed

lemma json_wf_doc_pop: "json_wf (JObj d) \<Longrightarrow> json_wf (JObj (doc_pop k d))"
  by (auto simp: doc_pop_def list_all_iff distinct_map_filter)

lemma canonical_norm:
  assumes "canonical v = Inr raw" and "canonical w = Inr raw" and "json_wf v" and "json_wf w"
  shows "json_norm v = json_norm w"
  using canonical_document_scans(1) [of v raw] canonical_document_scans(1) [of w raw] assms
  by (simp add: canonical_Inr del: scan_value.simps)

lemma verify_action_record_Inr:
  "verify_action_record H verify r pk = Inr () \<longleftrightarrow>
    (\<exists>kid h i sig m. key_id H pk = Inr kid \<and> doc_get r ''actuator_key_id'' = JStr kid \<and>
      action_record_hash H r = Inr h \<and> doc_get r ''record_sha256'' = JStr h \<and>
      action_record_id h = Inr i \<and> doc_get r ''record_id'' = JStr i \<and>
      hex_member r ''actuator_signature'' ''invalid actuator signature'' = Inr sig \<and>
      action_record_signing_message r = Inr m \<and> verify pk sig m)"
  unfolding verify_action_record_def verify_signature_def
  by (simp add: result_simps) blast

text \<open>
  Candidate identifiers separate candidates whose fields have no NUL octet: the same identifier means the
  same fields, or two different preimages with one digest. The fields are joined by NUL and \<open>_ascii\<close> lets
  NUL pass, so for arbitrary texts the derivation alone does not separate: the validators of a candidate
  are what rules this out.
\<close>

lemma candidate_id_separates:
  assumes "candidate_id H a b c d e = Inr i" and "candidate_id H a' b' c' d' e' = Inr i"
    and "\<forall>s\<in>set [a, b, c, d, e, a', b', c', d', e']. nul \<notin> set s"
  shows "(a, b, c, d, e) = (a', b', c', d', e') \<or>
    (candidate_preimage [a, b, c, d, e] \<noteq> candidate_preimage [a', b', c', d', e'] \<and>
     H (candidate_preimage [a, b, c, d, e]) = H (candidate_preimage [a', b', c', d', e']))"
proof (cases "candidate_preimage [a, b, c, d, e] = candidate_preimage [a', b', c', d', e']")
  case True
  then have "[a, b, c, d, e] = [a', b', c', d', e']"
    using assms(3) by (intro candidate_preimage_inject) simp_all
  then show ?thesis by simp
next
  case False
  with assms show ?thesis by (simp add: candidate_id_Inr hexdigest_inject)
qed

lemma candidate_id_joins_nul:
  "candidate_id H ''a'' (''b'' @ [nul] @ ''c'') ''t'' ''1.2.3.4'' ''d'' = candidate_id H (''a'' @ [nul] @ ''b'') ''c'' ''t'' ''1.2.3.4'' ''d'' \<and>
    is_ok (candidate_id H ''a'' (''b'' @ [nul] @ ''c'') ''t'' ''1.2.3.4'' ''d'')"
  by (simp add: candidate_id_def ascii_def candidate_preimage_def is_ok_def)

section \<open>Properties\<close>

text \<open>
  C29. A signature never carries over between kinds of signed objects: the message of an event
  envelope, of an action record and of a key transition are always different octets.
\<close>

theorem signed_messages_are_kind_separated:
  assumes "event_signing_message e = Inr m1" and "action_record_signing_message a = Inr m2"
    and "key_transition_signing_message k = Inr m3"
  shows "m1 \<noteq> m2 \<and> m1 \<noteq> m3 \<and> m2 \<noteq> m3"
  using assms
  by (auto simp: event_signing_message_def action_record_signing_message_def key_transition_signing_message_def result_simps)

theorem signed_messages_are_kind_separated_witness:
  "''AGMIND_EVENT_ENVELOPE_V1'' @ [nul] @ ''{}'' \<noteq> ''AGMIND_ACTION_RECORD_V1'' @ [nul] @ ''{}''"
proof -
  have c: "canonical (JObj []) = Inr ''{}''" by code_simp
  show ?thesis
    using signed_messages_are_kind_separated [of "[]" "''AGMIND_EVENT_ENVELOPE_V1'' @ [nul] @ ''{}''" "[]"
      "''AGMIND_ACTION_RECORD_V1'' @ [nul] @ ''{}''" "[]" "''AGMIND_KEY_TRANSITION_V1'' @ [nul] @ ''{}''"]
    by (simp add: event_signing_message_def action_record_signing_message_def key_transition_signing_message_def doc_pop_def c)
qed

text \<open>
  C30. The message an event is signed over fixes every member except the signature itself: two
  envelopes with the same signing message have the same members up to order and signature.
\<close>

theorem event_signing_message_binds:
  assumes "event_signing_message e = Inr m" and "event_signing_message e' = Inr m"
    and "json_wf (JObj e)" and "json_wf (JObj e')"
  shows "json_norm (JObj (doc_pop ''source_signature'' e)) = json_norm (JObj (doc_pop ''source_signature'' e'))"
proof -
  obtain raw where "canonical (JObj (doc_pop ''source_signature'' e)) = Inr raw" "canonical (JObj (doc_pop ''source_signature'' e')) = Inr raw"
    using assms(1,2) by (auto simp: event_signing_message_def result_simps)
  then show ?thesis using assms(3,4) by (intro canonical_norm json_wf_doc_pop)
qed

theorem event_signing_message_binds_witness:
  "json_norm (JObj (doc_pop ''source_signature'' [(''a'', JInt 1), (''source_signature'', JStr ''00'')])) =
   json_norm (JObj (doc_pop ''source_signature'' [(''source_signature'', JStr ''ff''), (''a'', JInt 1)]))"
  by (rule event_signing_message_binds [where m = \<open>''AGMIND_EVENT_ENVELOPE_V1'' @ [nul] @ ''{"a":1}''\<close>]; code_simp)

text \<open>
  C16. What \<open>verify_action_record\<close> accepts is bound to its content hash: the record's
  \<open>record_id\<close> is the prefix of its \<open>record_sha256\<close>, the signature verifies under the supplied
  key over the record's own message, and two accepted records with the same hash have the same
  content members up to order, unless their two preimages collide.
\<close>

theorem verified_action_record_is_bound:
  assumes "verify_action_record H verify r pk = Inr ()" and "verify_action_record H verify r' pk' = Inr ()"
    and "json_wf (JObj r)" and "json_wf (JObj r')"
    and "doc_get r ''record_sha256'' = doc_get r' ''record_sha256''"
  shows "(\<exists>h sig m. doc_get r ''record_sha256'' = JStr h \<and> doc_get r ''record_id'' = JStr (''ar_'' @ take 32 h) \<and>
      action_record_signing_message r = Inr m \<and> hex_member r ''actuator_signature'' ''invalid actuator signature'' = Inr sig \<and> verify pk sig m) \<and>
    (json_norm (JObj (action_record_content r)) = json_norm (JObj (action_record_content r')) \<or>
     (\<exists>x y. action_record_preimage r = Inr x \<and> action_record_preimage r' = Inr y \<and> x \<noteq> y \<and> H x = H y))"
proof -
  from assms(1) obtain h i sig m where r: "action_record_hash H r = Inr h" "doc_get r ''record_sha256'' = JStr h"
    "action_record_id h = Inr i" "doc_get r ''record_id'' = JStr i"
    "hex_member r ''actuator_signature'' ''invalid actuator signature'' = Inr sig"
    "action_record_signing_message r = Inr m" "verify pk sig m"
    unfolding verify_action_record_Inr by blast
  from assms(2,5) r(2) have r': "action_record_hash H r' = Inr h" unfolding verify_action_record_Inr by auto
  obtain x where x: "action_record_preimage r = Inr x" "h = hexdigest H x"
    using r(1) by (auto simp: action_record_hash_def result_simps)
  obtain y where y: "action_record_preimage r' = Inr y" "h = hexdigest H y"
    using r' by (auto simp: action_record_hash_def result_simps)
  have "H x = H y" using x(2) y(2) by (simp add: hexdigest_inject)
  moreover have "json_norm (JObj (action_record_content r)) = json_norm (JObj (action_record_content r'))" if "x = y"
  proof -
    have "action_record_preimage r = action_record_preimage r'" using x(1) y(1) that by simp
    then obtain raw where "canonical (JObj (action_record_content r)) = Inr raw" "canonical (JObj (action_record_content r')) = Inr raw"
      using x(1) by (cases "canonical (JObj (action_record_content r))"; cases "canonical (JObj (action_record_content r'))")
        (simp_all add: action_record_preimage_def)
    then show ?thesis using assms(3,4) unfolding action_record_content_def
      by (intro canonical_norm json_wf_doc_pop)
  qed
  moreover have "i = ''ar_'' @ take 32 h" using r(3) by (simp add: action_record_id_def split: if_splits)
  ultimately show ?thesis using r x(1) y(1) by blast
qed

theorem verified_action_record_is_bound_witness:
  "\<exists>sig m. action_record_signing_message
      [(''actuator_key_id'', JStr (replicate 32 CHR ''0'')), (''record_sha256'', JStr (replicate 64 CHR ''0'')),
       (''record_id'', JStr (''ar_'' @ replicate 32 CHR ''0'')), (''actuator_signature'', JStr ''0a'')] = Inr m"
proof -
  let ?r = "[(''actuator_key_id'', JStr (replicate 32 CHR ''0'')), (''record_sha256'', JStr (replicate 64 CHR ''0'')),
    (''record_id'', JStr (''ar_'' @ replicate 32 CHR ''0'')), (''actuator_signature'', JStr ''0a'')]"
  have "verify_action_record (\<lambda>_. replicate 32 nul) (\<lambda>_ s _. s = [CHR 0x0A]) ?r (replicate 32 CHR ''k'') = Inr ()"
    by code_simp
  moreover have "json_wf (JObj ?r)" by code_simp
  ultimately show ?thesis
    using verified_action_record_is_bound [of "\<lambda>_. replicate 32 nul" "\<lambda>_ s _. s = [CHR 0x0A]" ?r "replicate 32 CHR ''k''" ?r "replicate 32 CHR ''k''"]
    by blast
qed

section \<open>Evaluation\<close>

lemma ascii_code [code]:
  "ascii value f = (if list_all (\<lambda>c. \<not> digit7 c) value then Inr value else Inl (IdentValue (f @ '' must be ASCII'')))"
  unfolding ascii_def ascii_bits [symmetric] by simp

end
