(* ===== verification/CivilTime.thy ===== *)
theory CivilTime
  imports Prelude
begin

text \<open>
  Exact UTC time arithmetic: \<open>parse_rfc3339nano_utc_ns\<close> of \<open>correlation/primitives.py\<close> and
  \<open>_format_rfc3339nano_utc_ns\<close> of \<open>coverage/grammar.py\<close>, with the part of the standard library's
  \<open>datetime.date\<close> the latter uses. Shown here: the two are inverse on the whole range of years
  1 to 9999, and parsed instants stay in that range.
\<close>

section \<open>Definitions\<close>

datatype time_error = TimestampInvalid | TimestampRange

text \<open>\<open>s[i:i+k]\<close>\<close>

definition field :: "str \<Rightarrow> nat \<Rightarrow> nat \<Rightarrow> str" where
  "field s i k = take k (drop i s)"

definition is_digits :: "str \<Rightarrow> bool" where
  "is_digits s = list_all is_digit s"

text \<open>The groups of \<open>_TIMESTAMP.fullmatch\<close>: six numbers and the optional fraction.\<close>

record timestamp_match =
  tm_year :: str
  tm_month :: str
  tm_day :: str
  tm_hour :: str
  tm_minute :: str
  tm_second :: str
  tm_fraction :: "str option"

definition timestamp_fullmatch :: "str \<Rightarrow> timestamp_match option" where
  "timestamp_fullmatch s =
    (if is_digits (field s 0 4) \<and> field s 4 1 = ''-'' \<and> is_digits (field s 5 2) \<and> field s 7 1 = ''-'' \<and>
        is_digits (field s 8 2) \<and> field s 10 1 = ''T'' \<and> is_digits (field s 11 2) \<and> field s 13 1 = '':'' \<and>
        is_digits (field s 14 2) \<and> field s 16 1 = '':'' \<and> is_digits (field s 17 2)
     then
       let rest = drop 19 s;
           m = \<lparr>tm_year = field s 0 4, tm_month = field s 5 2, tm_day = field s 8 2, tm_hour = field s 11 2,
                tm_minute = field s 14 2, tm_second = field s 17 2, tm_fraction = None\<rparr>
       in
       if rest = ''Z'' then Some m
       else if take 1 rest = ''.'' \<and> length rest \<ge> 3 \<and> length rest \<le> 11 \<and> last rest = CHR ''Z'' \<and>
               is_digits (butlast (drop 1 rest))
       then Some (m\<lparr>tm_fraction := Some (butlast (drop 1 rest))\<rparr>)
       else None
     else None)"

definition is_leap_year :: "int \<Rightarrow> bool" where
  "is_leap_year year \<longleftrightarrow> year mod 4 = 0 \<and> (year mod 100 \<noteq> 0 \<or> year mod 400 = 0)"

definition days_from_civil :: "int \<Rightarrow> int \<Rightarrow> int \<Rightarrow> int" where
  "days_from_civil year month day =
    (let adjusted_year = year - (if month \<le> 2 then 1 else 0);
         era = adjusted_year div 400;
         year_of_era = adjusted_year - era * 400;
         shifted_month = month + (if month > 2 then -3 else 9);
         day_of_year = (153 * shifted_month + 2) div 5 + day - 1;
         day_of_era = year_of_era * 365 + year_of_era div 4 - year_of_era div 100 + day_of_year
     in era * 146097 + day_of_era - 719468)"

definition month_lengths :: "int \<Rightarrow> int list" where
  "month_lengths year = [31, if is_leap_year year then 29 else 28, 31, 30, 31, 30, 31, 31, 30, 31, 30, 31]"

text \<open>\<open>int(text)\<close> of a digit string\<close>

definition int_of_dec :: "str \<Rightarrow> int" where
  "int_of_dec s = foldl (\<lambda>n c. 10 * n + int (digit_val c)) 0 s"

text \<open>\<open>fraction.ljust(9, "0")\<close>\<close>

definition ljust9 :: "str \<Rightarrow> str" where
  "ljust9 s = s @ replicate (9 - length s) (CHR ''0'')"

definition parse_rfc3339nano_utc_ns :: "str \<Rightarrow> time_error + int" where
  "parse_rfc3339nano_utc_ns value =
    (case timestamp_fullmatch value of
       None \<Rightarrow> Inl TimestampInvalid
     | Some m \<Rightarrow>
         let year = int_of_dec (tm_year m); month = int_of_dec (tm_month m); day = int_of_dec (tm_day m);
             hour = int_of_dec (tm_hour m); minute = int_of_dec (tm_minute m); second = int_of_dec (tm_second m)
         in
         if \<not> (1 \<le> year \<and> year \<le> 9999) \<or> \<not> (1 \<le> month \<and> month \<le> 12) then Inl TimestampInvalid
         else if \<not> (1 \<le> day \<and> day \<le> month_lengths year ! nat (month - 1)) \<or> \<not> (0 \<le> hour \<and> hour \<le> 23) \<or>
                 \<not> (0 \<le> minute \<and> minute \<le> 59) \<or> \<not> (0 \<le> second \<and> second \<le> 59)
         then Inl TimestampInvalid
         else
           let nanosecond = (case tm_fraction m of None \<Rightarrow> 0 | Some f \<Rightarrow> int_of_dec (ljust9 f));
               days = days_from_civil year month day;
               seconds = ((days * 24 + hour) * 60 + minute) * 60 + second
           in Inr (seconds * 1000000000 + nanosecond))"

abbreviation MIN_TIMESTAMP_NS :: int where "MIN_TIMESTAMP_NS \<equiv> -62135596800000000000"
abbreviation MAX_TIMESTAMP_NS :: int where "MAX_TIMESTAMP_NS \<equiv> 253402300799999999999"

subsection \<open>The proleptic Gregorian calendar of \<open>datetime.date\<close>\<close>

definition days_before_month :: "int list" where
  "days_before_month = [0, 0, 31, 59, 90, 120, 151, 181, 212, 243, 273, 304, 334]"

definition days_in_month :: "int list" where
  "days_in_month = [0, 31, 28, 31, 30, 31, 30, 31, 31, 30, 31, 30, 31]"

text \<open>
  \<open>date.fromordinal\<close> (\<open>_ord2ymd\<close> of the standard library); the month within a year, from the
  day of the year and whether it is a leap year, is \<open>month_of_day\<close>.
\<close>

definition month_of_day :: "int \<Rightarrow> bool \<Rightarrow> int \<times> int" where
  "month_of_day n leapyear =
    (let month = (n + 50) div 32;
         preceding = days_before_month ! nat month + (if month > 2 \<and> leapyear then 1 else 0)
     in if preceding > n then
          let month' = month - 1;
              preceding' = preceding - (days_in_month ! nat month' + (if month' = 2 \<and> leapyear then 1 else 0))
          in (month', n - preceding' + 1)
        else (month, n - preceding + 1))"

definition fromordinal :: "int \<Rightarrow> int \<times> int \<times> int" where
  "fromordinal ordinal =
    (let n = ordinal - 1;
         n400 = n div 146097; n = n mod 146097;
         n100 = n div 36524; n = n mod 36524;
         n4 = n div 1461; n = n mod 1461;
         n1 = n div 365; n = n mod 365;
         year = n400 * 400 + 1 + n100 * 100 + n4 * 4 + n1
     in if n1 = 4 \<or> n100 = 4 then (year - 1, 12, 31)
        else
          let (month, day) = month_of_day n (n1 = 3 \<and> (n4 \<noteq> 24 \<or> n100 = 3))
          in (year, month, day))"

abbreviation UNIX_EPOCH_ORDINAL :: int where "UNIX_EPOCH_ORDINAL \<equiv> 719163"

text \<open>\<open>f"{n:0kd}"\<close> and \<open>rstrip("0")\<close>\<close>

definition zero_padded :: "nat \<Rightarrow> int \<Rightarrow> str" where
  "zero_padded k n = (let s = nat_to_dec (nat n) in replicate (k - length s) (CHR ''0'') @ s)"

definition rstrip0 :: "str \<Rightarrow> str" where
  "rstrip0 s = rev (dropWhile (\<lambda>c. c = CHR ''0'') (rev s))"

definition format_rfc3339nano_utc_ns :: "int \<Rightarrow> time_error + str" where
  "format_rfc3339nano_utc_ns value =
    (if \<not> (MIN_TIMESTAMP_NS \<le> value \<and> value \<le> MAX_TIMESTAMP_NS) then Inl TimestampRange
     else
       let seconds = value div 1000000000; nanosecond = value mod 1000000000;
           days = seconds div 86400; second_of_day = seconds mod 86400;
           (year, month, day) = fromordinal (days + UNIX_EPOCH_ORDINAL);
           hour = second_of_day div 3600; remainder = second_of_day mod 3600;
           minute = remainder div 60; second = remainder mod 60;
           rendered = zero_padded 4 year @ ''-'' @ zero_padded 2 month @ ''-'' @ zero_padded 2 day @ ''T'' @
             zero_padded 2 hour @ '':'' @ zero_padded 2 minute @ '':'' @ zero_padded 2 second
       in Inr (rendered @ (if nanosecond \<noteq> 0 then ''.'' @ rstrip0 (zero_padded 9 nanosecond) else []) @ ''Z''))"

section \<open>Digit strings\<close>

lemma int_of_dec_eq: "int_of_dec s = int (nat_of_dec s)"
proof -
  have "foldl (\<lambda>n c. 10 * n + int (digit_val c)) (int a) s = int (foldl (\<lambda>n c. 10 * n + digit_val c) a s)" for a
  proof (induction s arbitrary: a)
    case (Cons c s)
    from Cons [of "10 * a + digit_val c"] show ?case by simp
  qed simp
  from this [of 0] show ?thesis by (simp add: int_of_dec_def nat_of_dec_def)
qed

lemma nat_of_dec_zeros: "nat_of_dec (replicate k (CHR ''0'') @ s) = nat_of_dec s"
proof -
  have "foldl (\<lambda>n c. 10 * n + digit_val c) 0 (replicate k (CHR ''0'')) = 0"
    by (induction k) (simp_all add: digit_val_def)
  then show ?thesis by (simp add: nat_of_dec_def)
qed

lemma length_nat_to_dec_le: "n < 10 ^ k \<Longrightarrow> 0 < k \<Longrightarrow> length (nat_to_dec n) \<le> k"
proof (induction k arbitrary: n)
  case (Suc k)
  show ?case
  proof (cases "n < 10")
    case True
    then show ?thesis by (simp add: nat_to_dec.simps [of n])
  next
    case False
    then have "0 < k" using Suc.prems by (cases k) auto
    moreover have "n div 10 < 10 ^ k" using Suc.prems by (simp add: less_mult_imp_div_less mult.commute)
    ultimately show ?thesis using Suc.IH [of "n div 10"] False by (simp add: nat_to_dec.simps [of n])
  qed
qed simp

lemma zero_padded:
  assumes "0 \<le> n" and "n < 10 ^ k" and "0 < k"
  shows "length (zero_padded k n) = k" and "is_digits (zero_padded k n)" and "int_of_dec (zero_padded k n) = n"
proof -
  have "nat n < 10 ^ k" using assms by (simp add: nat_less_iff)
  then have "length (nat_to_dec (nat n)) \<le> k" using length_nat_to_dec_le assms(3) by blast
  then show "length (zero_padded k n) = k" by (simp add: zero_padded_def Let_def)
  show "is_digits (zero_padded k n)"
    using nat_to_dec_digits [of "nat n"] by (auto simp: zero_padded_def Let_def is_digits_def list_all_iff is_digit_def)
  show "int_of_dec (zero_padded k n) = n"
    using assms(1) by (simp add: zero_padded_def Let_def int_of_dec_eq nat_of_dec_zeros)
qed

lemma rstrip0_append: "\<exists>k. s = rstrip0 s @ replicate k (CHR ''0'')"
proof -
  have "\<exists>k. t = replicate k (CHR ''0'') @ dropWhile (\<lambda>c. c = CHR ''0'') t" for t
  proof (induction t)
    case (Cons c t)
    then obtain k where "t = replicate k (CHR ''0'') @ dropWhile (\<lambda>c. c = CHR ''0'') t" by blast
    then show ?case by (cases "c = CHR ''0''") (auto intro: exI [of _ "Suc k"] exI [of _ 0])
  qed simp
  from this [of "rev s"] obtain k where "rev s = replicate k (CHR ''0'') @ dropWhile (\<lambda>c. c = CHR ''0'') (rev s)" by blast
  then have "s = rev (dropWhile (\<lambda>c. c = CHR ''0'') (rev s)) @ replicate k (CHR ''0'')"
    by (metis rev_append rev_replicate rev_rev_ident)
  then show ?thesis unfolding rstrip0_def by blast
qed

lemma rstrip0_fraction:
  assumes "length s = 9"
  shows "ljust9 (rstrip0 s) = s"
proof -
  obtain k where k: "s = rstrip0 s @ replicate k (CHR ''0'')" using rstrip0_append by blast
  then have "length (rstrip0 s) + k = 9" using assms by (metis length_append length_replicate)
  then show ?thesis using k by (simp add: ljust9_def) (metis diff_add_inverse)
qed

section \<open>The calendar\<close>

lemma in_uptoI: "i \<le> n \<Longrightarrow> n \<le> j \<Longrightarrow> n \<in> set [i..j]"
  by (simp only: set_upto atLeastAtMost_iff)

text \<open>Days before a year and before a month in it, counted from year 1.\<close>

definition days_before_year :: "int \<Rightarrow> int" where
  "days_before_year y = (y - 1) * 365 + (y - 1) div 4 - (y - 1) div 100 + (y - 1) div 400"

definition month_start :: "int \<Rightarrow> bool \<Rightarrow> int" where
  "month_start m leap = days_before_month ! nat m + (if m > 2 \<and> leap then 1 else 0)"

lemma month_of_day_ok:
  "\<forall>leap. \<forall>n\<in>set [0..(if leap then 365 else 364)]. case month_of_day n leap of (m, d) \<Rightarrow>
     1 \<le> m \<and> m \<le> 12 \<and> 1 \<le> d \<and> d \<le> [31, if leap then 29 else 28, 31, 30, 31, 30, 31, 31, 30, 31, 30, 31] ! nat (m - 1) \<and>
     month_start m leap + d - 1 = n"
  by code_simp


lemma days_before_year_parts:
  assumes "0 \<le> n100" "n100 \<le> 3" "0 \<le> n4" "n4 \<le> 24" "0 \<le> n1" "n1 \<le> 3"
  shows "days_before_year (n400 * 400 + 1 + n100 * 100 + n4 * 4 + n1) = 146097 * n400 + 36524 * n100 + 1461 * n4 + 365 * n1"
proof -
  let ?y = "n400 * 400 + n100 * 100 + n4 * 4 + n1"
  have "?y div 4 = 100 * n400 + 25 * n100 + n4"
    by (rule int_div_pos_eq [of _ _ _ n1]) (use assms in auto)
  moreover have "?y div 100 = 4 * n400 + n100"
    by (rule int_div_pos_eq [of _ _ _ "n4 * 4 + n1"]) (use assms in auto)
  moreover have "?y div 400 = n400"
    by (rule int_div_pos_eq [of _ _ _ "n100 * 100 + n4 * 4 + n1"]) (use assms in auto)
  ultimately show ?thesis by (simp add: days_before_year_def algebra_simps)
qed

lemma is_leap_year_small:
  "\<forall>n100\<in>set [0..3]. \<forall>n4\<in>set [0..24]. \<forall>n1\<in>set [0..3].
     is_leap_year (n100 * 100 + n4 * 4 + n1 + 1) \<longleftrightarrow> n1 = 3 \<and> (n4 \<noteq> 24 \<or> n100 = 3)"
  by code_simp

lemma is_leap_year_parts:
  assumes "0 \<le> n100" "n100 \<le> 3" "0 \<le> n4" "n4 \<le> 24" "0 \<le> n1" "n1 \<le> 3"
  shows "is_leap_year (n400 * 400 + 1 + n100 * 100 + n4 * 4 + n1) \<longleftrightarrow> n1 = 3 \<and> (n4 \<noteq> 24 \<or> n100 = 3)"
proof -
  have shift: "is_leap_year (400 * e + r) \<longleftrightarrow> is_leap_year r" for e r
  proof -
    have "(400 * e + r) mod 4 = r mod 4" "(400 * e + r) mod 100 = r mod 100" "(400 * e + r) mod 400 = r mod 400"
      using mod_mult_self4 [of 4 "100 * e" r] mod_mult_self4 [of 100 "4 * e" r] mod_mult_self4 [of 400 e r] by simp_all
    then show ?thesis by (simp add: is_leap_year_def)
  qed
  have "n400 * 400 + 1 + n100 * 100 + n4 * 4 + n1 = 400 * n400 + (n100 * 100 + n4 * 4 + n1 + 1)" by simp
  moreover have "n100 \<in> set [0..3]" "n4 \<in> set [0..24]" "n1 \<in> set [0..3]" using assms by (blast intro: in_uptoI)+
  ultimately show ?thesis using is_leap_year_small by (metis shift)
qed

lemma div_pred: "0 < k \<Longrightarrow> y div k = (y - 1) div k + (if y mod k = 0 then 1 else 0)" for y k :: int
proof -
  assume k: "0 < k"
  show ?thesis
  proof (cases "y mod k = 0")
    case True
    then have "y = k * (y div k)" by auto
    then have "(y - 1) div k = y div k - 1" using k
      by (intro int_div_pos_eq [of _ _ _ "k - 1"]) (simp_all add: algebra_simps)
    with True show ?thesis by simp
  next
    case False
    have "(y - 1) div k = y div k" using k False pos_mod_sign [OF k, of y] pos_mod_bound [OF k, of y]
      by (intro int_div_pos_eq [of _ _ _ "y mod k - 1"]) (simp_all add: order_less_le)
    with False show ?thesis by simp
  qed
qed

lemma leap_sum: "a = a' + (if p then 1 else 0) \<Longrightarrow> b = b' + (if q then 1 else 0) \<Longrightarrow> c = c' + (if r then 1 else 0) \<Longrightarrow>
  r \<longrightarrow> q \<Longrightarrow> q \<longrightarrow> p \<Longrightarrow> a - b + c = a' - b' + c' + (if p \<and> (\<not> q \<or> r) then 1 else (0 :: int))"
  by (cases p; cases q; cases r) simp_all

lemma century_mod: "(y :: int) mod 400 = 0 \<longrightarrow> y mod 100 = 0" "(y :: int) mod 100 = 0 \<longrightarrow> y mod 4 = 0"
  unfolding mod_eq_0_iff_dvd by (auto intro: dvd_trans [of 100 400 y] dvd_trans [of 4 100 y])

lemma leap_day:
  "y div 4 - y div 100 + y div 400 = (y - 1) div 4 - (y - 1) div 100 + (y - 1) div 400 + (if is_leap_year y then 1 else 0)"
  unfolding is_leap_year_def
  by (rule leap_sum [OF div_pred div_pred div_pred century_mod]) simp_all

lemma era_days:
  "(z - z div 400 * 400) * 365 + (z - z div 400 * 400) div 4 - (z - z div 400 * 400) div 100 + z div 400 * 146097
   = 365 * z + z div 4 - z div 100 + z div 400" for z :: int
proof -
  define e r where "e = z div 400" and "r = z - z div 400 * 400"
  have z: "z = 4 * (100 * e) + r" "z = 100 * (4 * e) + r" by (simp_all add: e_def r_def)
  have "z div 4 = 100 * e + r div 4" by (subst z(1)) (rule div_mult_self4, simp)
  moreover have "z div 100 = 4 * e + r div 100" by (subst z(2)) (rule div_mult_self4, simp)
  ultimately show ?thesis unfolding e_def [symmetric] r_def [unfolded e_def [symmetric], symmetric] using z(1) by linarith
qed

lemma month_offset: "2 < m \<Longrightarrow> m \<le> 12 \<Longrightarrow> (153 * (m - 3) + 2) div 5 + 59 = days_before_month ! nat m"
proof -
  have "\<forall>m\<in>set [3..12]. (153 * (m - 3) + 2) div 5 + 59 = days_before_month ! nat m" by code_simp
  moreover assume "2 < m" "m \<le> 12"
  then have "m \<in> set [3..12]" by (intro in_uptoI) simp_all
  ultimately show ?thesis by blast
qed

text \<open>The civil-day formula counts proleptic Gregorian days.\<close>

lemma days_from_civil_late:
  assumes "2 < m" "m \<le> 12"
  shows "days_from_civil y m d = 365 * y + y div 4 - y div 100 + y div 400 + days_before_month ! nat m + d - 719528"
proof -
  have "days_from_civil y m d = y div 400 * 146097 + ((y - y div 400 * 400) * 365 + (y - y div 400 * 400) div 4
      - (y - y div 400 * 400) div 100 + ((153 * (m - 3) + 2) div 5 + d - 1)) - 719468"
    unfolding days_from_civil_def Let_def using assms(1) by (simp only: if_True if_False) simp
  with era_days [of y] month_offset [OF assms] show ?thesis by linarith
qed

lemma days_from_civil_early:
  assumes "m = 1 \<or> m = 2"
  shows "days_from_civil y m d = 365 * (y - 1) + (y - 1) div 4 - (y - 1) div 100 + (y - 1) div 400 + 31 * (m - 1) + d - 719163"
proof -
  have "days_from_civil y m d = (y - 1) div 400 * 146097 + ((y - 1 - (y - 1) div 400 * 400) * 365 + (y - 1 - (y - 1) div 400 * 400) div 4
      - (y - 1 - (y - 1) div 400 * 400) div 100 + ((153 * (m + 9) + 2) div 5 + d - 1)) - 719468"
    unfolding days_from_civil_def Let_def using assms by auto
  moreover have "(153 * (m + 9) + 2) div 5 = 31 * (m - 1) + 306" using assms by auto
  ultimately show ?thesis using era_days [of "y - 1"] by linarith
qed

lemma days_from_civil_eq:
  assumes "1 \<le> m" "m \<le> 12"
  shows "days_from_civil y m d = days_before_year y + month_start m (is_leap_year y) + d - UNIX_EPOCH_ORDINAL"
proof (cases "m > 2")
  case True
  with days_from_civil_late [OF True assms(2), of y d] leap_day [of y] show ?thesis
    unfolding days_before_year_def month_start_def by (cases "is_leap_year y") simp_all
next
  case False
  with assms have "m = 1 \<or> m = 2" by linarith
  moreover from this have "month_start m (is_leap_year y) = 31 * (m - 1)" by (auto simp: month_start_def days_before_month_def)
  ultimately show ?thesis using days_from_civil_early [of m y d] unfolding days_before_year_def by linarith
qed

text \<open>A calendar date of the proleptic Gregorian calendar and its ordinal.\<close>

definition valid_date :: "int \<Rightarrow> int \<Rightarrow> int \<Rightarrow> bool" where
  "valid_date y m d \<longleftrightarrow> 1 \<le> m \<and> m \<le> 12 \<and> 1 \<le> d \<and> d \<le> month_lengths y ! nat (m - 1)"

definition date_ordinal :: "int \<Rightarrow> int \<Rightarrow> int \<Rightarrow> int" where
  "date_ordinal y m d = days_before_year y + month_start m (is_leap_year y) + d"

lemma year_parts_ordinal:
  assumes "0 \<le> n100" "n100 \<le> 3" "0 \<le> n4" "n4 \<le> 24" "0 \<le> n1" "n1 \<le> 3"
    and "0 \<le> n" "n \<le> (if n1 = 3 \<and> (n4 \<noteq> 24 \<or> n100 = 3) then 365 else 364)"
    and "month_of_day n (n1 = 3 \<and> (n4 \<noteq> 24 \<or> n100 = 3)) = (m, d)"
  shows "valid_date (n400 * 400 + 1 + n100 * 100 + n4 * 4 + n1) m d"
    and "date_ordinal (n400 * 400 + 1 + n100 * 100 + n4 * 4 + n1) m d = 146097 * n400 + 36524 * n100 + 1461 * n4 + 365 * n1 + n + 1"
proof -
  let ?leap = "n1 = 3 \<and> (n4 \<noteq> 24 \<or> n100 = 3)"
  have "n \<in> set [0..(if ?leap then 365 else 364)]" using assms(7,8) by (intro in_uptoI)
  then have md: "1 \<le> m \<and> m \<le> 12 \<and> 1 \<le> d \<and> d \<le> [31, if ?leap then 29 else 28, 31, 30, 31, 30, 31, 31, 30, 31, 30, 31] ! nat (m - 1) \<and>
     month_start m ?leap + d - 1 = n"
    using bspec [OF spec [OF month_of_day_ok, of ?leap], of n] unfolding assms(9) prod.case by blast
  note leap = is_leap_year_parts [OF assms(1-6), of n400] and days = days_before_year_parts [OF assms(1-6), of n400]
  show "valid_date (n400 * 400 + 1 + n100 * 100 + n4 * 4 + n1) m d"
    using md unfolding valid_date_def month_lengths_def leap by blast
  show "date_ordinal (n400 * 400 + 1 + n100 * 100 + n4 * 4 + n1) m d = 146097 * n400 + 36524 * n100 + 1461 * n4 + 365 * n1 + n + 1"
    using md unfolding date_ordinal_def leap days by linarith
qed

lemma december_31: "month_of_day 365 True = (12, 31)" "month_of_day 364 False = (12, 31)"
  by code_simp+

lemma fromordinal_correct:
  assumes "fromordinal ordinal = (y, m, d)"
  shows "valid_date y m d" and "date_ordinal y m d = ordinal"
proof -
  define n where "n = ordinal - 1"
  define n400 r1 where "n400 = n div 146097" and "r1 = n mod 146097"
  define n100 r2 where "n100 = r1 div 36524" and "r2 = r1 mod 36524"
  define n4 r3 where "n4 = r2 div 1461" and "r3 = r2 mod 1461"
  define n1 r4 where "n1 = r3 div 365" and "r4 = r3 mod 365"
  have parts: "n = 146097 * n400 + r1" "r1 = 36524 * n100 + r2" "r2 = 1461 * n4 + r3" "r3 = 365 * n1 + r4"
    by (simp_all add: n400_def r1_def n100_def r2_def n4_def r3_def n1_def r4_def)
  have bounds: "0 \<le> r1" "r1 < 146097" "0 \<le> r2" "r2 < 36524" "0 \<le> r3" "r3 < 1461" "0 \<le> r4" "r4 < 365"
    by (simp_all add: r1_def r2_def r3_def r4_def)
  have quots: "0 \<le> n100" "n100 \<le> 4" "0 \<le> n4" "n4 \<le> 24" "0 \<le> n1" "n1 \<le> 4"
    using parts bounds by linarith+
  let ?y = "n400 * 400 + 1 + n100 * 100 + n4 * 4 + n1"
  have eq: "fromordinal ordinal = (if n1 = 4 \<or> n100 = 4 then (?y - 1, 12, 31)
      else (?y, month_of_day r4 (n1 = 3 \<and> (n4 \<noteq> 24 \<or> n100 = 3))))"
    unfolding fromordinal_def Let_def n1_def r4_def n4_def r3_def n100_def r2_def n400_def r1_def n_def
    by (simp add: case_prod_beta)
  have "valid_date y m d \<and> date_ordinal y m d = ordinal"
  proof (cases "n100 = 4")
    case True
    then have z: "n4 = 0" "n1 = 0" "r4 = 0" using parts bounds quots by linarith+
    have "y = n400 * 400 + 1 + 3 * 100 + 24 * 4 + 3" "m = 12" "d = 31"
      using eq assms True z by simp_all
    with year_parts_ordinal [of 3 24 3 365 12 31 n400] december_31 parts True z n_def show ?thesis by simp
  next
    case False
    show ?thesis
    proof (cases "n1 = 4")
      case True
      then have z: "r4 = 0" "n4 \<noteq> 24" using parts bounds quots False by linarith+
      have "y = n400 * 400 + 1 + n100 * 100 + n4 * 4 + 3" "m = 12" "d = 31"
        using eq assms True by simp_all
      with year_parts_ordinal [of n100 n4 3 365 12 31 n400] december_31 parts True z n_def quots False show ?thesis by simp
    next
      case n1: False
      have "y = ?y" "month_of_day r4 (n1 = 3 \<and> (n4 \<noteq> 24 \<or> n100 = 3)) = (m, d)"
        using eq assms n1 False by simp_all
      with year_parts_ordinal [of n100 n4 n1 r4 m d n400] parts bounds quots n1 False n_def show ?thesis by simp
    qed
  qed
  then show "valid_date y m d" and "date_ordinal y m d = ordinal" by blast+
qed

lemma days_before_year_step: "days_before_year (y + 1) = days_before_year y + (if is_leap_year y then 366 else 365)"
  using leap_day [of y] unfolding days_before_year_def by (cases "is_leap_year y") simp_all

lemma days_before_year_mono: "y \<le> y' \<Longrightarrow> days_before_year y \<le> days_before_year y'"
proof (induction y' rule: int_ge_induct)
  case (step i)
  then show ?case using days_before_year_step [of i] by (cases "is_leap_year i") simp_all
qed simp

lemma month_end:
  "\<forall>leap. \<forall>m\<in>set [1..12]. 0 \<le> month_start m leap \<and>
    month_start m leap + [31, if leap then 29 else 28, 31, 30, 31, 30, 31, 31, 30, 31, 30, 31] ! nat (m - 1) \<le> (if leap then 366 else 365)"
  by code_simp

lemma month_length_31:
  "\<forall>leap. \<forall>m\<in>set [1..12]. [31 :: int, if leap then 29 else 28, 31, 30, 31, 30, 31, 31, 30, 31, 30, 31] ! nat (m - 1) \<le> 31"
  by code_simp

lemma date_ordinal_year:
  assumes "valid_date y m d"
  shows "days_before_year y < date_ordinal y m d" and "date_ordinal y m d \<le> days_before_year (y + 1)"
proof -
  have "m \<in> set [1..12]" using assms by (intro in_uptoI) (simp_all add: valid_date_def)
  from bspec [OF spec [OF month_end, of "is_leap_year y"] this] assms
  show "days_before_year y < date_ordinal y m d" and "date_ordinal y m d \<le> days_before_year (y + 1)"
    unfolding days_before_year_step date_ordinal_def valid_date_def month_lengths_def by linarith+
qed

lemma ordinal_year_range:
  assumes "valid_date y m d"
  shows "1 \<le> y \<and> y \<le> 9999 \<longleftrightarrow> 1 \<le> date_ordinal y m d \<and> date_ordinal y m d \<le> 3652059"
proof -
  have c: "days_before_year 1 = 0" "days_before_year 10000 = 3652059" by (simp_all add: days_before_year_def)
  note b = date_ordinal_year [OF assms]
  show ?thesis
  proof
    assume "1 \<le> y \<and> y \<le> 9999"
    then have "days_before_year 1 \<le> days_before_year y" "days_before_year (y + 1) \<le> days_before_year 10000"
      by (auto intro!: days_before_year_mono)
    with b c show "1 \<le> date_ordinal y m d \<and> date_ordinal y m d \<le> 3652059" by linarith
  next
    assume r: "1 \<le> date_ordinal y m d \<and> date_ordinal y m d \<le> 3652059"
    have "y < 1 \<Longrightarrow> days_before_year (y + 1) \<le> days_before_year 1" "9999 < y \<Longrightarrow> days_before_year 10000 \<le> days_before_year y"
      by (auto intro!: days_before_year_mono)
    with r b c show "1 \<le> y \<and> y \<le> 9999" by linarith
  qed
qed

section \<open>Text and instants\<close>

lemma fullmatch_render:
  assumes "length y = 4" "length mo = 2" "length d = 2" "length h = 2" "length mi = 2" "length s = 2"
    and "is_digits y" "is_digits mo" "is_digits d" "is_digits h" "is_digits mi" "is_digits s"
    and "case fr of None \<Rightarrow> rest = ''Z'' | Some f \<Rightarrow> rest = ''.'' @ f @ ''Z'' \<and> 1 \<le> length f \<and> length f \<le> 9 \<and> is_digits f"
  shows "timestamp_fullmatch (y @ ''-'' @ mo @ ''-'' @ d @ ''T'' @ h @ '':'' @ mi @ '':'' @ s @ rest) =
    Some \<lparr>tm_year = y, tm_month = mo, tm_day = d, tm_hour = h, tm_minute = mi, tm_second = s, tm_fraction = fr\<rparr>"
  using assms by (cases fr) (auto simp: timestamp_fullmatch_def field_def Let_def)

lemma is_digits_rstrip0: "is_digits s \<Longrightarrow> is_digits (rstrip0 s)"
  by (auto simp: is_digits_def rstrip0_def list_all_iff dest: set_dropWhileD)

lemma length_rstrip0: "length (rstrip0 s) \<le> length s"
  by (metis length_dropWhile_le length_rev rstrip0_def)

lemma fraction_text:
  assumes "0 < n" and "n < 1000000000"
  shows "is_digits (rstrip0 (zero_padded 9 n))" and "1 \<le> length (rstrip0 (zero_padded 9 n))"
    and "length (rstrip0 (zero_padded 9 n)) \<le> 9" and "int_of_dec (ljust9 (rstrip0 (zero_padded 9 n))) = n"
proof -
  have z: "length (zero_padded 9 n) = 9" "is_digits (zero_padded 9 n)" "int_of_dec (zero_padded 9 n) = n"
    using assms by (intro zero_padded; simp)+
  show "is_digits (rstrip0 (zero_padded 9 n))" by (rule is_digits_rstrip0 [OF z(2)])
  show "length (rstrip0 (zero_padded 9 n)) \<le> 9" using length_rstrip0 [of "zero_padded 9 n"] z(1) by simp
  show v: "int_of_dec (ljust9 (rstrip0 (zero_padded 9 n))) = n" using rstrip0_fraction [OF z(1)] z(3) by simp
  have "int_of_dec (ljust9 []) = 0" by code_simp
  then have "rstrip0 (zero_padded 9 n) \<noteq> []" using v assms(1) by fastforce
  then show "1 \<le> length (rstrip0 (zero_padded 9 n))" by (cases "rstrip0 (zero_padded 9 n)") simp_all
qed

lemma format_parts:
  assumes "MIN_TIMESTAMP_NS \<le> n" and "n \<le> MAX_TIMESTAMP_NS"
  obtains y m d h mi s where "valid_date y m d" and "1 \<le> y" and "y \<le> 9999"
    and "0 \<le> h" "h \<le> 23" "0 \<le> mi" "mi \<le> 59" "0 \<le> s" "s \<le> 59"
    and "(((days_from_civil y m d * 24 + h) * 60 + mi) * 60 + s) * 1000000000 + n mod 1000000000 = n"
    and "format_rfc3339nano_utc_ns n = Inr (zero_padded 4 y @ ''-'' @ zero_padded 2 m @ ''-'' @ zero_padded 2 d @ ''T'' @
        zero_padded 2 h @ '':'' @ zero_padded 2 mi @ '':'' @ zero_padded 2 s @
        (if n mod 1000000000 \<noteq> 0 then ''.'' @ rstrip0 (zero_padded 9 (n mod 1000000000)) else []) @ ''Z'')"
proof -
  define sec sod where "sec = n div 1000000000" and "sod = n div 1000000000 mod 86400"
  define dd where "dd = n div 1000000000 div 86400"
  obtain y m d where ymd: "fromordinal (dd + UNIX_EPOCH_ORDINAL) = (y, m, d)" by (metis surj_pair)
  note date = fromordinal_correct [OF ymd]
  have nd: "n = sec * 1000000000 + n mod 1000000000" by (simp add: sec_def)
  have sd: "sec = dd * 86400 + sod" by (simp add: sec_def dd_def sod_def)
  have rng: "0 \<le> n mod 1000000000" "n mod 1000000000 < 1000000000" "0 \<le> sod" "sod < 86400" by (simp_all add: sod_def)
  have "1 \<le> dd + UNIX_EPOCH_ORDINAL \<and> dd + UNIX_EPOCH_ORDINAL \<le> 3652059"
    using assms nd sd rng by linarith
  then have y: "1 \<le> y" "y \<le> 9999" using ordinal_year_range [OF date(1)] date(2) by simp_all
  have civil: "days_from_civil y m d = dd"
    using days_from_civil_eq [of m y d] date unfolding valid_date_def date_ordinal_def by simp
  define h rem where "h = sod div 3600" and "rem = sod mod 3600"
  define mi s where "mi = rem div 60" and "s = rem mod 60"
  have hm: "sod = h * 3600 + rem" "rem = mi * 60 + s" by (simp_all add: h_def rem_def mi_def s_def)
  have hr: "0 \<le> rem" "rem < 3600" "0 \<le> s" "s < 60" by (simp_all add: rem_def s_def)
  have lim: "0 \<le> h" "h \<le> 23" "0 \<le> mi" "mi \<le> 59" using hm hr rng by linarith+
  have "(((days_from_civil y m d * 24 + h) * 60 + mi) * 60 + s) * 1000000000 + n mod 1000000000 = n"
  proof -
    have "((dd * 24 + h) * 60 + mi) * 60 + s = sec" using sd hm by simp
    then show ?thesis unfolding civil using nd by simp
  qed
  moreover have "format_rfc3339nano_utc_ns n = Inr (zero_padded 4 y @ ''-'' @ zero_padded 2 m @ ''-'' @ zero_padded 2 d @ ''T'' @
        zero_padded 2 h @ '':'' @ zero_padded 2 mi @ '':'' @ zero_padded 2 s @
        (if n mod 1000000000 \<noteq> 0 then ''.'' @ rstrip0 (zero_padded 9 (n mod 1000000000)) else []) @ ''Z'')"
    unfolding format_rfc3339nano_utc_ns_def Let_def dd_def [symmetric] ymd prod.case
      sod_def [symmetric] h_def [symmetric] rem_def [symmetric] mi_def [symmetric] s_def [symmetric]
    using assms by (simp only: simp_thms if_False append_assoc)
  ultimately show ?thesis using that [of y m d h mi s] date(1) y lim hr by simp
qed

lemma parse_format:
  assumes "MIN_TIMESTAMP_NS \<le> n" and "n \<le> MAX_TIMESTAMP_NS"
  shows "\<exists>text. format_rfc3339nano_utc_ns n = Inr text \<and> parse_rfc3339nano_utc_ns text = Inr n"
proof -
  from format_parts [OF assms] obtain y m d h mi s where p: "valid_date y m d" "1 \<le> y" "y \<le> 9999"
    "0 \<le> h" "h \<le> 23" "0 \<le> mi" "mi \<le> 59" "0 \<le> s" "s \<le> 59"
    and v: "(((days_from_civil y m d * 24 + h) * 60 + mi) * 60 + s) * 1000000000 + n mod 1000000000 = n"
    and f: "format_rfc3339nano_utc_ns n = Inr (zero_padded 4 y @ ''-'' @ zero_padded 2 m @ ''-'' @ zero_padded 2 d @ ''T'' @
        zero_padded 2 h @ '':'' @ zero_padded 2 mi @ '':'' @ zero_padded 2 s @
        (if n mod 1000000000 \<noteq> 0 then ''.'' @ rstrip0 (zero_padded 9 (n mod 1000000000)) else []) @ ''Z'')" .
  have d: "1 \<le> m" "m \<le> 12" "1 \<le> d" "d \<le> month_lengths y ! nat (m - 1)" using p(1) by (auto simp: valid_date_def)
  have "month_lengths y ! nat (m - 1) \<le> 31"
    using bspec [OF spec [OF month_length_31, of "is_leap_year y"], OF in_uptoI [OF d(1,2)]] by (simp only: month_lengths_def)
  then have d99: "d \<le> 31" using d(4) by simp
  let ?fr = "if n mod 1000000000 \<noteq> 0 then Some (rstrip0 (zero_padded 9 (n mod 1000000000))) else None"
  let ?m = "\<lparr>tm_year = zero_padded 4 y, tm_month = zero_padded 2 m, tm_day = zero_padded 2 d, tm_hour = zero_padded 2 h,
    tm_minute = zero_padded 2 mi, tm_second = zero_padded 2 s, tm_fraction = ?fr\<rparr>"
  have ns: "0 \<le> n mod 1000000000" "n mod 1000000000 < 1000000000" by simp_all
  have zp: "length (zero_padded 2 x) = 2 \<and> is_digits (zero_padded 2 x) \<and> int_of_dec (zero_padded 2 x) = x" if "0 \<le> x" "x < 100" for x
    using zero_padded [of x 2] that by simp
  have zy: "length (zero_padded 4 y) = 4" "is_digits (zero_padded 4 y)" "int_of_dec (zero_padded 4 y) = y"
    using zero_padded [of y 4] p by simp_all
  have "timestamp_fullmatch (zero_padded 4 y @ ''-'' @ zero_padded 2 m @ ''-'' @ zero_padded 2 d @ ''T'' @
        zero_padded 2 h @ '':'' @ zero_padded 2 mi @ '':'' @ zero_padded 2 s @
        (if n mod 1000000000 \<noteq> 0 then ''.'' @ rstrip0 (zero_padded 9 (n mod 1000000000)) else []) @ ''Z'') = Some ?m"
    by (rule fullmatch_render) (use zp zy d d99 p ns fraction_text in \<open>auto simp: order_less_le\<close>)
  moreover have "(case ?fr of None \<Rightarrow> 0 | Some f \<Rightarrow> int_of_dec (ljust9 f)) = n mod 1000000000"
    using fraction_text(4) [of "n mod 1000000000"] ns by (simp add: order_less_le)
  ultimately have "parse_rfc3339nano_utc_ns (zero_padded 4 y @ ''-'' @ zero_padded 2 m @ ''-'' @ zero_padded 2 d @ ''T'' @
        zero_padded 2 h @ '':'' @ zero_padded 2 mi @ '':'' @ zero_padded 2 s @
        (if n mod 1000000000 \<noteq> 0 then ''.'' @ rstrip0 (zero_padded 9 (n mod 1000000000)) else []) @ ''Z'') = Inr n"
    unfolding parse_rfc3339nano_utc_ns_def using zp zy d d99 p v by (simp add: Let_def del: if_split)
  with f show ?thesis by blast
qed

lemma month_order:
  "\<forall>leap. \<forall>m\<in>set [1..12]. \<forall>m'\<in>set [1..12]. m < m' \<longrightarrow>
    month_start m leap + [31, if leap then 29 else 28, 31, 30, 31, 30, 31, 31, 30, 31, 30, 31] ! nat (m - 1) \<le> month_start m' leap"
  by code_simp

lemma date_ordinal_month_less:
  assumes "valid_date y m d" and "valid_date y m' d'" and "m < m'"
  shows "date_ordinal y m d < date_ordinal y m' d'"
proof -
  have "m \<in> set [1..12]" "m' \<in> set [1..12]" using assms by (auto intro: in_uptoI simp: valid_date_def)
  then have "month_start m (is_leap_year y) + month_lengths y ! nat (m - 1) \<le> month_start m' (is_leap_year y)"
    using month_order assms(3) unfolding month_lengths_def by blast
  with assms(1,2) show ?thesis unfolding date_ordinal_def valid_date_def by linarith
qed

lemma date_ordinal_year_less:
  assumes "valid_date y m d" and "valid_date y' m' d'" and "y < y'"
  shows "date_ordinal y m d < date_ordinal y' m' d'"
  using date_ordinal_year [OF assms(1)] date_ordinal_year [OF assms(2)] days_before_year_mono [of "y + 1" y'] assms(3) by linarith

lemma date_ordinal_inject:
  assumes "valid_date y m d" and "valid_date y' m' d'" and "date_ordinal y m d = date_ordinal y' m' d'"
  shows "y = y' \<and> m = m' \<and> d = d'"
proof -
  have y: "y = y'"
    using date_ordinal_year_less [OF assms(1,2)] date_ordinal_year_less [OF assms(2,1)] assms(3) by force
  have m: "m = m'"
    using date_ordinal_month_less [of y m d m' d'] date_ordinal_month_less [of y m' d' m d] assms y by force
  with y assms(3) show ?thesis by (simp add: date_ordinal_def)
qed

lemma fromordinal_date_ordinal:
  assumes "valid_date y m d"
  shows "fromordinal (date_ordinal y m d) = (y, m, d)"
proof -
  obtain y' m' d' where f: "fromordinal (date_ordinal y m d) = (y', m', d')" by (metis surj_pair)
  from fromordinal_correct [OF f] date_ordinal_inject [OF assms] f show ?thesis by force
qed

lemma int_of_dec_bound: "is_digits s \<Longrightarrow> 0 \<le> int_of_dec s \<and> int_of_dec s < 10 ^ length s"
  using nat_of_dec_less [of s] by (simp add: int_of_dec_eq is_digits_def flip: of_nat_less_iff)

lemma fullmatch_fraction:
  assumes "timestamp_fullmatch s = Some m" and "tm_fraction m = Some f"
  shows "is_digits f" and "length f \<le> 9"
  using assms by (auto simp: timestamp_fullmatch_def Let_def split: if_splits)

lemma parse_range:
  assumes "parse_rfc3339nano_utc_ns s = Inr n"
  shows "MIN_TIMESTAMP_NS \<le> n" and "n \<le> MAX_TIMESTAMP_NS"
proof -
  from assms obtain t where t: "timestamp_fullmatch s = Some t"
    by (auto simp: parse_rfc3339nano_utc_ns_def split: option.splits)
  define y m d h mi sc where "y = int_of_dec (tm_year t)" "m = int_of_dec (tm_month t)" "d = int_of_dec (tm_day t)"
    "h = int_of_dec (tm_hour t)" "mi = int_of_dec (tm_minute t)" "sc = int_of_dec (tm_second t)"
  define ns where "ns = (case tm_fraction t of None \<Rightarrow> 0 | Some f \<Rightarrow> int_of_dec (ljust9 f))"
  from assms have v: "1 \<le> y" "y \<le> 9999" "valid_date y m d" "0 \<le> h" "h \<le> 23" "0 \<le> mi" "mi \<le> 59" "0 \<le> sc" "sc \<le> 59"
    and n: "n = (((days_from_civil y m d * 24 + h) * 60 + mi) * 60 + sc) * 1000000000 + ns"
    unfolding parse_rfc3339nano_utc_ns_def t option.case Let_def y_m_d_h_mi_sc_def [symmetric] ns_def [symmetric] valid_date_def
    by (simp_all split: if_splits)
  have "0 \<le> ns \<and> ns < 1000000000"
  proof (cases "tm_fraction t")
    case (Some f)
    from fullmatch_fraction [OF t Some] have "is_digits (ljust9 f)" "length (ljust9 f) = 9"
      by (auto simp: ljust9_def is_digits_def list_all_iff is_digit_def)
    with int_of_dec_bound [of "ljust9 f"] show ?thesis by (simp add: ns_def Some)
  qed (simp add: ns_def)
  moreover have "1 \<le> date_ordinal y m d \<and> date_ordinal y m d \<le> 3652059" using ordinal_year_range [OF v(3)] v(1,2) by blast
  then have "- 719162 \<le> days_from_civil y m d" "days_from_civil y m d \<le> 2932896"
    using days_from_civil_eq [of m y d] v(3) unfolding date_ordinal_def valid_date_def by linarith+
  moreover have "n = (86400 * days_from_civil y m d + 3600 * h + 60 * mi + sc) * 1000000000 + ns" unfolding n by simp
  ultimately show "MIN_TIMESTAMP_NS \<le> n" and "n \<le> MAX_TIMESTAMP_NS" using v(4-9) by auto
qed

section \<open>Properties\<close>

text \<open>
  C31. Formatting and parsing are inverse: every instant of the years 1 to 9999 has a text, and
  that text parses back to exactly the same nanosecond.
\<close>

theorem timestamp_format_parse_roundtrip:
  assumes "MIN_TIMESTAMP_NS \<le> n" and "n \<le> MAX_TIMESTAMP_NS"
  shows "\<exists>text. format_rfc3339nano_utc_ns n = Inr text \<and> parse_rfc3339nano_utc_ns text = Inr n"
  using assms by (rule parse_format)

theorem timestamp_format_parse_roundtrip_witness:
  "\<exists>text. format_rfc3339nano_utc_ns 1709210096500000000 = Inr text \<and> parse_rfc3339nano_utc_ns text = Inr 1709210096500000000"
  by (rule timestamp_format_parse_roundtrip) simp_all

text \<open>
  C32. The civil-day formula of the parser is the inverse of the standard library's proleptic
  Gregorian calendar (\<open>date.fromordinal\<close>, used by the formatter) on every valid calendar date.
\<close>

theorem civil_days_agree_with_calendar:
  assumes "valid_date y m d"
  shows "fromordinal (days_from_civil y m d + UNIX_EPOCH_ORDINAL) = (y, m, d)"
  using fromordinal_date_ordinal [OF assms] days_from_civil_eq [of m y d] assms
  unfolding date_ordinal_def valid_date_def by simp

theorem civil_days_agree_with_calendar_witness:
  "fromordinal (days_from_civil 2024 2 29 + UNIX_EPOCH_ORDINAL) = (2024, 2, 29)"
  by (rule civil_days_agree_with_calendar) code_simp

text \<open>
  C33. A parsed timestamp is always in the range that can be formatted: parsing never yields an
  instant before year 1 or after year 9999.
\<close>

theorem parsed_timestamps_in_range:
  assumes "parse_rfc3339nano_utc_ns s = Inr n"
  shows "MIN_TIMESTAMP_NS \<le> n \<and> n \<le> MAX_TIMESTAMP_NS \<and> (\<exists>text. format_rfc3339nano_utc_ns n = Inr text)"
  using parse_range [OF assms] parse_format by blast

theorem parsed_timestamps_in_range_witness:
  "\<exists>text. format_rfc3339nano_utc_ns 1709210096500000000 = Inr text"
proof -
  have "parse_rfc3339nano_utc_ns ''2024-02-29T12:34:56.5Z'' = Inr 1709210096500000000" by code_simp
  from parsed_timestamps_in_range [OF this] show ?thesis by blast
qed

end
