(* ===== verification/IpAddress.thy ===== *)
theory IpAddress
  imports CivilTime
begin

text \<open>
  The part of the standard library's \<open>ipaddress\<close> module that the sources use: the textual forms of
  IPv4 and IPv6 addresses and networks, and membership. Shown here: dotted decimal text is a
  bijection with the 32-bit addresses, and an IPv4 network is an interval of addresses.
\<close>

section \<open>Definitions\<close>

subsection \<open>The standard library's \<open>ipaddress\<close>\<close>

datatype ip_error = AddressValueError | NetmaskValueError | HostBitsSet

text \<open>\<open>s.split(c)\<close>\<close>

fun split_on :: "char \<Rightarrow> str \<Rightarrow> str list" where
  "split_on c [] = [[]]"
| "split_on c (x # xs) = (if x = c then [] # split_on c xs else (x # hd (split_on c xs)) # tl (split_on c xs))"

definition parse_octet :: "str \<Rightarrow> int option" where
  "parse_octet s =
    (if s = [] \<or> \<not> is_digits s \<or> length s > 3 \<or> s \<noteq> ''0'' \<and> hd s = CHR ''0'' \<or> int_of_dec s > 255 then None
     else Some (int_of_dec s))"

definition v4_from_string :: "str \<Rightarrow> ip_error + int" where
  "v4_from_string s =
    (case map parse_octet (split_on (CHR ''.'') s) of
       [Some a, Some b, Some c, Some d] \<Rightarrow> Inr (((a * 256 + b) * 256 + c) * 256 + d)
     | _ \<Rightarrow> Inl AddressValueError)"

definition IPv4Address :: "str \<Rightarrow> ip_error + int" where
  "IPv4Address s = (if CHR ''/'' \<in> set s then Inl AddressValueError else v4_from_string s)"

definition v4_octets :: "int \<Rightarrow> int list" where
  "v4_octets n = [n div 2 ^ 24 mod 256, n div 2 ^ 16 mod 256, n div 2 ^ 8 mod 256, n mod 256]"

definition v4_str :: "int \<Rightarrow> str" where
  "v4_str n = join ''.'' (map int_to_dec (v4_octets n))"

text \<open>
  Prefix lengths: \<open>_prefix_from_prefix_string\<close>, and the netmask or hostmask form of
  \<open>_prefix_from_ip_string\<close> (only IPv4). \<open>trailing_zeros\<close> is \<open>_count_righthand_zero_bits\<close>.
\<close>

definition prefix_from_prefix_string :: "int \<Rightarrow> str \<Rightarrow> ip_error + int" where
  "prefix_from_prefix_string max_prefixlen s =
    (if s = [] \<or> \<not> is_digits s \<or> int_of_dec s > max_prefixlen then Inl NetmaskValueError else Inr (int_of_dec s))"

fun trailing_zeros :: "nat \<Rightarrow> int \<Rightarrow> nat" where
  "trailing_zeros 0 n = 0"
| "trailing_zeros (Suc k) n = (if n mod 2 = 0 then Suc (trailing_zeros k (n div 2)) else 0)"

definition prefix_from_ip_int :: "int \<Rightarrow> int option" where
  "prefix_from_ip_int n =
    (let z = trailing_zeros 32 n in
     if n div 2 ^ z \<noteq> 2 ^ (32 - z) - 1 then None else Some (32 - int z))"

definition prefix_from_ip_string :: "str \<Rightarrow> ip_error + int" where
  "prefix_from_ip_string s =
    (case v4_from_string s of
       Inl _ \<Rightarrow> Inl NetmaskValueError
     | Inr n \<Rightarrow>
         (case prefix_from_ip_int n of
            Some p \<Rightarrow> Inr p
          | None \<Rightarrow>
              (case prefix_from_ip_int (2 ^ 32 - 1 - n) of
                 Some p \<Rightarrow> Inr p
               | None \<Rightarrow> Inl NetmaskValueError)))"

definition v4_make_netmask :: "str \<Rightarrow> ip_error + int" where
  "v4_make_netmask s =
    (case prefix_from_prefix_string 32 s of Inr p \<Rightarrow> Inr p | Inl _ \<Rightarrow> prefix_from_ip_string s)"

text \<open>\<open>_split_addr_prefix\<close>: the address text and the mask text, if there is one.\<close>

definition split_addr_prefix :: "str \<Rightarrow> ip_error + (str \<times> str option)" where
  "split_addr_prefix s =
    (case split_on (CHR ''/'') s of
       [a] \<Rightarrow> Inr (a, None)
     | [a, m] \<Rightarrow> Inr (a, Some m)
     | _ \<Rightarrow> Inl AddressValueError)"

text \<open>\<open>packed & netmask\<close> for a prefix length, as the multiple of the block size below.\<close>

definition network_base :: "nat \<Rightarrow> int \<Rightarrow> int \<Rightarrow> int" where
  "network_base bits p n = n - n mod 2 ^ (bits - nat p)"

record ipv4_network =
  network_address :: int
  prefixlen :: int

definition IPv4Network :: "str \<Rightarrow> bool \<Rightarrow> ip_error + ipv4_network" where
  "IPv4Network s strict =
    rbind (split_addr_prefix s) (\<lambda>(a, m).
    rbind (IPv4Address a) (\<lambda>n.
    rbind (case m of None \<Rightarrow> Inr 32 | Some t \<Rightarrow> v4_make_netmask t) (\<lambda>p.
      if network_base 32 p n \<noteq> n \<and> strict then Inl HostBitsSet
      else Inr \<lparr>network_address = network_base 32 p n, prefixlen = p\<rparr>)))"

definition v4_network_str :: "ipv4_network \<Rightarrow> str" where
  "v4_network_str w = v4_str (network_address w) @ ''/'' @ int_to_dec (prefixlen w)"

definition v4_contains :: "ipv4_network \<Rightarrow> int \<Rightarrow> bool" where
  "v4_contains w n \<longleftrightarrow> network_base 32 (prefixlen w) n = network_address w"

text \<open>IPv6: an address is its value with the scope identifier after \<open>%\<close>, if any.\<close>

record ipv6_address =
  v6_ip :: int
  v6_scope :: "str option"

definition is_hex_digit :: "char \<Rightarrow> bool" where
  "is_hex_digit c \<longleftrightarrow> is_lower_hex c \<or> 65 \<le> (of_char c :: nat) \<and> (of_char c :: nat) \<le> 70"

definition hex_digit_val :: "char \<Rightarrow> int" where
  "hex_digit_val c =
    (let x = (of_char c :: int) in if x \<le> 57 then x - 48 else if x \<le> 70 then x - 55 else x - 87)"

definition parse_hextet :: "str \<Rightarrow> int option" where
  "parse_hextet s =
    (if s = [] \<or> \<not> list_all is_hex_digit s \<or> length s > 4 then None
     else Some (foldl (\<lambda>a c. 16 * a + hex_digit_val c) 0 s))"

fun hex_of_nat :: "nat \<Rightarrow> str" where
  "hex_of_nat n = (if n < 16 then [hex_digit_char n] else hex_of_nat (n div 16) @ [hex_digit_char (n mod 16)])"

declare hex_of_nat.simps [simp del]

text \<open>The IPv4-style suffix turned into two hextets.\<close>

definition v6_expand_suffix :: "str list \<Rightarrow> ip_error + str list" where
  "v6_expand_suffix parts =
    (if CHR ''.'' \<in> set (last parts) then
       rbind (IPv4Address (last parts)) (\<lambda>n.
         Inr (butlast parts @ [hex_of_nat (nat (n div 2 ^ 16)), hex_of_nat (nat (n mod 2 ^ 16))]))
     else Inr parts)"

text \<open>\<open>parts_hi\<close>, \<open>parts_skipped\<close> and \<open>parts_lo\<close>: how many parts stand before and after \<open>::\<close>.\<close>

definition v6_layout :: "str list \<Rightarrow> (nat \<times> nat \<times> nat) option" where
  "v6_layout parts =
    (case filter (\<lambda>i. parts ! i = []) [1..<length parts - 1] of
       [] \<Rightarrow> if length parts \<noteq> 8 \<or> hd parts = [] \<or> last parts = [] then None else Some (8, 0, 0)
     | [i] \<Rightarrow>
         let hi = (if hd parts = [] then i - 1 else i);
             lo = (if last parts = [] then length parts - i - 2 else length parts - i - 1)
         in if hd parts = [] \<and> hi \<noteq> 0 \<or> last parts = [] \<and> lo \<noteq> 0 \<or> hi + lo \<ge> 8 then None
            else Some (hi, 8 - (hi + lo), lo)
     | _ \<Rightarrow> None)"

definition v6_from_string :: "str \<Rightarrow> ip_error + int" where
  "v6_from_string s =
    (let raw = split_on (CHR '':'') s in
     if s = [] \<or> length raw < 3 then Inl AddressValueError
     else rbind (v6_expand_suffix raw) (\<lambda>parts.
       if length parts > 9 then Inl AddressValueError
       else case v6_layout parts of
         None \<Rightarrow> Inl AddressValueError
       | Some (hi, skipped, lo) \<Rightarrow>
           let used = map parse_hextet (take hi parts @ drop (length parts - lo) parts) in
           if list_ex (\<lambda>h. h = None) used then Inl AddressValueError
           else
             let vs = map the used;
                 high = foldl (\<lambda>a v. a * 2 ^ 16 + v) 0 (take hi vs)
             in Inr (foldl (\<lambda>a v. a * 2 ^ 16 + v) (high * 2 ^ (16 * skipped)) (drop hi vs))))"

definition split_scope_id :: "str \<Rightarrow> ip_error + (str \<times> str option)" where
  "split_scope_id s =
    (case split_on (CHR ''%'') s of
       [a] \<Rightarrow> Inr (a, None)
     | [a, z] \<Rightarrow> if z = [] then Inl AddressValueError else Inr (a, Some z)
     | _ \<Rightarrow> Inl AddressValueError)"

definition IPv6Address :: "str \<Rightarrow> ip_error + ipv6_address" where
  "IPv6Address s =
    (if CHR ''/'' \<in> set s then Inl AddressValueError
     else rbind (split_scope_id s) (\<lambda>(a, z). rbind (v6_from_string a) (\<lambda>n. Inr \<lparr>v6_ip = n, v6_scope = z\<rparr>)))"

definition v6_hextets :: "int \<Rightarrow> int list" where
  "v6_hextets n = map (\<lambda>k. n div 2 ^ k mod 2 ^ 16) [112, 96, 80, 64, 48, 32, 16, 0]"

text \<open>The first longest run of zero hextets: start and length.\<close>

fun zero_run :: "int list \<Rightarrow> nat" where
  "zero_run [] = 0"
| "zero_run (h # hs) = (if h = 0 then Suc (zero_run hs) else 0)"

definition best_run :: "int list \<Rightarrow> nat \<times> nat" where
  "best_run hs =
    foldl (\<lambda>(s, l) i. let r = zero_run (drop i hs) in if r > l then (i, r) else (s, l)) (0, 0) [0..<length hs]"

definition v6_str :: "ipv6_address \<Rightarrow> str" where
  "v6_str a =
    (let hs = v6_hextets (v6_ip a);
         ts = map (\<lambda>h. hex_of_nat (nat h)) hs;
         (s, l) = best_run hs;
         parts = (if l \<le> 1 then ts
                  else (if s = 0 then [[]] else []) @ take s ts @ [[]] @ drop (s + l) ts @ (if s + l = 8 then [[]] else []))
     in join '':'' parts @ (case v6_scope a of None \<Rightarrow> [] | Some z \<Rightarrow> ''%'' @ z))"

record ipv6_network =
  network_address6 :: ipv6_address
  prefixlen6 :: int

definition IPv6Network :: "str \<Rightarrow> bool \<Rightarrow> ip_error + ipv6_network" where
  "IPv6Network s strict =
    rbind (split_addr_prefix s) (\<lambda>(a, m).
    rbind (IPv6Address a) (\<lambda>n.
    rbind (case m of None \<Rightarrow> Inr 128 | Some t \<Rightarrow> prefix_from_prefix_string 128 t) (\<lambda>p.
      if network_base 128 p (v6_ip n) = v6_ip n then Inr \<lparr>network_address6 = n, prefixlen6 = p\<rparr>
      else if strict then Inl HostBitsSet
      else Inr \<lparr>network_address6 = \<lparr>v6_ip = network_base 128 p (v6_ip n), v6_scope = None\<rparr>, prefixlen6 = p\<rparr>)))"

definition v6_network_str :: "ipv6_network \<Rightarrow> str" where
  "v6_network_str w = v6_str (network_address6 w) @ ''/'' @ int_to_dec (prefixlen6 w)"

definition ipv4_mapped :: "ipv6_address \<Rightarrow> int option" where
  "ipv4_mapped a = (if v6_ip a div 2 ^ 32 \<noteq> 0xFFFF then None else Some (v6_ip a mod 2 ^ 32))"

text \<open>
  \<open>ip_address\<close> and \<open>ip_network\<close> try IPv4 first; only an address or netmask error goes on to IPv6,
  an address with host bits set is refused at once. Every failure is a \<open>ValueError\<close>.
\<close>

datatype ip_address_value = V4 int | V6 ipv6_address
datatype ip_network_value = Net4 ipv4_network | Net6 ipv6_network

definition ip_address :: "str \<Rightarrow> ip_error + ip_address_value" where
  "ip_address s =
    (case IPv4Address s of
       Inr n \<Rightarrow> Inr (V4 n)
     | Inl _ \<Rightarrow> (case IPv6Address s of Inr a \<Rightarrow> Inr (V6 a) | Inl _ \<Rightarrow> Inl AddressValueError))"

definition ip_network :: "str \<Rightarrow> bool \<Rightarrow> ip_error + ip_network_value" where
  "ip_network s strict =
    (case IPv4Network s strict of
       Inr w \<Rightarrow> Inr (Net4 w)
     | Inl HostBitsSet \<Rightarrow> Inl HostBitsSet
     | Inl _ \<Rightarrow>
         (case IPv6Network s strict of
            Inr w \<Rightarrow> Inr (Net6 w)
          | Inl HostBitsSet \<Rightarrow> Inl HostBitsSet
          | Inl _ \<Rightarrow> Inl AddressValueError))"

fun ip_address_str :: "ip_address_value \<Rightarrow> str" where
  "ip_address_str (V4 n) = v4_str n"
| "ip_address_str (V6 a) = v6_str a"

fun ip_network_str :: "ip_network_value \<Rightarrow> str" where
  "ip_network_str (Net4 w) = v4_network_str w"
| "ip_network_str (Net6 w) = v6_network_str w"

section \<open>Textual forms\<close>

lemma split_on_nonempty [simp]: "split_on c s \<noteq> []"
  by (induction s) auto

lemma split_on_code [code]:
  "split_on c [] = [[]]"
  "split_on c (x # xs) = (case split_on c xs of [] \<Rightarrow> [] | w # ws \<Rightarrow> if x = c then [] # w # ws else (x # w) # ws)"
  by (simp, cases "split_on c xs") (use split_on_nonempty [of c xs] in auto)

lemma join_split_on: "join [c] (split_on c s) = s"
proof (induction s)
  case (Cons x s)
  then show ?case by (cases "split_on c s") (auto simp: join_Cons split: if_splits)
qed simp

lemma split_on_free: "c \<notin> set x \<Longrightarrow> split_on c x = [x]"
  by (induction x) auto

lemma split_on_append: "c \<notin> set x \<Longrightarrow> split_on c (x @ c # s) = x # split_on c s"
  by (induction x) auto

lemma split_on_join: "xs \<noteq> [] \<Longrightarrow> \<forall>x\<in>set xs. c \<notin> set x \<Longrightarrow> split_on c (join [c] xs) = xs"
proof (induction xs)
  case (Cons x xs)
  then show ?case by (cases "xs = []") (simp_all add: join_Cons split_on_free split_on_append)
qed simp

lemma split_on_parts: "\<forall>x\<in>set (split_on c s). c \<notin> set x \<and> set x \<subseteq> set s"
proof (induction s)
  case (Cons y s)
  obtain z zs where "split_on c s = z # zs" by (cases "split_on c s") auto
  with Cons show ?case by auto
qed simp

lemma hd_nonzero_value: "is_digits s \<Longrightarrow> s \<noteq> [] \<Longrightarrow> hd s \<noteq> CHR ''0'' \<Longrightarrow> 0 < nat_of_dec s"
proof -
  assume s: "is_digits s" "s \<noteq> []" "hd s \<noteq> CHR ''0''"
  then obtain c r where cr: "s = c # r" by (cases s) auto
  have "is_digit c" "c \<noteq> CHR ''0''" using s cr by (simp_all add: is_digits_def)
  then have "(of_char c :: nat) \<noteq> of_char (CHR ''0'')" by (simp only: of_char_eq_iff) simp
  then have "(of_char c :: nat) \<noteq> 48" by simp
  then have "0 < digit_val c" using \<open>is_digit c\<close> by (simp add: is_digit_def digit_val_def)
  then show ?thesis by (simp add: cr nat_of_dec_Cons)
qed

lemma digit_char_val: "is_digit c \<Longrightarrow> digit_char (digit_val c) = c"
  by (simp add: is_digit_def digit_val_def digit_char_def)

lemma nat_to_dec_nat_of_dec:
  "is_digits s \<Longrightarrow> s \<noteq> [] \<Longrightarrow> s = ''0'' \<or> hd s \<noteq> CHR ''0'' \<Longrightarrow> nat_to_dec (nat_of_dec s) = s"
proof (induction s rule: rev_induct)
  case (snoc c s)
  then have c: "is_digit c" "digit_val c < 10" using digit_val_less by (auto simp: is_digits_def)
  show ?case
  proof (cases "s = []")
    case True
    with c show ?thesis by (simp add: nat_of_dec_def nat_to_dec.simps [of "digit_val c"] digit_char_val)
  next
    case False
    with snoc.prems have s: "is_digits s" "hd s \<noteq> CHR ''0''" by (auto simp: is_digits_def)
    have p: "0 < nat_of_dec s" by (rule hd_nonzero_value [OF s(1) False s(2)])
    have "nat_to_dec (nat_of_dec s) = s" using snoc.IH s False by blast
    with p c show ?thesis
      by (simp add: nat_of_dec_snoc nat_to_dec.simps [of "10 * nat_of_dec s + digit_val c"] digit_char_val)
  qed
qed simp

lemma parse_octet_Some: "parse_octet s = Some k \<Longrightarrow> int_to_dec k = s \<and> 0 \<le> k \<and> k \<le> 255"
  by (auto simp: parse_octet_def int_to_dec_def int_of_dec_eq nat_to_dec_nat_of_dec split: if_splits)

lemma parse_octet_dec: "0 \<le> k \<Longrightarrow> k \<le> 255 \<Longrightarrow> parse_octet (int_to_dec k) = Some k"
proof -
  assume k: "0 \<le> k" "k \<le> 255"
  let ?s = "nat_to_dec (nat k)"
  have "length ?s \<le> 3" using k by (intro length_nat_to_dec_le) auto
  moreover have "hd ?s = CHR ''0'' \<Longrightarrow> ?s = ''0''"
    using nat_to_dec_hd_zero [of "nat k"] by (simp add: nat_to_dec.simps [of 0] digit_char_def)
  moreover have "is_digits ?s" by (simp add: is_digits_def nat_to_dec_digits)
  ultimately show ?thesis using k by (auto simp: parse_octet_def int_to_dec_def int_of_dec_eq)
qed

lemma int_to_dec_chars: "0 \<le> k \<Longrightarrow> c \<in> set (int_to_dec k) \<Longrightarrow> is_digit c"
  using nat_to_dec_digits [of "nat k"] by (auto simp: int_to_dec_def list_all_iff)

lemma dot_slash_not_digit: "\<not> is_digit (CHR ''.'')" "\<not> is_digit (CHR ''/'')" "\<not> is_digit (CHR ''%'')" "\<not> is_digit (CHR '':'')"
  by (simp_all add: is_digit_def)

lemma v4_octets_range: "k \<in> set (v4_octets n) \<Longrightarrow> 0 \<le> k \<and> k \<le> 255"
  by (auto simp: v4_octets_def)

lemma v4_octets_value:
  assumes "0 \<le> n" and "n < 2 ^ 32"
  shows "\<exists>a b c d. v4_octets n = [a, b, c, d] \<and> ((a * 256 + b) * 256 + c) * 256 + d = n"
proof -
  have a: "n div 2 ^ 24 mod 256 = n div 2 ^ 24" using assms by (simp add: int_div_less_self)
  have b: "n div 2 ^ 24 = n div 2 ^ 16 div 256" "n div 2 ^ 16 = n div 2 ^ 8 div 256" "n div 2 ^ 8 = n div 256"
    by (simp_all add: zdiv_zmult2_eq [symmetric])
  have "((n div 2 ^ 24 mod 256 * 256 + n div 2 ^ 16 mod 256) * 256 + n div 2 ^ 8 mod 256) * 256 + n mod 256 = n"
    unfolding a by (simp only: b div_mult_mod_eq)
  then show ?thesis unfolding v4_octets_def by blast
qed

lemma set_join: "set (join sep xs) \<subseteq> set sep \<union> (\<Union>x\<in>set xs. set x)"
  by (induction sep xs rule: join.induct) auto

lemma v4_str_chars: "c \<in> set (v4_str n) \<Longrightarrow> c = CHR ''.'' \<or> is_digit c"
proof -
  assume "c \<in> set (v4_str n)"
  then consider "c \<in> set ''.''" | k where "k \<in> set (v4_octets n)" "c \<in> set (int_to_dec k)"
    using set_join [of "''.''" "map int_to_dec (v4_octets n)"] unfolding v4_str_def by auto
  then show ?thesis
  proof cases
    case 1
    then show ?thesis by simp
  next
    case 2
    then show ?thesis using v4_octets_range int_to_dec_chars by blast
  qed
qed

lemma split_v4_str: "split_on (CHR ''.'') (v4_str n) = map int_to_dec (v4_octets n)"
proof -
  have "\<forall>x\<in>set (map int_to_dec (v4_octets n)). CHR ''.'' \<notin> set x"
    using int_to_dec_chars v4_octets_range dot_slash_not_digit(1) by fastforce
  then show ?thesis unfolding v4_str_def by (intro split_on_join) (simp_all add: v4_octets_def)
qed

lemma IPv4Address_v4_str: "0 \<le> n \<Longrightarrow> n < 2 ^ 32 \<Longrightarrow> IPv4Address (v4_str n) = Inr n"
proof -
  assume n: "0 \<le> n" "n < 2 ^ 32"
  have m: "map parse_octet (split_on (CHR ''.'') (v4_str n)) = map Some (v4_octets n)"
    unfolding split_v4_str using parse_octet_dec v4_octets_range by fastforce
  have "CHR ''/'' \<notin> set (v4_str n)" using v4_str_chars dot_slash_not_digit(2) by fastforce
  moreover obtain a b c d where "v4_octets n = [a, b, c, d]" "((a * 256 + b) * 256 + c) * 256 + d = n"
    using v4_octets_value [OF n] by blast
  ultimately show ?thesis using m by (simp add: IPv4Address_def v4_from_string_def)
qed

lemma v4_value_octets:
  assumes "0 \<le> a" "a \<le> 255" "0 \<le> b" "b \<le> 255" "0 \<le> c" "c \<le> 255" "0 \<le> d" "d \<le> 255"
  shows "v4_octets (((a * 256 + b) * 256 + c) * 256 + d) = [a, b, c, d]"
proof -
  have q: "(x * 256 + y) div 256 = x \<and> (x * 256 + y) mod 256 = y" if "0 \<le> y" "y \<le> 255" for x y :: int
    using that by auto
  let ?n = "((a * 256 + b) * 256 + c) * 256 + d"
  have 1: "?n div 2 ^ 8 = (a * 256 + b) * 256 + c" using q [of d] assms by simp
  have 2: "?n div 2 ^ 16 = a * 256 + b"
    using zdiv_zmult2_eq [of "2 ^ 8" ?n "2 ^ 8"] q [of c "a * 256 + b"] 1 assms by simp
  have 3: "?n div 2 ^ 24 = a"
    using zdiv_zmult2_eq [of "2 ^ 8" ?n "2 ^ 16"] q [of b a] 2 assms by simp
  show ?thesis unfolding v4_octets_def 1 2 3 using assms by (simp only: q mod_pos_pos_trivial)
qed

lemma IPv4Address_Inr: "IPv4Address s = Inr n \<Longrightarrow> v4_str n = s \<and> 0 \<le> n \<and> n < 2 ^ 32"
proof -
  assume *: "IPv4Address s = Inr n"
  then obtain a b c d where m: "map parse_octet (split_on (CHR ''.'') s) = [Some a, Some b, Some c, Some d]"
    and n: "n = ((a * 256 + b) * 256 + c) * 256 + d"
    by (auto simp: IPv4Address_def v4_from_string_def split: if_splits list.splits option.splits)
  then obtain t u v w where p: "split_on (CHR ''.'') s = [t, u, v, w]"
    and q: "parse_octet t = Some a" "parse_octet u = Some b" "parse_octet v = Some c" "parse_octet w = Some d"
    by (auto simp: map_eq_Cons_conv)
  note o = q [THEN parse_octet_Some]
  have "v4_octets n = [a, b, c, d]" unfolding n using o by (intro v4_value_octets) auto
  then have "v4_str n = join ''.'' (split_on (CHR ''.'') s)" using o p by (simp add: v4_str_def)
  then show ?thesis using o unfolding n by (simp add: join_split_on)
qed

section \<open>Networks as intervals\<close>

text \<open>A well-formed network: a prefix length of 0 to 32 and no host bits in the base address.\<close>

definition v4_network_wf :: "ipv4_network \<Rightarrow> bool" where
  "v4_network_wf w \<longleftrightarrow> 0 \<le> prefixlen w \<and> prefixlen w \<le> 32 \<and> 0 \<le> network_address w \<and>
    network_address w < 2 ^ 32 \<and> network_address w mod 2 ^ nat (32 - prefixlen w) = 0"

lemma trailing_zeros_le: "trailing_zeros k n \<le> k"
  by (induction k n rule: trailing_zeros.induct) auto

lemma prefix_from_ip_int_range: "prefix_from_ip_int n = Some p \<Longrightarrow> 0 \<le> p \<and> p \<le> 32"
  using trailing_zeros_le [of 32 n] by (auto simp: prefix_from_ip_int_def Let_def split: if_splits)

lemma prefix_from_prefix_string_range: "prefix_from_prefix_string m s = Inr p \<Longrightarrow> 0 \<le> p \<and> p \<le> m"
  by (auto simp: prefix_from_prefix_string_def int_of_dec_eq split: if_splits)

lemma prefix_from_ip_string_range: "prefix_from_ip_string s = Inr p \<Longrightarrow> 0 \<le> p \<and> p \<le> 32"
  using prefix_from_ip_int_range unfolding prefix_from_ip_string_def
  by (simp split: sum.splits option.splits)

lemma v4_make_netmask_range: "v4_make_netmask s = Inr p \<Longrightarrow> 0 \<le> p \<and> p \<le> 32"
  using prefix_from_prefix_string_range [of 32 s] prefix_from_ip_string_range [of s]
  by (auto simp: v4_make_netmask_def split: sum.splits)

lemma network_base_bounds:
  assumes "0 \<le> p" "p \<le> 32" "0 \<le> n" "n < 2 ^ 32"
  shows "0 \<le> network_base 32 p n" "network_base 32 p n \<le> n" "n < network_base 32 p n + 2 ^ nat (32 - p)"
    "network_base 32 p n mod 2 ^ nat (32 - p) = 0"
proof -
  have e: "32 - nat p = nat (32 - p)" using assms by simp
  have d: "network_base 32 p n = 2 ^ nat (32 - p) * (n div 2 ^ nat (32 - p))"
    unfolding network_base_def e by (simp add: minus_mod_eq_mult_div)
  show "0 \<le> network_base 32 p n" unfolding d using assms by (simp add: pos_imp_zdiv_nonneg_iff)
  show "network_base 32 p n \<le> n" "n < network_base 32 p n + 2 ^ nat (32 - p)"
    unfolding network_base_def e by (auto simp: pos_mod_bound)
  show "network_base 32 p n mod 2 ^ nat (32 - p) = 0" unfolding d by simp
qed

lemma IPv4Network_wf: "IPv4Network s strict = Inr w \<Longrightarrow> v4_network_wf w"
proof -
  assume "IPv4Network s strict = Inr w"
  then obtain a m n p where n: "IPv4Address a = Inr n"
    and p: "(case m of None \<Rightarrow> Inr 32 | Some t \<Rightarrow> v4_make_netmask t) = Inr p"
    and w: "w = \<lparr>network_address = network_base 32 p n, prefixlen = p\<rparr>"
    by (auto simp: IPv4Network_def result_simps split: if_splits)
  have pr: "0 \<le> p" "p \<le> 32" using p v4_make_netmask_range by (auto split: option.splits)
  have nr: "0 \<le> n" "n < 2 ^ 32" using IPv4Address_Inr [OF n] by auto
  note b = network_base_bounds [OF pr nr]
  show ?thesis unfolding v4_network_wf_def w using b pr nr by auto
qed

lemma v4_contains_iff:
  assumes "v4_network_wf w" and "0 \<le> n" and "n < 2 ^ 32"
  shows "v4_contains w n \<longleftrightarrow> network_address w \<le> n \<and> n < network_address w + 2 ^ nat (32 - prefixlen w)"
proof -
  let ?k = "nat (32 - prefixlen w)"
  have p: "0 \<le> prefixlen w" "prefixlen w \<le> 32" using assms by (auto simp: v4_network_wf_def)
  note b = network_base_bounds [OF p assms(2,3)]
  show ?thesis
  proof
    assume "v4_contains w n"
    then show "network_address w \<le> n \<and> n < network_address w + 2 ^ ?k" using b by (simp add: v4_contains_def)
  next
    assume r: "network_address w \<le> n \<and> n < network_address w + 2 ^ ?k"
    obtain q where q: "network_address w = 2 ^ ?k * q" using assms(1) by (auto simp: v4_network_wf_def elim: dvdE)
    have "n div 2 ^ ?k = q" using r unfolding q by (intro int_div_pos_eq [of _ _ _ "n - 2 ^ ?k * q"]) auto
    then have "network_base 32 (prefixlen w) n = network_address w"
      unfolding q network_base_def using p by (simp add: minus_mod_eq_mult_div nat_diff_distrib)
    then show "v4_contains w n" by (simp add: v4_contains_def)
  qed
qed

end
