(* ===== verification/ContractFields.thy ===== *)
theory ContractFields
  imports Identifiers IpAddress
begin

text \<open>
  The field validators of \<open>core/agmind_immune/contracts.py\<close> and the strict model validation that
  runs them. A contract is a table of fields; validating a document against it collects the names
  of missing, invalid and extra members, in the order pydantic reports them, and a \<open>TypeError\<close>
  raised inside a validator is not collected but propagates. Shown here: what each shared
  validator accepts, and that an accepted document has exactly the declared members.
\<close>

section \<open>Definitions\<close>

definition PCC_SPECIAL_USE_REGISTRY_SHA256 :: str where
  "PCC_SPECIAL_USE_REGISTRY_SHA256 = ''e3e39e76d00b1677335db8e9a805c7b9480ea2f4dc9e33f0b93cd3a905128d73''"

datatype contract_error =
    ContractValue str
  | ContractType str
  | FieldErrors "str list"
  | Undecodable decode_error

text \<open>How an error of an identifier derivation leaves a validator that calls it.\<close>

definition lift_ident :: "ident_error + 'a \<Rightarrow> contract_error + 'a" where
  "lift_ident = map_err (\<lambda>e. case e of IdentType m \<Rightarrow> ContractType m | IdentValue m \<Rightarrow> ContractValue m | _ \<Rightarrow> ContractValue [])"

definition check :: "bool \<Rightarrow> str \<Rightarrow> contract_error + unit" where
  "check b message = (if b then Inr () else Inl (ContractValue message))"

abbreviation MAX_UINT64 :: int where "MAX_UINT64 \<equiv> 2 ^ 64 - 1"
abbreviation MIN_INT64 :: int where "MIN_INT64 \<equiv> - (2 ^ 63)"
abbreviation MAX_INT64 :: int where "MAX_INT64 \<equiv> 2 ^ 63 - 1"

subsection \<open>Shared validators\<close>

definition HEX64 :: "str \<Rightarrow> bool" where "HEX64 = hex_text 64"

definition HEX32 :: "str \<Rightarrow> bool" where "HEX32 = hex_text 32"

definition UUID4 :: "str \<Rightarrow> bool" where
  "UUID4 s \<longleftrightarrow> length s = 36 \<and> list_all is_lower_hex (field s 0 8) \<and> field s 8 1 = ''-'' \<and>
    list_all is_lower_hex (field s 9 4) \<and> field s 13 1 = ''-'' \<and> field s 14 1 = ''4'' \<and>
    list_all is_lower_hex (field s 15 3) \<and> field s 18 1 = ''-'' \<and> field s 19 1 \<in> {''8'', ''9'', ''a'', ''b''} \<and>
    list_all is_lower_hex (field s 20 3) \<and> field s 23 1 = ''-'' \<and> list_all is_lower_hex (field s 24 12)"

definition contract_utf8 :: "str \<Rightarrow> str \<Rightarrow> int \<Rightarrow> int \<Rightarrow> contract_error + str" where
  "contract_utf8 value field_name maximum minimum =
    (if \<not> utf8_ok value \<or> int (length value) < minimum \<or> int (length value) > maximum
     then Inl (ContractValue (field_name @ '' must be bounded UTF-8 bytes''))
     else Inr value)"

definition contract_ascii :: "str \<Rightarrow> str \<Rightarrow> int \<Rightarrow> int \<Rightarrow> contract_error + str" where
  "contract_ascii value field_name maximum minimum =
    (if \<not> list_all (\<lambda>c. (of_char c :: nat) < 128) value then Inl (ContractValue (field_name @ '' must be ASCII''))
     else if int (length value) < minimum \<or> int (length value) > maximum
     then Inl (ContractValue (field_name @ '' must be bounded ASCII bytes''))
     else if list_ex (\<lambda>c. \<not> (0x20 \<le> (of_char c :: nat) \<and> (of_char c :: nat) \<le> 0x7E)) value
     then Inl (ContractValue (field_name @ '' must contain printable ASCII''))
     else Inr value)"

text \<open>
  The alternatives of the \<open>IPV4\<close> pattern. The pattern's \<open>\d\<close> also matches digits beyond ASCII;
  those texts are refused by \<open>IPv4Address\<close> with the same \<open>ValueError\<close>, so ASCII digits suffice.
\<close>

definition octet_pattern :: "str \<Rightarrow> bool" where
  "octet_pattern s \<longleftrightarrow>
    (case s of
       [a] \<Rightarrow> is_digit a
     | [a, b] \<Rightarrow> is_digit a \<and> a \<noteq> CHR ''0'' \<and> is_digit b
     | [a, b, c] \<Rightarrow>
         a = CHR ''1'' \<and> is_digit b \<and> is_digit c \<or>
         a = CHR ''2'' \<and> is_digit b \<and> digit_val b \<le> 4 \<and> is_digit c \<or>
         a = CHR ''2'' \<and> b = CHR ''5'' \<and> is_digit c \<and> digit_val c \<le> 5
     | _ \<Rightarrow> False)"

definition IPV4 :: "str \<Rightarrow> bool" where
  "IPV4 s \<longleftrightarrow> (let parts = split_on (CHR ''.'') s in length parts = 4 \<and> list_all octet_pattern parts)"

definition valid_ipv4 :: "str \<Rightarrow> contract_error + str" where
  "valid_ipv4 value =
    (if \<not> IPV4 value then Inl (ContractValue ''IPv4 must be canonical dotted decimal'')
     else case IPv4Address value of
       Inl _ \<Rightarrow> Inl (ContractValue ''invalid IPv4 address'')
     | Inr parsed \<Rightarrow>
         if v4_str parsed \<noteq> value then Inl (ContractValue ''IPv4 must not contain leading zeroes'') else Inr value)"

text \<open>
  \<open>datetime.fromisoformat\<close> on texts of the \<open>TIMESTAMP\<close> pattern, as microseconds since the epoch:
  the fields must be in range and digits of the fraction after the sixth are dropped.
\<close>

definition fromisoformat :: "str \<Rightarrow> time_error + int" where
  "fromisoformat value =
    (case timestamp_fullmatch value of
       None \<Rightarrow> Inl TimestampInvalid
     | Some m \<Rightarrow>
         let year = int_of_dec (tm_year m); month = int_of_dec (tm_month m); day = int_of_dec (tm_day m);
             hour = int_of_dec (tm_hour m); minute = int_of_dec (tm_minute m); second = int_of_dec (tm_second m)
         in
         if \<not> (1 \<le> year \<and> year \<le> 9999 \<and> 1 \<le> month \<and> month \<le> 12) then Inl TimestampInvalid
         else if \<not> (1 \<le> day \<and> day \<le> month_lengths year ! nat (month - 1) \<and> hour \<le> 23 \<and> minute \<le> 59 \<and> second \<le> 59)
         then Inl TimestampInvalid
         else
           let microsecond = (case tm_fraction m of None \<Rightarrow> 0 | Some f \<Rightarrow> int_of_dec (take 6 (ljust9 f)));
               days = date_ordinal year month day - UNIX_EPOCH_ORDINAL
           in Inr ((((days * 24 + hour) * 60 + minute) * 60 + second) * 1000000 + microsecond))"

definition valid_timestamp :: "str \<Rightarrow> contract_error + str" where
  "valid_timestamp value =
    (if timestamp_fullmatch value = None then Inl (ContractValue ''timestamp must be RFC3339Nano UTC ending in Z'')
     else case fromisoformat value of
       Inl _ \<Rightarrow> Inl (ContractValue ''invalid RFC3339 timestamp'')
     | Inr _ \<Rightarrow> Inr value)"

text \<open>\<open>values != sorted(set(values))\<close>, of \<open>_sorted_unique\<close> and \<open>_pcc_sorted_unique\<close>\<close>

definition sorted_unique :: "str list \<Rightarrow> str \<Rightarrow> contract_error + unit" where
  "sorted_unique values field_name =
    (if values \<noteq> sort (remdups values) then Inl (ContractValue (field_name @ '' must be unique and sorted'')) else Inr ())"

text \<open>A loop that validates each item of a list.\<close>

definition each :: "('a \<Rightarrow> contract_error + 'b) \<Rightarrow> 'a list \<Rightarrow> contract_error + unit" where
  "each f xs = rbind (rseq (map f xs)) (\<lambda>_. Inr ())"

definition repo_digests :: "str list \<Rightarrow> contract_error + unit" where
  "repo_digests values =
    rbind (sorted_unique values ''repo_digests'') (\<lambda>_. each (\<lambda>item. contract_utf8 item ''repo digest'' 256 1) values)"

definition pcc_canonical_network :: "str \<Rightarrow> str \<Rightarrow> contract_error + str" where
  "pcc_canonical_network value field_name =
    rbind (contract_ascii value field_name 64 1) (\<lambda>_.
      case ip_network value True of
        Inl _ \<Rightarrow> Inl (ContractValue (field_name @ '' must be a canonical IP network''))
      | Inr network \<Rightarrow>
          if (case network of Net6 w \<Rightarrow> ipv4_mapped (network_address6 w) \<noteq> None | Net4 _ \<Rightarrow> False)
          then Inl (ContractValue (field_name @ '' must not contain IPv4-mapped IPv6 networks''))
          else if ip_network_str network \<noteq> value
          then Inl (ContractValue (field_name @ '' must be a canonical IP network''))
          else Inr value)"

definition pcc_canonical_address :: "str \<Rightarrow> str \<Rightarrow> contract_error + str" where
  "pcc_canonical_address value field_name =
    rbind (contract_ascii value field_name 64 1) (\<lambda>_.
      case ip_address value of
        Inl _ \<Rightarrow> Inl (ContractValue (field_name @ '' must be a canonical IP address''))
      | Inr address \<Rightarrow>
          if (case address of V6 a \<Rightarrow> ipv4_mapped a \<noteq> None | V4 _ \<Rightarrow> False)
          then Inl (ContractValue (field_name @ '' must not contain IPv4-mapped IPv6 addresses''))
          else if ip_address_str address \<noteq> value
          then Inl (ContractValue (field_name @ '' must be a canonical IP address''))
          else Inr value)"

definition pcc_network_tuple :: "str list \<Rightarrow> str \<Rightarrow> contract_error + unit" where
  "pcc_network_tuple values field_name =
    rbind (sorted_unique values field_name) (\<lambda>_. each (\<lambda>value. pcc_canonical_network value field_name) values)"

definition pcc_address_tuple :: "str list \<Rightarrow> str \<Rightarrow> contract_error + unit" where
  "pcc_address_tuple values field_name =
    rbind (sorted_unique values field_name) (\<lambda>_. each (\<lambda>value. pcc_canonical_address value field_name) values)"

definition pcc_ipv4_network_tuple :: "str list \<Rightarrow> str \<Rightarrow> contract_error + unit" where
  "pcc_ipv4_network_tuple values field_name =
    rbind (sorted_unique values field_name) (\<lambda>_.
      each (\<lambda>value.
        rbind (contract_ascii value field_name 18 1) (\<lambda>_.
          case IPv4Network value True of
            Inl _ \<Rightarrow> Inl (ContractValue (field_name @ '' must contain canonical IPv4 networks''))
          | Inr network \<Rightarrow> check (v4_network_str network = value) (field_name @ '' must contain canonical IPv4 networks''))) values)"

definition pcc_ipv4_address_tuple :: "str list \<Rightarrow> str \<Rightarrow> contract_error + unit" where
  "pcc_ipv4_address_tuple values field_name =
    rbind (sorted_unique values field_name) (\<lambda>_.
      each (\<lambda>value.
        rbind (contract_ascii value field_name 15 1) (\<lambda>_.
          case IPv4Address value of
            Inl _ \<Rightarrow> Inl (ContractValue (field_name @ '' must contain canonical IPv4 addresses''))
          | Inr address \<Rightarrow> check (v4_str address = value) (field_name @ '' must contain canonical IPv4 addresses''))) values)"

definition pcc_ascii_tuple :: "str list \<Rightarrow> str \<Rightarrow> int \<Rightarrow> contract_error + unit" where
  "pcc_ascii_tuple values field_name maximum =
    rbind (sorted_unique values field_name) (\<lambda>_. each (\<lambda>value. contract_ascii value field_name maximum 1) values)"

text \<open>\<open>len(text)\<close> counts code points: the octets that do not continue one.\<close>

definition char_count :: "str \<Rightarrow> nat" where
  "char_count s = length (filter (\<lambda>c. \<not> utf8_cont c) s)"

record nested_bounds =
  maximum_string_characters :: int
  maximum_array_items :: int
  maximum_object_properties :: int
  maximum_property_name_characters :: int

fun validate_bounded_nested :: "nested_bounds \<Rightarrow> json \<Rightarrow> nat \<Rightarrow> contract_error + unit" where
  "validate_bounded_nested b JNull depth = Inr ()"
| "validate_bounded_nested b (JBool _) depth = Inr ()"
| "validate_bounded_nested b (JInt i) depth =
    check (MIN_INT64 \<le> i \<and> i \<le> MAX_UINT64) ''nested integer exceeds canonical range''"
| "validate_bounded_nested b JFloat depth = Inl (ContractValue ''nested floating-point value is forbidden'')"
| "validate_bounded_nested b (JStr s) depth =
    rbind (check (utf8_ok s) ''surrogate code points are forbidden'') (\<lambda>_.
      check (int (char_count s) \<le> maximum_string_characters b) ''nested string exceeds schema bound'')"
| "validate_bounded_nested b (JArr vs) depth =
    rbind (check (depth \<le> MAX_JSON_NESTING_DEPTH) ''JSON nesting depth exceeds 64'') (\<lambda>_.
    rbind (check (int (length vs) \<le> maximum_array_items b) ''nested array exceeds schema bound'') (\<lambda>_.
    rbind (rseq (map (\<lambda>v. validate_bounded_nested b v (Suc depth)) vs)) (\<lambda>_. Inr ())))"
| "validate_bounded_nested b (JObj kvs) depth =
    rbind (check (depth \<le> MAX_JSON_NESTING_DEPTH) ''JSON nesting depth exceeds 64'') (\<lambda>_.
    rbind (check (int (length kvs) \<le> maximum_object_properties b) ''nested object exceeds schema bound'') (\<lambda>_.
    rbind (rseq (map (\<lambda>kv.
        rbind (check (utf8_ok (fst kv)) ''surrogate code points are forbidden'') (\<lambda>_.
        rbind (check (int (char_count (fst kv)) \<le> maximum_property_name_characters b) ''nested property name exceeds schema bound'') (\<lambda>_.
          validate_bounded_nested b (snd kv) (Suc depth)))) kvs)) (\<lambda>_. Inr ())))"
| "validate_bounded_nested b JOther depth = Inl (ContractValue ''unsupported nested JSON type'')"

subsection \<open>Field tables\<close>

text \<open>
  A field: its name, whether it is required, and its validator. The validators below are the
  strict types of pydantic: a \<open>str\<close> is only a string, an \<open>int\<close> only an integer (never a Boolean),
  and an optional field also takes \<open>None\<close>.
\<close>

type_synonym validator = "json \<Rightarrow> contract_error + unit"
type_synonym field_spec = "str \<times> bool \<times> validator"

definition type_error :: "contract_error + unit" where
  "type_error = Inl (ContractValue ''type'')"

definition str_field :: "(str \<Rightarrow> contract_error + unit) \<Rightarrow> validator" where
  "str_field f v = (case v of JStr s \<Rightarrow> f s | _ \<Rightarrow> type_error)"

definition text_field :: "(str \<Rightarrow> bool) \<Rightarrow> str \<Rightarrow> validator" where
  "text_field p message = str_field (\<lambda>s. check (p s) message)"

definition literal :: "str list \<Rightarrow> validator" where
  "literal options = text_field (\<lambda>s. s \<in> set options) ''literal_error''"

definition int_field :: "int \<Rightarrow> int \<Rightarrow> validator" where
  "int_field lo hi v = (case v of JInt i \<Rightarrow> check (lo \<le> i \<and> i \<le> hi) ''range'' | _ \<Rightarrow> type_error)"

definition bool_field :: validator where
  "bool_field v = (case v of JBool _ \<Rightarrow> Inr () | _ \<Rightarrow> type_error)"

definition dict_field :: validator where
  "dict_field v = (case v of JObj _ \<Rightarrow> Inr () | _ \<Rightarrow> type_error)"

definition optional :: "validator \<Rightarrow> validator" where
  "optional f v = (case v of JNull \<Rightarrow> Inr () | _ \<Rightarrow> f v)"

text \<open>The strings of a \<open>list[str]\<close>, if every item is one.\<close>

fun str_items :: "json list \<Rightarrow> str list option" where
  "str_items [] = Some []"
| "str_items (JStr s # vs) = map_option ((#) s) (str_items vs)"
| "str_items _ = None"

definition str_list_field :: "int \<Rightarrow> int \<Rightarrow> (str list \<Rightarrow> contract_error + unit) \<Rightarrow> validator" where
  "str_list_field lo hi f v =
    (case v of
       JArr vs \<Rightarrow> (case str_items vs of
           Some ss \<Rightarrow> if int (length ss) < lo \<or> int (length ss) > hi then type_error else f ss
         | None \<Rightarrow> type_error)
     | _ \<Rightarrow> type_error)"

text \<open>\<open>PCCStringTuple\<close>: \<open>_pcc_wire_tuple\<close> raises a \<open>TypeError\<close> for what is not a list.\<close>

definition pcc_wire_tuple :: "json \<Rightarrow> contract_error + json list" where
  "pcc_wire_tuple v =
    (case v of JArr vs \<Rightarrow> Inr vs | _ \<Rightarrow> Inl (ContractType ''PCC array must be an exact list or immutable tuple''))"

definition pcc_tuple_field :: "int \<Rightarrow> (str list \<Rightarrow> contract_error + unit) \<Rightarrow> validator" where
  "pcc_tuple_field hi f v =
    rbind (pcc_wire_tuple v) (\<lambda>vs. str_list_field 0 hi f (JArr vs))"

abbreviation ascii_field :: "str \<Rightarrow> int \<Rightarrow> validator" where
  "ascii_field name maximum \<equiv> str_field (\<lambda>s. rbind (contract_ascii s name maximum 1) (\<lambda>_. Inr ()))"

abbreviation utf8_field :: "str \<Rightarrow> int \<Rightarrow> validator" where
  "utf8_field name maximum \<equiv> str_field (\<lambda>s. rbind (contract_utf8 s name maximum 1) (\<lambda>_. Inr ()))"

abbreviation time_field :: validator where
  "time_field \<equiv> str_field (\<lambda>s. rbind (valid_timestamp s) (\<lambda>_. Inr ()))"

abbreviation ipv4_field :: validator where
  "ipv4_field \<equiv> str_field (\<lambda>s. rbind (valid_ipv4 s) (\<lambda>_. Inr ()))"

abbreviation required :: "str \<Rightarrow> validator \<Rightarrow> field_spec" where "required name f \<equiv> (name, True, f)"
abbreviation option_field :: "str \<Rightarrow> validator \<Rightarrow> field_spec" where "option_field name f \<equiv> (name, False, optional f)"

text \<open>
  Strict validation of a document with \<open>extra="forbid"\<close>: the names of the failing fields in the
  order of the table, then the extra members. The first \<open>TypeError\<close> propagates.
\<close>

fun field_errors :: "field_spec list \<Rightarrow> document \<Rightarrow> contract_error + str list" where
  "field_errors [] doc = Inr []"
| "field_errors ((name, req, f) # fs) doc =
    (case map_of doc name of
       None \<Rightarrow> rbind (field_errors fs doc) (\<lambda>es. Inr (if req then name # es else es))
     | Some v \<Rightarrow>
         (case f v of
            Inl (ContractType m) \<Rightarrow> Inl (ContractType m)
          | Inl _ \<Rightarrow> rbind (field_errors fs doc) (\<lambda>es. Inr (name # es))
          | Inr _ \<Rightarrow> field_errors fs doc))"

definition model_validate :: "field_spec list \<Rightarrow> (document \<Rightarrow> contract_error + unit) \<Rightarrow> document \<Rightarrow> contract_error + document" where
  "model_validate spec after doc =
    rbind (field_errors spec doc) (\<lambda>es.
      let extra = filter (\<lambda>k. k \<notin> set (map fst spec)) (map fst doc) in
      if es @ extra \<noteq> [] then Inl (FieldErrors (es @ extra))
      else rbind (after doc) (\<lambda>_. Inr doc))"

text \<open>\<open>decode_strict(raw, model, max_bytes)\<close>\<close>

definition required_names :: "field_spec list \<Rightarrow> str list" where
  "required_names spec = map fst (filter (\<lambda>s. fst (snd s)) spec)"

definition decode_strict ::
    "field_spec list \<Rightarrow> (document \<Rightarrow> contract_error + unit) \<Rightarrow> bytes \<Rightarrow> int \<Rightarrow> contract_error + document" where
  "decode_strict spec after raw max_bytes =
    rbind (map_err Undecodable (decode_document (required_names spec) raw max_bytes)) (model_validate spec after)"

text \<open>Members of a validated document, with the defaults an absent or null member has.\<close>

definition get_str :: "document \<Rightarrow> str \<Rightarrow> str" where
  "get_str doc name = (case doc_get doc name of JStr s \<Rightarrow> s | _ \<Rightarrow> [])"

definition get_str_opt :: "document \<Rightarrow> str \<Rightarrow> str option" where
  "get_str_opt doc name = (case doc_get doc name of JStr s \<Rightarrow> Some s | _ \<Rightarrow> None)"

definition get_int :: "document \<Rightarrow> str \<Rightarrow> int" where
  "get_int doc name = (case doc_get doc name of JInt i \<Rightarrow> i | _ \<Rightarrow> 0)"

definition get_int_opt :: "document \<Rightarrow> str \<Rightarrow> int option" where
  "get_int_opt doc name = (case doc_get doc name of JInt i \<Rightarrow> Some i | _ \<Rightarrow> None)"

definition get_bool :: "document \<Rightarrow> str \<Rightarrow> bool" where
  "get_bool doc name = (case doc_get doc name of JBool b \<Rightarrow> b | _ \<Rightarrow> False)"

definition get_strs :: "document \<Rightarrow> str \<Rightarrow> str list" where
  "get_strs doc name = (case doc_get doc name of JArr vs \<Rightarrow> (case str_items vs of Some ss \<Rightarrow> ss | None \<Rightarrow> []) | _ \<Rightarrow> [])"

definition get_obj :: "document \<Rightarrow> str \<Rightarrow> document" where
  "get_obj doc name = (case doc_get doc name of JObj kvs \<Rightarrow> kvs | _ \<Rightarrow> [])"

text \<open>\<open>model_dump(exclude_none=True)\<close>\<close>

definition model_dump :: "document \<Rightarrow> document" where
  "model_dump doc = filter (\<lambda>kv. snd kv \<noteq> JNull) doc"

section \<open>What the shared validators accept\<close>

lemma check_Inr [result_simps]: "check b m = Inr u \<longleftrightarrow> b"
  by (simp add: check_def)

lemma each_Inr: "each f xs = Inr u \<longleftrightarrow> (\<forall>x\<in>set xs. is_ok (f x))"
proof (induction xs)
  case (Cons x xs)
  then show ?case by (cases "f x") (auto simp: each_def result_simps is_ok_def)
qed (simp add: each_def)

lemma lift_ident_Inr [result_simps]: "lift_ident r = Inr x \<longleftrightarrow> r = Inr x"
  by (cases r) (simp_all add: lift_ident_def)

lemma contract_ascii_Inr:
  "contract_ascii s n hi lo = Inr t \<longleftrightarrow>
    t = s \<and> lo \<le> int (length s) \<and> int (length s) \<le> hi \<and> (\<forall>c\<in>set s. 0x20 \<le> (of_char c :: nat) \<and> (of_char c :: nat) \<le> 0x7E)"
proof -
  have "0x20 \<le> (of_char c :: nat) \<and> (of_char c :: nat) \<le> 0x7E \<Longrightarrow> (of_char c :: nat) < 128" for c by simp
  then show ?thesis unfolding contract_ascii_def list_all_iff list_ex_iff by (auto simp del: One_nat_def)
qed

lemma sorted_distinct_fixed: "xs = sort (remdups xs) \<longleftrightarrow> sorted_wrt (<) (xs :: 'a :: linorder list)"
proof
  assume "xs = sort (remdups xs)"
  then have "sorted xs \<and> distinct xs" by (metis distinct_remdups distinct_sort sorted_sort)
  then show "sorted_wrt (<) xs" by (simp add: strict_sorted_iff)
next
  assume "sorted_wrt (<) xs"
  then have "sorted xs \<and> distinct xs" by (simp add: strict_sorted_iff)
  then show "xs = sort (remdups xs)" by (simp add: distinct_remdups_id sorted_sort_id)
qed

lemma sorted_unique_Inr: "sorted_unique xs n = Inr u \<longleftrightarrow> sorted_wrt (<) xs"
  unfolding sorted_unique_def using sorted_distinct_fixed [of xs] by simp

lemma digit_le: "is_digit c \<Longrightarrow> digit_val c \<le> 9"
  using digit_val_less [of c] by simp

lemma digit_char_eq: "is_digit c \<Longrightarrow> d < 10 \<Longrightarrow> c = digit_char d \<longleftrightarrow> digit_val c = d"
  by (metis digit_char_val digit_val_digit_char)

lemma digit_chars: "CHR ''0'' = digit_char 0" "CHR ''1'' = digit_char 1" "CHR ''2'' = digit_char 2" "CHR ''5'' = digit_char 5"
  by code_simp+

lemma parse_octet_pattern: "parse_octet s = Some k \<Longrightarrow> octet_pattern s"
proof -
  assume "parse_octet s = Some k"
  then have s: "s \<noteq> []" "\<forall>c\<in>set s. is_digit c" "length s \<le> 3" "s = ''0'' \<or> hd s \<noteq> CHR ''0''" "nat_of_dec s \<le> 255"
    by (auto simp: parse_octet_def is_digits_def list_all_iff int_of_dec_eq split: if_splits)
  then consider a where "s = [a]" | a b where "s = [a, b]" | a b c where "s = [a, b, c]"
    by (auto simp: length_Suc_conv le_Suc_eq numeral_3_eq_3)
  then show ?thesis
  proof cases
    case (3 a b c)
    have d: "is_digit a" "is_digit b" "is_digit c" using s 3 by auto
    have v: "digit_val a * 100 + digit_val b * 10 + digit_val c \<le> 255"
      using s(5) by (simp add: 3 nat_of_dec_def)
    have a0: "digit_val a \<noteq> 0" using s(4) d by (simp add: 3 digit_chars digit_char_eq)
    note dd = d [THEN digit_le]
    have "digit_val a = 1 \<or> digit_val a = 2 \<and> digit_val b \<le> 4 \<or> digit_val a = 2 \<and> digit_val b = 5 \<and> digit_val c \<le> 5"
      using v a0 dd by linarith
    then show ?thesis using d by (auto simp: 3 octet_pattern_def digit_chars digit_char_eq)
  qed (use s in \<open>auto simp: octet_pattern_def\<close>)
qed

lemma valid_ipv4_Inr: "valid_ipv4 s = Inr t \<longleftrightarrow> t = s \<and> (\<exists>n. 0 \<le> n \<and> n < 2 ^ 32 \<and> s = v4_str n)"
proof
  assume "valid_ipv4 s = Inr t"
  then show "t = s \<and> (\<exists>n. 0 \<le> n \<and> n < 2 ^ 32 \<and> s = v4_str n)"
    using IPv4Address_Inr [of s] by (auto simp: valid_ipv4_def split: if_splits sum.splits)
next
  assume a: "t = s \<and> (\<exists>n. 0 \<le> n \<and> n < 2 ^ 32 \<and> s = v4_str n)"
  then obtain n where n: "0 \<le> n" "n < 2 ^ 32" "s = v4_str n" by blast
  have p: "IPv4Address s = Inr n" using IPv4Address_v4_str n by simp
  have "\<forall>x\<in>set (split_on (CHR ''.'') s). \<exists>k. parse_octet x = Some k"
    unfolding n(3) split_v4_str using v4_octets_range parse_octet_dec by auto
  then have "\<forall>x\<in>set (split_on (CHR ''.'') s). octet_pattern x" using parse_octet_pattern by blast
  moreover have "length (split_on (CHR ''.'') s) = 4" unfolding n(3) split_v4_str by (simp add: v4_octets_def)
  ultimately have "IPV4 s" by (simp add: IPV4_def list_all_iff)
  with p n a show "valid_ipv4 s = Inr t" by (simp add: valid_ipv4_def)
qed

section \<open>Validated documents\<close>

lemma field_errors_Nil:
  "field_errors spec doc = Inr [] \<longleftrightarrow>
    (\<forall>(name, req, f)\<in>set spec. case map_of doc name of None \<Rightarrow> \<not> req | Some v \<Rightarrow> f v = Inr ())"
proof (induction spec)
  case (Cons a spec)
  obtain name req f where a: "a = (name, req, f)" by (cases a) auto
  show ?case
  proof (cases "map_of doc name")
    case None
    with Cons a show ?thesis by (auto simp: result_simps)
  next
    case (Some v)
    with Cons a show ?thesis
      by (cases "f v") (auto simp: result_simps split: contract_error.splits)
  qed
qed simp

lemma model_validate_Inr:
  "model_validate spec after doc = Inr d \<longleftrightarrow>
    d = doc \<and> field_errors spec doc = Inr [] \<and> fst ` set doc \<subseteq> fst ` set spec \<and> after doc = Inr ()"
  by (auto simp: model_validate_def result_simps Let_def filter_empty_conv)

text \<open>A required member is present and passed its validator; an optional one passed it if present.\<close>

lemma model_validate_required:
  assumes "model_validate spec after doc = Inr d" and "(name, True, f) \<in> set spec"
  shows "\<exists>v. map_of doc name = Some v \<and> f v = Inr ()"
  using assms unfolding model_validate_Inr field_errors_Nil by (fastforce split: option.splits)

lemma model_validate_optional:
  assumes "model_validate spec after doc = Inr d" and "(name, False, optional f) \<in> set spec"
  shows "doc_get doc name = JNull \<or> f (doc_get doc name) = Inr ()"
proof -
  have "case map_of doc name of None \<Rightarrow> True | Some v \<Rightarrow> optional f v = Inr ()"
    using assms unfolding model_validate_Inr field_errors_Nil by (fastforce split: option.splits)
  then show ?thesis by (auto simp: doc_get_def optional_def split: option.splits json.splits)
qed

lemma str_field_Inr: "str_field f v = Inr () \<longleftrightarrow> (\<exists>s. v = JStr s \<and> f s = Inr ())"
  by (auto simp: str_field_def type_error_def split: json.splits)

lemma text_field_Inr: "text_field p m v = Inr () \<longleftrightarrow> (\<exists>s. v = JStr s \<and> p s)"
  by (auto simp: text_field_def str_field_Inr result_simps)

lemma int_field_Inr: "int_field lo hi v = Inr () \<longleftrightarrow> (\<exists>i. v = JInt i \<and> lo \<le> i \<and> i \<le> hi)"
  by (auto simp: int_field_def type_error_def result_simps split: json.splits)

lemma bool_field_Inr: "bool_field v = Inr () \<longleftrightarrow> (\<exists>b. v = JBool b)"
  by (auto simp: bool_field_def type_error_def split: json.splits)

lemma dict_field_Inr: "dict_field v = Inr () \<longleftrightarrow> (\<exists>kvs. v = JObj kvs)"
  by (auto simp: dict_field_def type_error_def split: json.splits)

lemma str_list_field_Inr:
  "str_list_field lo hi f v = Inr () \<longleftrightarrow>
    (\<exists>vs ss. v = JArr vs \<and> str_items vs = Some ss \<and> lo \<le> int (length ss) \<and> int (length ss) \<le> hi \<and> f ss = Inr ())"
  by (auto simp: str_list_field_def type_error_def split: json.splits option.splits)

lemma literal_Inr: "literal os v = Inr () \<longleftrightarrow> (\<exists>s. v = JStr s \<and> s \<in> set os)"
  by (simp add: literal_def text_field_Inr)

lemmas field_simps_Inr = str_field_Inr text_field_Inr int_field_Inr bool_field_Inr dict_field_Inr str_list_field_Inr literal_Inr

text \<open>The members of validated fields.\<close>

lemma required_str:
  assumes "model_validate spec after doc = Inr d" and "(name, True, str_field f) \<in> set spec"
  shows "map_of doc name = Some (JStr (get_str doc name)) \<and> f (get_str doc name) = Inr ()"
  using model_validate_required [OF assms] by (auto simp: str_field_Inr get_str_def doc_get_def)

lemma required_text:
  assumes "model_validate spec after doc = Inr d" and "(name, True, text_field p m) \<in> set spec"
  shows "map_of doc name = Some (JStr (get_str doc name)) \<and> p (get_str doc name)"
  using required_str [OF assms [unfolded text_field_def]] by (simp add: result_simps)

lemma required_int:
  assumes "model_validate spec after doc = Inr d" and "(name, True, int_field lo hi) \<in> set spec"
  shows "map_of doc name = Some (JInt (get_int doc name)) \<and> lo \<le> get_int doc name \<and> get_int doc name \<le> hi"
  using model_validate_required [OF assms] by (auto simp: int_field_Inr get_int_def doc_get_def)

lemma required_obj:
  assumes "model_validate spec after doc = Inr d" and "(name, True, dict_field) \<in> set spec"
  shows "map_of doc name = Some (JObj (get_obj doc name))"
  using model_validate_required [OF assms] by (auto simp: dict_field_Inr get_obj_def doc_get_def)

section \<open>Bounded values are encodable\<close>

lemma rseq_InrD: "rseq rs = Inr xs \<Longrightarrow> \<forall>r\<in>set rs. is_ok r"
  using rseq_ok [of rs] by simp

lemma bounded_nested_encodes: "is_ok (validate_bounded_nested b v (Suc d)) \<Longrightarrow> is_ok (encode v d)"
proof (induction v d rule: encode.induct)
  case (6 vs d)
  then have "Suc d \<le> MAX_JSON_NESTING_DEPTH" and "\<forall>v\<in>set vs. is_ok (validate_bounded_nested b v (Suc (Suc d)))"
    by (auto simp: is_ok_rbind result_simps dest!: rseq_InrD)
  with 6 show ?case by (auto simp: is_ok_rbind rseq_ok is_ok_iff [symmetric])
next
  case (7 kvs d)
  let ?f = "\<lambda>kv. rbind (check (utf8_ok (fst kv)) ''surrogate code points are forbidden'') (\<lambda>_.
    rbind (check (int (char_count (fst kv)) \<le> maximum_property_name_characters b) ''nested property name exceeds schema bound'') (\<lambda>_.
      validate_bounded_nested b (snd kv) (Suc (Suc d))))"
  from 7(2) have d: "Suc d \<le> MAX_JSON_NESTING_DEPTH" and m: "is_ok (rseq (map ?f kvs))"
    by (auto simp: is_ok_rbind result_simps)
  from m have "\<forall>kv\<in>set kvs. is_ok (?f kv)" unfolding rseq_ok by auto
  then have u: "\<forall>kv\<in>set kvs. utf8_ok (fst kv) \<and> is_ok (validate_bounded_nested b (snd kv) (Suc (Suc d)))"
    by (simp add: is_ok_rbind result_simps)
  have "\<forall>kv\<in>set kvs. is_ok (encode (snd kv) (Suc d))" using 7(1) d u by auto
  with d u show ?case by (auto simp: is_ok_rbind rseq_ok is_ok_iff [symmetric] encode_member_def quote_def)
qed (auto simp: is_ok_rbind check_def quote_def is_ok_def split: if_splits)

section \<open>Instants\<close>

lemma microseconds_of_fraction:
  assumes "is_digits f" and "length f \<le> 9"
  shows "int_of_dec (take 6 (ljust9 f)) = int_of_dec (ljust9 f) div 1000"
proof -
  let ?g = "ljust9 f"
  have g: "is_digits ?g" "length ?g = 9" using assms by (auto simp: ljust9_def is_digits_def is_digit_def list_all_iff)
  have "is_digits (drop 6 ?g)" using g by (simp add: is_digits_def list_all_iff) (meson in_set_dropD)
  then have r: "nat_of_dec (drop 6 ?g) < 10 ^ 3" using nat_of_dec_less [of "drop 6 ?g"] g by (simp add: is_digits_def)
  have "nat_of_dec ?g = nat_of_dec (take 6 ?g) * 10 ^ 3 + nat_of_dec (drop 6 ?g)"
  proof -
    have "nat_of_dec ?g = nat_of_dec (take 6 ?g @ drop 6 ?g)" by simp
    also have "\<dots> = foldl (\<lambda>n c. 10 * n + digit_val c) (nat_of_dec (take 6 ?g)) (drop 6 ?g)"
      unfolding nat_of_dec_def foldl_append ..
    also have "\<dots> = nat_of_dec (take 6 ?g) * 10 ^ length (drop 6 ?g) + nat_of_dec (drop 6 ?g)" by (rule nat_of_dec_foldl)
    finally show ?thesis using g by simp
  qed
  then have "nat_of_dec (take 6 ?g) = nat_of_dec ?g div 1000" using r by simp
  then show ?thesis by (simp add: int_of_dec_eq zdiv_int)
qed

lemma fromisoformat_eq: "fromisoformat s = (case parse_rfc3339nano_utc_ns s of Inl _ \<Rightarrow> Inl TimestampInvalid | Inr ns \<Rightarrow> Inr (ns div 1000))"
proof (cases "timestamp_fullmatch s")
  case None
  then show ?thesis by (simp add: fromisoformat_def parse_rfc3339nano_utc_ns_def)
next
  case (Some m)
  define y where "y = int_of_dec (tm_year m)" 
  define mo where "mo = int_of_dec (tm_month m)"
  define d where "d = int_of_dec (tm_day m)"
  define h where "h = int_of_dec (tm_hour m)"
  define mi where "mi = int_of_dec (tm_minute m)"
  define sc where "sc = int_of_dec (tm_second m)"
  define ns where "ns = (case tm_fraction m of None \<Rightarrow> 0 | Some f \<Rightarrow> int_of_dec (ljust9 f))"
  define us where "us = (case tm_fraction m of None \<Rightarrow> 0 | Some f \<Rightarrow> int_of_dec (take 6 (ljust9 f)))"
  have nonneg: "0 \<le> h" "0 \<le> mi" "0 \<le> sc" by (simp_all add: h_def mi_def sc_def int_of_dec_eq)
  have us: "us = ns div 1000"
    using fullmatch_fraction [of s m] microseconds_of_fraction Some by (auto simp: us_def ns_def split: option.splits)
  have sum: "(a * 1000000000 + ns) div 1000 = a * 1000000 + us" for a :: int
    using div_mult_self1 [of 1000 ns "a * 1000000"] by (simp add: us algebra_simps)
  have days: "days_from_civil y mo d = date_ordinal y mo d - UNIX_EPOCH_ORDINAL" if "1 \<le> mo" "mo \<le> 12"
    using days_from_civil_eq [OF that] by (simp add: date_ordinal_def)
  let ?P = "1 \<le> y \<and> y \<le> 9999 \<and> 1 \<le> mo \<and> mo \<le> 12"
  let ?Q = "1 \<le> d \<and> d \<le> month_lengths y ! nat (mo - 1) \<and> h \<le> 23 \<and> mi \<le> 59 \<and> sc \<le> 59"
  have l: "fromisoformat s = (if \<not> ?P then Inl TimestampInvalid else if \<not> ?Q then Inl TimestampInvalid
      else Inr (((((date_ordinal y mo d - UNIX_EPOCH_ORDINAL) * 24 + h) * 60 + mi) * 60 + sc) * 1000000 + us))"
    unfolding fromisoformat_def Some Let_def y_def mo_def d_def h_def mi_def sc_def us_def by simp
  have r: "parse_rfc3339nano_utc_ns s = (if \<not> ?P then Inl TimestampInvalid else if \<not> ?Q then Inl TimestampInvalid
      else Inr ((((days_from_civil y mo d * 24 + h) * 60 + mi) * 60 + sc) * 1000000000 + ns))"
    unfolding parse_rfc3339nano_utc_ns_def Some Let_def option.case
      y_def [symmetric] mo_def [symmetric] d_def [symmetric] h_def [symmetric] mi_def [symmetric] sc_def [symmetric]
      ns_def [symmetric]
    using nonneg by auto
  show ?thesis
  proof (cases "?P \<and> ?Q")
    case True
    then have "fromisoformat s = Inr ((((days_from_civil y mo d * 24 + h) * 60 + mi) * 60 + sc) * 1000000 + us)"
      and "parse_rfc3339nano_utc_ns s = Inr ((((days_from_civil y mo d * 24 + h) * 60 + mi) * 60 + sc) * 1000000000 + ns)"
      unfolding l r by (simp_all only: days if_True if_False simp_thms)
    then show ?thesis by (simp only: sum sum.case)
  next
    case False
    then show ?thesis unfolding l r by (simp split: if_split)
  qed
qed

lemma valid_timestamp_Inr: "valid_timestamp s = Inr t \<longleftrightarrow> t = s \<and> (\<exists>ns. parse_rfc3339nano_utc_ns s = Inr ns)"
proof -
  have "timestamp_fullmatch s = None \<Longrightarrow> parse_rfc3339nano_utc_ns s = Inl TimestampInvalid"
    by (simp add: parse_rfc3339nano_utc_ns_def)
  then show ?thesis unfolding valid_timestamp_def fromisoformat_eq by (auto split: sum.splits)
qed

section \<open>Canonical IP texts\<close>

lemma pcc_canonical_address_Inr:
  "pcc_canonical_address s n = Inr t \<Longrightarrow> t = s \<and> (\<exists>a. ip_address s = Inr a \<and> ip_address_str a = s)"
  by (auto simp: pcc_canonical_address_def result_simps split: sum.splits if_splits ip_address_value.splits)

lemma pcc_canonical_network_Inr:
  "pcc_canonical_network s n = Inr t \<Longrightarrow> t = s \<and> (\<exists>w. ip_network s True = Inr w \<and> ip_network_str w = s)"
  by (auto simp: pcc_canonical_network_def result_simps split: sum.splits if_splits ip_network_value.splits)

lemma norm_members:
  assumes "json_norm (JObj d) = json_norm (JObj e)" and "distinct (map fst d)" and "distinct (map fst e)"
  shows "map_option json_norm (map_of d k) = map_option json_norm (map_of e k)"
proof -
  let ?n = "\<lambda>kv. (fst kv, json_norm (snd kv))"
  have "sort_key fst (map ?n d) = sort_key fst (map ?n e)" using assms(1) by simp
  then have "set (sort_key fst (map ?n d)) = set (sort_key fst (map ?n e))" by (rule arg_cong)
  then have s: "set (map ?n d) = set (map ?n e)" by (simp only: set_sort)
  have n: "map_option json_norm (map_of x k) = map_of (map ?n x) k" for x
    by (induction x) auto
  have k: "map fst (map ?n x) = map fst x" for x by (induction x) auto
  have "map_of (map ?n d) = map_of (map ?n e)"
    using map_of_inject_set [of "map ?n d" "map ?n e"] assms(2,3) s by (simp only: k)
  then show ?thesis unfolding n by simp
qed

section \<open>Evaluation\<close>

lemma contract_ascii_bits [code]:
  "contract_ascii value field_name maximum minimum =
    (if \<not> list_all (\<lambda>c. \<not> digit7 c) value then Inl (ContractValue (field_name @ '' must be ASCII''))
     else if int (length value) < minimum \<or> int (length value) > maximum
     then Inl (ContractValue (field_name @ '' must be bounded ASCII bytes''))
     else if list_ex (\<lambda>c. \<not> (\<not> digit7 c \<and> (digit6 c \<or> digit5 c) \<and>
       \<not> (digit6 c \<and> digit5 c \<and> digit4 c \<and> digit3 c \<and> digit2 c \<and> digit1 c \<and> digit0 c))) value
     then Inl (ContractValue (field_name @ '' must contain printable ASCII''))
     else Inr value)"
  unfolding contract_ascii_def ascii_bits printable_bits ..

text \<open>A bound on the length of an encoding that needs no sorting and no escaping.\<close>

fun encode_bound :: "json \<Rightarrow> int" where
  "encode_bound JNull = 4"
| "encode_bound (JBool _) = 5"
| "encode_bound (JInt _) = 20"
| "encode_bound (JStr s) = 6 * int (length s) + 2"
| "encode_bound (JArr vs) = 2 + sum_list (map (\<lambda>v. 1 + encode_bound v) vs)"
| "encode_bound (JObj kvs) = 2 + sum_list (map (\<lambda>kv. 4 + 6 * int (length (fst kv)) + encode_bound (snd kv)) kvs)"
| "encode_bound _ = 0"

lemma length_quote: "quote s = Inr t \<Longrightarrow> int (length t) \<le> 6 * int (length s) + 2"
proof -
  have c: "length (quote_char c) \<le> 6" for c by (simp add: quote_char_def Let_def)
  have "length (concat (map quote_char s)) \<le> 6 * length s"
  proof (induction s)
    case (Cons x s)
    then show ?case using c [of x] by simp
  qed simp
  then show "quote s = Inr t \<Longrightarrow> int (length t) \<le> 6 * int (length s) + 2" by (auto simp: quote_def split: if_splits)
qed

lemma length_join: "int (length (join '','' ss)) \<le> sum_list (map (\<lambda>s. 1 + int (length s)) ss)"
proof (induction ss)
  case (Cons s ss)
  then show ?case by (cases ss) auto
qed simp

lemma length_int_to_dec: "- (2 ^ 63) \<le> i \<Longrightarrow> i \<le> 2 ^ 64 - 1 \<Longrightarrow> int (length (int_to_dec i)) \<le> 20"
proof -
  assume i: "- (2 ^ 63) \<le> i" "i \<le> 2 ^ 64 - 1"
  have a: "length (nat_to_dec n) \<le> k" if "n < 10 ^ k" "0 < k" for n k using length_nat_to_dec_le that by blast
  show ?thesis
  proof (cases "i < 0")
    case True
    then have "nat (- i) < 10 ^ 19" using i by simp
    from a [OF this] True show ?thesis by (simp add: int_to_dec_def)
  next
    case False
    then have "nat i < 10 ^ 20" using i by simp
    from a [OF this] False show ?thesis by (simp add: int_to_dec_def)
  qed
qed

lemma encode_bound: "encode v d = Inr s \<Longrightarrow> int (length s) \<le> encode_bound v"
proof (induction v d arbitrary: s rule: encode.induct)
  case (3 i d)
  then show ?case using length_int_to_dec [of i] by (auto split: if_splits)
next
  case (5 t d)
  then show ?case by (auto intro: length_quote)
next
  case (6 vs d)
  from 6(2) obtain ss where ss: "map (\<lambda>v. encode v (Suc d)) vs = map Inr ss" and s: "s = ''['' @ join '','' ss @ '']''"
    and d: "\<not> Suc d > MAX_JSON_NESTING_DEPTH"
    by (auto simp: result_simps rseq_Inr_iff split: if_splits)
  have "list_all2 (\<lambda>v s. encode v (Suc d) = Inr s) vs ss" using ss
    by (induction vs arbitrary: ss) (auto simp: Cons_eq_map_conv)
  then have "sum_list (map (\<lambda>s. 1 + int (length s)) ss) \<le> sum_list (map (\<lambda>v. 1 + encode_bound v) vs)"
    using 6(1) [OF d]
  proof (induction vs ss rule: list_all2_induct)
    case (Cons v vs s ss)
    have "int (length s) \<le> encode_bound v" using Cons by simp
    moreover have "sum_list (map (\<lambda>s. 1 + int (length s)) ss) \<le> sum_list (map (\<lambda>v. 1 + encode_bound v) vs)" using Cons by simp
    ultimately show ?case by simp
  qed simp
  with length_join [of ss] show ?case by (simp add: s)
next
  case (7 kvs d)
  let ?ms = "sort_key fst (map (\<lambda>kv. (fst kv, encode (snd kv) (Suc d))) kvs)"
  from 7(2) obtain ss where ss: "map encode_member ?ms = map Inr ss" and s: "s = ''{'' @ join '','' ss @ ''}''"
    and d: "\<not> Suc d > MAX_JSON_NESTING_DEPTH"
    by (auto simp: result_simps rseq_Inr_iff split: if_splits)
  define f where "f m = (case encode_member m of Inr t \<Rightarrow> int (length t) | Inl _ \<Rightarrow> 0)" for m
  have "sum_list (map (\<lambda>s. 1 + int (length s)) ss) = sum_list (map (\<lambda>m. 1 + f m) ?ms)"
  proof -
    have "map (\<lambda>m. 1 + f m) ?ms = map (\<lambda>r. 1 + (case r of Inr t \<Rightarrow> int (length t) | Inl _ \<Rightarrow> 0)) (map encode_member ?ms)"
      by (simp add: f_def)
    also have "\<dots> = map (\<lambda>s. 1 + int (length s)) ss" unfolding ss by simp
    finally show ?thesis by simp
  qed
  also have "\<dots> = sum_list (map (\<lambda>m. 1 + f m) (map (\<lambda>kv. (fst kv, encode (snd kv) (Suc d))) kvs))"
    unfolding sum_mset_sum_list [symmetric] mset_map mset_sort ..
  also have "\<dots> \<le> sum_list (map (\<lambda>kv. 4 + 6 * int (length (fst kv)) + encode_bound (snd kv)) kvs)"
  proof -
    have ok: "\<exists>t. encode_member (fst kv, encode (snd kv) (Suc d)) = Inr t" if "kv \<in> set kvs" for kv
    proof -
      have "(fst kv, encode (snd kv) (Suc d)) \<in> set ?ms" using that by auto
      then have "encode_member (fst kv, encode (snd kv) (Suc d)) \<in> set (map Inr ss)" unfolding ss [symmetric] by auto
      then show ?thesis by auto
    qed
    have "1 + f (fst kv, encode (snd kv) (Suc d)) \<le> 4 + 6 * int (length (fst kv)) + encode_bound (snd kv)" if m: "kv \<in> set kvs" for kv
    proof -
      obtain t where t: "encode_member (fst kv, encode (snd kv) (Suc d)) = Inr t" using ok m by blast
      then obtain k v where k: "quote (fst kv) = Inr k" and v: "encode (snd kv) (Suc d) = Inr v" and tt: "t = k @ '':'' @ v"
        by (auto simp: encode_member_def result_simps)
      have "int (length v) \<le> encode_bound (snd kv)" using 7(1) d m v by simp
      with length_quote [OF k] t show ?thesis by (simp add: f_def tt)
    qed
    then show ?thesis by (induction kvs) force+
  qed
  finally show ?case using length_join [of ss] by (simp add: s)
qed (auto split: if_splits)

end
