(* ===== verification/Contracts.thy ===== *)
theory Contracts
  imports ContractFields
begin

text \<open>
  The versioned wire contracts of \<open>core/agmind_immune/contracts.py\<close> that do not belong to the PCC
  correlation snapshot. Each contract is a field table and the model validator that runs after it;
  \<open>valid_x H doc\<close> is \<open>X.model_validate(doc)\<close>. Shown here: accepted envelopes and plans are bound to
  their derived identifiers and hashes, the exact arithmetic of the retention and repair records,
  and how precisely the validators compare instants.
\<close>

section \<open>Definitions\<close>

subsection \<open>Event envelopes\<close>

definition EventEnvelopeV1_fields :: "field_spec list" where
  "EventEnvelopeV1_fields =
    [required ''schema_version'' (literal [''agmind.event-envelope.v1'']),
     required ''event_id'' (text_field (hex_id ''evt_'' 64) ''invalid event_id''),
     required ''event_type'' (ascii_field ''event_type'' 64),
     required ''source_id'' (utf8_field ''source_id'' 512),
     required ''source_version'' (ascii_field ''source_version'' 64),
     required ''key_id'' (text_field HEX32 ''invalid key_id''),
     required ''key_epoch'' (int_field 1 MAX_UINT64),
     required ''host_id'' (text_field UUID4 ''identity must be a lowercase UUIDv4''),
     required ''boot_id'' (text_field UUID4 ''identity must be a lowercase UUIDv4''),
     required ''source_sequence'' (int_field 1 MAX_UINT64),
     required ''event_time'' time_field,
     required ''ingest_time'' time_field,
     required ''clock_uncertainty_ms'' (int_field 0 2000),
     option_field ''container_id'' (text_field HEX64 ''container_id must be 64 lowercase hex''),
     option_field ''container_start_time'' time_field,
     option_field ''release_id'' (text_field (hex_id ''rel_'' 32) ''invalid release_id''),
     required ''inventory_generation'' (int_field 0 MAX_UINT64),
     option_field ''inventory_revision'' (int_field 0 MAX_UINT64),
     required ''normalized_fields'' dict_field,
     required ''normalized_fields_sha256'' (text_field HEX64 ''invalid sha256 digest''),
     required ''redaction_flags'' (str_list_field 0 64 (\<lambda>values. pcc_ascii_tuple values ''redaction_flags'' 64)),
     required ''coverage_flags'' (str_list_field 0 64 (\<lambda>values. pcc_ascii_tuple values ''coverage_flags'' 64)),
     required ''source_payload_hash'' (text_field HEX64 ''invalid sha256 digest''),
     required ''source_signature'' (text_field (hex_text 128) ''invalid Ed25519 signature'')]"

definition normalized_bounds :: nested_bounds where
  "normalized_bounds = \<lparr>maximum_string_characters = 8192, maximum_array_items = 128,
    maximum_object_properties = 128, maximum_property_name_characters = 512\<rparr>"

definition normalized_fields_are_bounded :: "(bytes \<Rightarrow> bytes) \<Rightarrow> document \<Rightarrow> contract_error + unit" where
  "normalized_fields_are_bounded H doc =
    (let normalized_fields = JObj (get_obj doc ''normalized_fields'') in
     rbind (lift_ident (canonical normalized_fields)) (\<lambda>raw.
     rbind (check (int (length raw) \<le> 32 * 1024) ''normalized fields exceed 32 KiB'') (\<lambda>_.
     rbind (validate_bounded_nested normalized_bounds normalized_fields 1) (\<lambda>_.
     rbind (check (hexdigest H raw = get_str doc ''normalized_fields_sha256'')
       ''normalized_fields_sha256 does not match normalized_fields'') (\<lambda>_.
     rbind (lift_ident (event_id H (get_str doc ''host_id'') (get_str doc ''boot_id'') (get_int doc ''key_epoch'')
       (get_int doc ''source_sequence'') (get_str doc ''normalized_fields_sha256''))) (\<lambda>derived.
       check (derived = get_str doc ''event_id'') ''event_id does not match locked derivation''))))))"

definition valid_EventEnvelopeV1 :: "(bytes \<Rightarrow> bytes) \<Rightarrow> document \<Rightarrow> contract_error + document" where
  "valid_EventEnvelopeV1 H = model_validate EventEnvelopeV1_fields (normalized_fields_are_bounded H)"

subsection \<open>Falco connect facts\<close>

definition SUCCESS_RESULTS :: "str list" where
  "SUCCESS_RESULTS = [''EINPROGRESS'', ''EINPROGRESS(115)'']"

definition FALCO_SENSOR_REQUIRED_FIELDS :: "str list" where
  "FALCO_SENSOR_REQUIRED_FIELDS =
    [''destination_ipv4'', ''destination_port'', ''falco_container_id_prefix'', ''falco_container_start_ts'',
     ''l4_protocol'', ''proc_exe_path'', ''proc_name'', ''proc_parent_name'']"

definition hex_range :: "nat \<Rightarrow> nat \<Rightarrow> str \<Rightarrow> bool" where
  "hex_range lo hi s \<longleftrightarrow> lo \<le> length s \<and> length s \<le> hi \<and> list_all is_lower_hex s"

definition int_or_str :: validator where
  "int_or_str v = (case v of JInt _ \<Rightarrow> Inr () | JStr _ \<Rightarrow> Inr () | _ \<Rightarrow> type_error)"

definition FalcoConnectV1_fields :: "field_spec list" where
  "FalcoConnectV1_fields =
    [required ''detector_rule'' (utf8_field ''detector_rule'' 512),
     required ''detector_rule_version'' (ascii_field ''detector_rule_version'' 64),
     required ''falco_version'' (ascii_field ''falco_version'' 64),
     required ''event_time'' time_field,
     required ''evt_type'' (literal [''connect'']),
     option_field ''evt_rawres'' (int_field MIN_INT64 MAX_INT64),
     required ''evt_res'' (ascii_field ''evt_res'' 64),
     required ''successful_connect'' bool_field,
     required ''investigation_only'' bool_field,
     option_field ''falco_container_id_prefix'' (text_field (hex_range 12 64) ''invalid Falco container ID prefix''),
     option_field ''falco_container_full_id'' (text_field HEX64 ''Docker full ID must be 64 lowercase hex''),
     option_field ''falco_container_start_ts'' int_or_str,
     option_field ''docker_container_id'' (text_field HEX64 ''Docker full ID must be 64 lowercase hex''),
     option_field ''docker_started_at'' time_field,
     option_field ''image_id'' (text_field (hex_id ''sha256:'' 64) ''invalid immutable image ID''),
     required ''repo_digests'' (str_list_field 0 16 repo_digests),
     option_field ''immutable_spec_sha256'' (text_field HEX64 ''invalid sha256 digest''),
     option_field ''inventory_revision'' (int_field 0 MAX_UINT64),
     option_field ''proc_name'' (utf8_field ''proc_name'' 512),
     option_field ''proc_exe_path'' (utf8_field ''proc_exe_path'' 512),
     option_field ''proc_parent_name'' (utf8_field ''proc_parent_name'' 512),
     option_field ''destination_ipv4'' ipv4_field,
     option_field ''destination_port'' (int_field 1 65535),
     option_field ''l4_protocol'' (ascii_field ''l4_protocol'' 64),
     required ''missing_required_fields'' (str_list_field 0 32 (\<lambda>values. pcc_ascii_tuple values ''missing_required_fields'' 64)),
     required ''raw_event_sha256'' (text_field HEX64 ''invalid sha256 digest'')]"

definition omitted_sensor :: "document \<Rightarrow> str list" where
  "omitted_sensor doc =
    filter (\<lambda>name. doc_get doc name = JNull)
      [''falco_container_id_prefix'', ''falco_container_start_ts'', ''proc_name'', ''proc_exe_path'',
       ''proc_parent_name'', ''destination_ipv4'', ''destination_port'', ''l4_protocol'']"

definition authoritative_fields :: "str list" where
  "authoritative_fields =
    [''docker_container_id'', ''docker_started_at'', ''image_id'', ''immutable_spec_sha256'', ''inventory_revision'']"

definition falco_start_ts_ok :: "document \<Rightarrow> contract_error + unit" where
  "falco_start_ts_ok doc =
    (case doc_get doc ''falco_container_start_ts'' of
       JInt i \<Rightarrow> check (MIN_INT64 \<le> i \<and> i \<le> MAX_INT64) ''falco_container_start_ts integer exceeds int64''
     | JStr s \<Rightarrow> rbind (contract_ascii s ''falco_container_start_ts'' 64 1) (\<lambda>_. Inr ())
     | _ \<Rightarrow> Inr ())"

definition result_and_candidate_semantics :: "document \<Rightarrow> contract_error + unit" where
  "result_and_candidate_semantics doc =
    rbind (falco_start_ts_ok doc) (\<lambda>_.
      let res = get_str doc ''evt_res'';
          rawres = get_int_opt doc ''evt_rawres'';
          completed_success = (res = ''SUCCESS'' \<and> (\<exists>i\<in>set_option rawres. i \<ge> 0));
          nonblocking_success = (res \<in> set SUCCESS_RESULTS \<and> (\<forall>i\<in>set_option rawres. i < 0));
          hard_error = (res \<notin> set (''SUCCESS'' # SUCCESS_RESULTS));
          successful_connect = get_bool doc ''successful_connect'';
          investigation_only = get_bool doc ''investigation_only'';
          reported_missing = get_strs doc ''missing_required_fields'';
          omitted = omitted_sensor doc
      in
      rbind (check (\<not> (res = ''SUCCESS'' \<and> \<not> completed_success)) ''invalid completed Falco result tuple'') (\<lambda>_.
      rbind (check (\<not> (res \<in> set SUCCESS_RESULTS \<and> \<not> nonblocking_success)) ''invalid nonblocking Falco result tuple'') (\<lambda>_.
      rbind (check (\<not> (hard_error \<and> (\<exists>i\<in>set_option rawres. i \<ge> 0))) ''invalid hard-error Falco result tuple'') (\<lambda>_.
      rbind (check (successful_connect = (completed_success \<or> nonblocking_success)) ''successful_connect contradicts Falco result'') (\<lambda>_.
      rbind (check (set reported_missing \<subseteq> set FALCO_SENSOR_REQUIRED_FIELDS) ''unknown missing_required_fields entry'') (\<lambda>_.
      rbind (check (set reported_missing \<inter> set FALCO_SENSOR_REQUIRED_FIELDS = set omitted) ''missing_required_fields does not match sensor omissions'') (\<lambda>_.
      rbind (check (omitted = [] \<or> investigation_only) ''sensor omissions must be investigation-only'') (\<lambda>_.
      rbind (if investigation_only then Inr ()
             else rbind (check (successful_connect \<and> omitted = [] \<and> list_all (\<lambda>name. doc_get doc name \<noteq> JNull) authoritative_fields)
                 ''candidate-capable event lacks authoritative identity'') (\<lambda>_.
               check (reported_missing = []) ''candidate-capable event cannot report missing fields'')) (\<lambda>_.
        check (successful_connect \<or> investigation_only) ''hard errors must be investigation-only'')))))))))"

definition valid_FalcoConnectV1 :: "document \<Rightarrow> contract_error + document" where
  "valid_FalcoConnectV1 = model_validate FalcoConnectV1_fields result_and_candidate_semantics"

subsection \<open>Coverage events\<close>

definition CoverageEventV1_fields :: "field_spec list" where
  "CoverageEventV1_fields =
    [required ''component'' (ascii_field ''component'' 64),
     required ''kind'' (ascii_field ''kind'' 64),
     required ''severity'' (literal [''INFO'', ''WARNING'', ''CRITICAL'']),
     required ''opened_at'' time_field,
     option_field ''closed_at'' time_field,
     option_field ''affected_source_sequence_start'' (int_field 0 MAX_UINT64),
     option_field ''affected_source_sequence_end'' (int_field 0 MAX_UINT64),
     option_field ''dropped_count'' (int_field 0 MAX_UINT64),
     required ''reason_code'' (ascii_field ''reason_code'' 64),
     option_field ''reconcile_generation'' (int_field 0 MAX_UINT64)]"

text \<open>Instants of validated timestamps; the timestamp is well formed where this is used.\<close>

definition instant_us :: "str \<Rightarrow> int" where
  "instant_us s = (case fromisoformat s of Inr t \<Rightarrow> t | Inl _ \<Rightarrow> 0)"

definition intervals_are_ordered :: "document \<Rightarrow> contract_error + unit" where
  "intervals_are_ordered doc =
    rbind (case get_str_opt doc ''closed_at'' of
        None \<Rightarrow> Inr ()
      | Some closed_at \<Rightarrow> check (instant_us (get_str doc ''opened_at'') \<le> instant_us closed_at) ''closed_at precedes opened_at'') (\<lambda>_.
      case (get_int_opt doc ''affected_source_sequence_start'', get_int_opt doc ''affected_source_sequence_end'') of
        (Some a, Some b) \<Rightarrow> check (a \<le> b) ''coverage sequence interval is reversed''
      | _ \<Rightarrow> Inr ())"

definition valid_CoverageEventV1 :: "document \<Rightarrow> contract_error + document" where
  "valid_CoverageEventV1 = model_validate CoverageEventV1_fields intervals_are_ordered"

subsection \<open>Evidence repair and retention\<close>

abbreviation MAX_EVIDENCE_SEGMENT_BYTES :: int where "MAX_EVIDENCE_SEGMENT_BYTES \<equiv> 64 * 1024 * 1024"

definition ZERO_SHA256 :: str where "ZERO_SHA256 = replicate 64 (CHR ''0'')"

definition EvidenceRepairAuthorizeV1_fields :: "field_spec list" where
  "EvidenceRepairAuthorizeV1_fields =
    [required ''schema_version'' (literal [''agmind.evidence-repair-authorize.v1'']),
     required ''repair_id'' (text_field UUID4 ''repair_id must be a lowercase UUIDv4''),
     required ''segment_id'' (text_field UUID4 ''segment_id must be a lowercase UUIDv4''),
     required ''verified_bytes'' (int_field 0 MAX_EVIDENCE_SEGMENT_BYTES),
     required ''discarded_bytes'' (int_field 1 MAX_EVIDENCE_SEGMENT_BYTES),
     required ''discarded_sha256'' (text_field HEX64 ''discarded_sha256 must be 64 lowercase hex''),
     required ''last_verified_frame_sha256'' (text_field HEX64 ''last_verified_frame_sha256 must be 64 lowercase hex''),
     required ''current_chain_head_sha256'' (text_field HEX64 ''current_chain_head_sha256 must be 64 lowercase hex''),
     required ''reason'' (literal [''torn_open_tail''])]"

definition byte_range_and_last_frame_are_exact :: "document \<Rightarrow> contract_error + unit" where
  "byte_range_and_last_frame_are_exact doc =
    rbind (check (get_int doc ''verified_bytes'' + get_int doc ''discarded_bytes'' \<le> MAX_EVIDENCE_SEGMENT_BYTES)
      ''repair byte range exceeds evidence segment maximum'') (\<lambda>_.
      check ((get_int doc ''verified_bytes'' = 0) = (get_str doc ''last_verified_frame_sha256'' = ZERO_SHA256))
        ''last_verified_frame_sha256 must be zero iff verified_bytes is zero'')"

definition valid_EvidenceRepairAuthorizeV1 :: "document \<Rightarrow> contract_error + document" where
  "valid_EvidenceRepairAuthorizeV1 = model_validate EvidenceRepairAuthorizeV1_fields byte_range_and_last_frame_are_exact"

definition EvidenceRepairCompleteV1_fields :: "field_spec list" where
  "EvidenceRepairCompleteV1_fields =
    [required ''schema_version'' (literal [''agmind.evidence-repair-complete.v1'']),
     required ''repair_id'' (text_field UUID4 ''repair_id must be a lowercase UUIDv4''),
     required ''authorization_event_id'' (text_field (hex_id ''evt_'' 64) ''authorization_event_id must be an exact event ID''),
     required ''authorization_content_sha256'' (text_field HEX64 ''authorization_content_sha256 must be 64 lowercase hex''),
     required ''segment_id'' (text_field UUID4 ''segment_id must be a lowercase UUIDv4''),
     required ''verified_bytes'' (int_field 0 MAX_EVIDENCE_SEGMENT_BYTES),
     required ''post_repair_prefix_sha256'' (text_field HEX64 ''post_repair_prefix_sha256 must be 64 lowercase hex''),
     required ''last_verified_frame_sha256'' (text_field HEX64 ''last_verified_frame_sha256 must be 64 lowercase hex''),
     required ''current_chain_head_sha256'' (text_field HEX64 ''current_chain_head_sha256 must be 64 lowercase hex''),
     required ''reason'' (literal [''torn_open_tail_completed''])]"

definition repaired_prefix_and_last_frame_are_exact :: "(bytes \<Rightarrow> bytes) \<Rightarrow> document \<Rightarrow> contract_error + unit" where
  "repaired_prefix_and_last_frame_are_exact H doc =
    rbind (check ((get_int doc ''verified_bytes'' = 0) = (get_str doc ''last_verified_frame_sha256'' = ZERO_SHA256))
        ''last_verified_frame_sha256 must be zero iff verified_bytes is zero'') (\<lambda>_.
      check (\<not> (get_int doc ''verified_bytes'' = 0 \<and> get_str doc ''post_repair_prefix_sha256'' \<noteq> hexdigest H []))
        ''zero-byte repair prefix must hash the empty byte string'')"

definition valid_EvidenceRepairCompleteV1 :: "(bytes \<Rightarrow> bytes) \<Rightarrow> document \<Rightarrow> contract_error + document" where
  "valid_EvidenceRepairCompleteV1 H =
    model_validate EvidenceRepairCompleteV1_fields (repaired_prefix_and_last_frame_are_exact H)"

definition RetentionTombstoneV2_fields :: "field_spec list" where
  "RetentionTombstoneV2_fields =
    [required ''schema_version'' (literal [''agmind.retention-tombstone.v2'']),
     required ''tombstone_id'' (text_field UUID4 ''tombstone_id must be a lowercase UUIDv4''),
     required ''removed_manifest_hashes'' (str_list_field 1 128 (\<lambda>values.
       rbind (check (length values = length (remdups values)) ''removed_manifest_hashes must be unique'') (\<lambda>_.
         check (list_all HEX64 values) ''removed_manifest_hashes must contain lowercase sha256 digests''))),
     required ''first_removed_manifest_sha256'' (text_field HEX64 ''first_removed_manifest_sha256 must be 64 lowercase hex''),
     required ''last_removed_manifest_sha256'' (text_field HEX64 ''last_removed_manifest_sha256 must be 64 lowercase hex''),
     required ''first_retained_manifest_sha256'' (text_field HEX64 ''first_retained_manifest_sha256 must be 64 lowercase hex''),
     required ''removed_bytes'' (int_field 1 MAX_UINT64),
     required ''reason'' (literal [''retention_age_limit'', ''retention_size_limit'', ''retention_age_and_size_limit'']),
     required ''policy_version'' (literal [''agmind-retention-v1'']),
     required ''current_chain_head_sha256'' (text_field HEX64 ''current_chain_head_sha256 must be 64 lowercase hex''),
     required ''manifest_run_sha256'' (text_field HEX64 ''manifest_run_sha256 must be 64 lowercase hex'')]"

definition retention_run_preimage :: "str list \<Rightarrow> ident_error + bytes" where
  "retention_run_preimage hashes =
    rbind (canonical (JArr (map JStr hashes))) (\<lambda>raw. Inr (''AGMIND_RETENTION_RUN_V2'' @ [nul] @ raw))"

definition manifest_run_binding_is_exact :: "(bytes \<Rightarrow> bytes) \<Rightarrow> document \<Rightarrow> contract_error + unit" where
  "manifest_run_binding_is_exact H doc =
    (let hashes = get_strs doc ''removed_manifest_hashes'' in
     rbind (check (get_str doc ''first_removed_manifest_sha256'' = hd hashes) ''first_removed_manifest_sha256 does not match list head'') (\<lambda>_.
     rbind (check (get_str doc ''last_removed_manifest_sha256'' = last hashes) ''last_removed_manifest_sha256 does not match list tail'') (\<lambda>_.
     rbind (lift_ident (retention_run_preimage hashes)) (\<lambda>m.
       check (get_str doc ''manifest_run_sha256'' = hexdigest H m) ''manifest_run_sha256 does not match the ordered manifest run''))))"

definition valid_RetentionTombstoneV2 :: "(bytes \<Rightarrow> bytes) \<Rightarrow> document \<Rightarrow> contract_error + document" where
  "valid_RetentionTombstoneV2 H = model_validate RetentionTombstoneV2_fields (manifest_run_binding_is_exact H)"

definition RetentionBlockedV1_fields :: "field_spec list" where
  "RetentionBlockedV1_fields =
    [required ''schema_version'' (literal [''agmind.retention-blocked.v1'']),
     required ''blocked_id'' (text_field UUID4 ''blocked_id must be a lowercase UUIDv4''),
     required ''target_bytes'' (int_field 1 MAX_UINT64),
     required ''routine_bytes'' (int_field 0 MAX_UINT64),
     required ''protected_bytes'' (int_field 0 MAX_UINT64),
     required ''blocked_bytes'' (int_field 1 MAX_UINT64),
     required ''reason'' (literal [''protected_evidence'', ''required_key_proof'']),
     required ''current_chain_head_sha256'' (text_field HEX64 ''current_chain_head_sha256 must be 64 lowercase hex'')]"

definition blocked_byte_arithmetic_is_exact :: "document \<Rightarrow> contract_error + unit" where
  "blocked_byte_arithmetic_is_exact doc =
    (let routine_bytes = get_int doc ''routine_bytes'';
         protected_bytes = get_int doc ''protected_bytes'';
         target_bytes = get_int doc ''target_bytes'';
         retained_bytes = routine_bytes + protected_bytes
     in
     rbind (check (routine_bytes \<le> MAX_UINT64 - protected_bytes) ''retained byte sum would overflow uint64'') (\<lambda>_.
     rbind (check (target_bytes < retained_bytes) ''retained bytes must exceed target_bytes'') (\<lambda>_.
       check (get_int doc ''blocked_bytes'' = retained_bytes - target_bytes) ''blocked_bytes must equal retained bytes minus target_bytes'')))"

definition valid_RetentionBlockedV1 :: "document \<Rightarrow> contract_error + document" where
  "valid_RetentionBlockedV1 = model_validate RetentionBlockedV1_fields blocked_byte_arithmetic_is_exact"

subsection \<open>Observer identity\<close>

definition ObserverBootBoundaryV1_fields :: "field_spec list" where
  "ObserverBootBoundaryV1_fields =
    [required ''schema_version'' (literal [''agmind.observer-boot-boundary.v1'']),
     required ''kind'' (literal [''observer_boot_boundary'']),
     required ''reason_code'' (literal [''observer_genesis'', ''kernel_boot_id_changed'']),
     option_field ''previous_boot_id'' (text_field UUID4 ''previous_boot_id must be a lowercase UUIDv4''),
     required ''previous_source_sequence'' (int_field 0 MAX_UINT64)]"

definition predecessor_matches_reason :: "document \<Rightarrow> contract_error + unit" where
  "predecessor_matches_reason doc =
    (if get_str doc ''reason_code'' = ''observer_genesis''
     then check (get_str_opt doc ''previous_boot_id'' = None \<and> get_int doc ''previous_source_sequence'' = 0)
       ''observer genesis cannot name a predecessor''
     else check (get_str_opt doc ''previous_boot_id'' \<noteq> None \<and> get_int doc ''previous_source_sequence'' \<noteq> 0)
       ''changed boot requires a valid predecessor'')"

definition valid_ObserverBootBoundaryV1 :: "document \<Rightarrow> contract_error + document" where
  "valid_ObserverBootBoundaryV1 = model_validate ObserverBootBoundaryV1_fields predecessor_matches_reason"

text \<open>\<open>Literal[1]\<close>\<close>

definition ObserverTrustRootV1_fields :: "field_spec list" where
  "ObserverTrustRootV1_fields =
    [required ''schema_version'' (literal [''agmind.observer-trust-root.v1'']),
     required ''host_id'' (text_field UUID4 ''host_id must be a lowercase UUIDv4''),
     required ''key_id'' (text_field HEX32 ''key_id must be 32 lowercase hex''),
     required ''key_epoch'' (int_field 1 1),
     required ''public_key'' (text_field HEX64 ''public_key must be an exact 32-byte lowercase hex key'')]"

definition key_id_matches_public_key :: "(bytes \<Rightarrow> bytes) \<Rightarrow> document \<Rightarrow> contract_error + unit" where
  "key_id_matches_public_key H doc =
    (case fromhex (get_str doc ''public_key'') of
       None \<Rightarrow> Inl (ContractValue ''fromhex'')
     | Some public_key \<Rightarrow>
         check (get_str doc ''key_id'' = take 32 (hexdigest H public_key)) ''observer trust-root key_id mismatch'')"

definition valid_ObserverTrustRootV1 :: "(bytes \<Rightarrow> bytes) \<Rightarrow> document \<Rightarrow> contract_error + document" where
  "valid_ObserverTrustRootV1 H = model_validate ObserverTrustRootV1_fields (key_id_matches_public_key H)"

subsection \<open>Intents and plans\<close>

definition EgressDenyFields :: "field_spec list" where
  "EgressDenyFields =
    [required ''intent_id'' (text_field (hex_id ''int_'' 32) ''invalid intent_id''),
     required ''verb'' (literal [''temporary_egress_deny'']),
     required ''host_id'' (text_field UUID4 ''host_id must be lowercase UUIDv4''),
     required ''docker_container_id'' (text_field HEX64 ''docker_container_id must be 64 lowercase hex''),
     required ''docker_started_at'' time_field,
     required ''image_id'' (text_field (hex_id ''sha256:'' 64) ''invalid immutable image ID''),
     required ''repo_digests'' (str_list_field 0 16 repo_digests),
     required ''immutable_spec_sha256'' (text_field HEX64 ''invalid sha256 digest''),
     required ''inventory_generation'' (int_field 0 MAX_UINT64),
     required ''inventory_revision'' (int_field 0 MAX_UINT64),
     required ''destination_ipv4'' ipv4_field,
     required ''ttl_seconds'' (int_field 30 300),
     required ''evidence_ids'' (str_list_field 1 32 (\<lambda>values.
       rbind (sorted_unique values ''evidence_ids'') (\<lambda>_. check (list_all (hex_id ''evt_'' 64) values) ''invalid evidence ID''))),
     required ''detector_bundle_sha256'' (text_field HEX64 ''invalid sha256 digest''),
     required ''policy_bundle_version'' (ascii_field ''policy_bundle_version'' 64),
     required ''policy_bundle_sha256'' (text_field HEX64 ''invalid sha256 digest''),
     required ''coverage_snapshot_sha256'' (text_field HEX64 ''invalid sha256 digest''),
     required ''created_at'' time_field]"

definition TemporaryEgressDenyIntentV1_fields :: "field_spec list" where
  "TemporaryEgressDenyIntentV1_fields =
    EgressDenyFields @ [required ''schema_version'' (literal [''agmind.temporary-egress-deny-intent.v1''])]"

definition valid_TemporaryEgressDenyIntentV1 :: "document \<Rightarrow> contract_error + document" where
  "valid_TemporaryEgressDenyIntentV1 = model_validate TemporaryEgressDenyIntentV1_fields (\<lambda>_. Inr ())"

definition PreparedTemporaryEgressDenyPlanV1_fields :: "field_spec list" where
  "PreparedTemporaryEgressDenyPlanV1_fields =
    EgressDenyFields @
    [required ''schema_version'' (literal [''agmind.prepared-temporary-egress-deny-plan.v1'']),
     required ''plan_id'' (text_field (hex_id ''plan_'' 32) ''invalid plan_id''),
     required ''boot_id'' (text_field UUID4 ''boot_id must be lowercase UUIDv4''),
     required ''init_pid'' (int_field 1 MAX_UINT64),
     required ''pid_start_ticks'' (int_field 1 MAX_UINT64),
     required ''cgroup_path_sha256'' (text_field HEX64 ''invalid sha256 digest''),
     required ''network_namespace_inode'' (int_field 1 MAX_UINT64),
     required ''docker_network_snapshot_sha256'' (text_field HEX64 ''invalid sha256 digest''),
     required ''special_use_registry_sha256'' (text_field HEX64 ''invalid sha256 digest''),
     required ''management_denylist_sha256'' (text_field HEX64 ''invalid sha256 digest''),
     required ''hard_limits_version'' (literal [''pcc-hard-limits-v1'']),
     required ''prepared_at'' time_field,
     required ''approval_expires_at'' time_field,
     required ''nonce'' (text_field HEX64 ''nonce must encode exactly 32 bytes as lowercase hex''),
     required ''plan_hash'' (text_field HEX64 ''invalid sha256 digest'')]"

definition identifiers_and_expiry_match :: "(bytes \<Rightarrow> bytes) \<Rightarrow> document \<Rightarrow> contract_error + unit" where
  "identifiers_and_expiry_match H doc =
    (case fromhex (get_str doc ''nonce'') of
       None \<Rightarrow> Inl (ContractValue ''fromhex'')
     | Some nonce \<Rightarrow>
         rbind (lift_ident (plan_id H (get_str doc ''intent_id'') nonce)) (\<lambda>expected_id.
         rbind (check (expected_id = get_str doc ''plan_id'') ''plan_id does not match locked derivation'') (\<lambda>_.
         rbind (lift_ident (plan_hash H (model_dump doc))) (\<lambda>expected_hash.
         rbind (check (expected_hash = get_str doc ''plan_hash'') ''plan_hash does not match locked derivation'') (\<lambda>_.
           check (instant_us (get_str doc ''approval_expires_at'') - instant_us (get_str doc ''prepared_at'') = 5 * 60 * 1000000)
             ''approval_expires_at must be exactly five minutes after prepared_at'')))))"

definition valid_PreparedTemporaryEgressDenyPlanV1 :: "(bytes \<Rightarrow> bytes) \<Rightarrow> document \<Rightarrow> contract_error + document" where
  "valid_PreparedTemporaryEgressDenyPlanV1 H =
    model_validate PreparedTemporaryEgressDenyPlanV1_fields (identifiers_and_expiry_match H)"

subsection \<open>Hunter output\<close>

definition bounded_entries :: "str \<Rightarrow> validator" where
  "bounded_entries name = str_list_field 0 8 (each (\<lambda>value. contract_utf8 value name 1024 1))"

definition HunterOutputV1_fields :: "field_spec list" where
  "HunterOutputV1_fields =
    [required ''schema_version'' (literal [''agmind.hunter-output.v1'']),
     required ''hypotheses'' (bounded_entries ''hypotheses''),
     required ''supporting_evidence_ids'' (str_list_field 0 8 (\<lambda>values.
       rbind (sorted_unique values ''supporting_evidence_ids'') (\<lambda>_.
         check (list_all (hex_id ''evt_'' 64) values) ''invalid supporting evidence ID''))),
     required ''refuting_questions'' (bounded_entries ''refuting_questions''),
     required ''narrative'' (str_field (\<lambda>value. rbind (contract_utf8 value ''narrative'' 8192 0) (\<lambda>_. Inr ()))),
     required ''limitations'' (bounded_entries ''limitations'')]"

definition valid_HunterOutputV1 :: "document \<Rightarrow> contract_error + document" where
  "valid_HunterOutputV1 = model_validate HunterOutputV1_fields (\<lambda>_. Inr ())"

subsection \<open>Action records\<close>

definition ACTION_STATES :: "str list" where
  "ACTION_STATES =
    [''PROPOSED'', ''POLICY_ADMITTED'', ''PREPARED'', ''APPROVED'', ''APPLIED'', ''VERIFIED'', ''EXPIRED'',
     ''STALE_ABORT'', ''REJECTED'', ''FAILED_DIRTY'', ''EXPIRED_UNAPPLIED'']"

definition ActionRecordV1_fields :: "field_spec list" where
  "ActionRecordV1_fields =
    [required ''schema_version'' (literal [''agmind.action-record.v1'']),
     required ''record_id'' (text_field (hex_id ''ar_'' 32) ''invalid record_id''),
     option_field ''action_id'' (text_field (hex_id ''act_'' 32) ''invalid action_id''),
     required ''plan_id'' (text_field (hex_id ''plan_'' 32) ''invalid plan_id''),
     required ''plan_hash'' (text_field HEX64 ''invalid sha256 digest''),
     required ''state'' (text_field (\<lambda>s. s \<in> set ACTION_STATES) ''invalid action state''),
     required ''reason_code'' (ascii_field ''reason_code'' 64),
     required ''observed_at'' time_field,
     required ''previous_record_sha256'' (text_field HEX64 ''invalid sha256 digest''),
     required ''record_sha256'' (text_field HEX64 ''invalid sha256 digest''),
     required ''details'' dict_field,
     required ''actuator_key_id'' (text_field HEX32 ''invalid actuator_key_id''),
     required ''actuator_signature'' (text_field (hex_text 128) ''invalid actuator signature'')]"

definition details_bounds :: nested_bounds where
  "details_bounds = \<lparr>maximum_string_characters = 1024, maximum_array_items = 64,
    maximum_object_properties = 64, maximum_property_name_characters = 64\<rparr>"

definition record_hashes_match :: "(bytes \<Rightarrow> bytes) \<Rightarrow> document \<Rightarrow> contract_error + unit" where
  "record_hashes_match H doc =
    (let details = JObj (get_obj doc ''details'') in
     rbind (validate_bounded_nested details_bounds details 1) (\<lambda>_.
     rbind (lift_ident (canonical details)) (\<lambda>raw.
     rbind (check (int (length raw) \<le> 32 * 1024) ''action details exceed 32 KiB'') (\<lambda>_.
     rbind (case get_str_opt doc ''action_id'' of
         None \<Rightarrow> Inr ()
       | Some value \<Rightarrow> rbind (lift_ident (action_id H (get_str doc ''plan_hash''))) (\<lambda>derived.
           check (value = derived) ''action_id does not match plan_hash'')) (\<lambda>_.
     rbind (lift_ident (action_record_hash H (model_dump doc))) (\<lambda>expected.
     rbind (check (get_str doc ''record_sha256'' = expected) ''record_sha256 does not match locked derivation'') (\<lambda>_.
     rbind (lift_ident (action_record_id expected)) (\<lambda>expected_id.
       check (get_str doc ''record_id'' = expected_id) ''record_id does not match record_sha256''))))))))"

definition valid_ActionRecordV1 :: "(bytes \<Rightarrow> bytes) \<Rightarrow> document \<Rightarrow> contract_error + document" where
  "valid_ActionRecordV1 H = model_validate ActionRecordV1_fields (record_hashes_match H)"

subsection \<open>Key transitions\<close>

definition KeyTransitionV1_fields :: "field_spec list" where
  "KeyTransitionV1_fields =
    [required ''schema_version'' (literal [''agmind.key-transition.v1'']),
     required ''old_key_id'' (text_field HEX32 ''invalid key_id''),
     required ''new_key_id'' (text_field HEX32 ''invalid key_id''),
     required ''old_epoch'' (int_field 1 MAX_UINT64),
     required ''new_epoch'' (int_field 2 MAX_UINT64),
     required ''new_public_key'' (text_field HEX64 ''new_public_key must contain 32 bytes''),
     required ''host_id'' (text_field UUID4 ''host_id must be lowercase UUIDv4''),
     required ''occurred_at'' time_field,
     required ''old_signature'' (text_field (hex_text 128) ''invalid Ed25519 signature''),
     required ''new_signature'' (text_field (hex_text 128) ''invalid Ed25519 signature'')]"

definition epochs_and_new_key_match :: "(bytes \<Rightarrow> bytes) \<Rightarrow> document \<Rightarrow> contract_error + unit" where
  "epochs_and_new_key_match H doc =
    rbind (check (get_int doc ''new_epoch'' = get_int doc ''old_epoch'' + 1) ''key epochs must be consecutive'') (\<lambda>_.
      case fromhex (get_str doc ''new_public_key'') of
        None \<Rightarrow> Inl (ContractValue ''fromhex'')
      | Some public_key \<Rightarrow>
          rbind (lift_ident (key_id H public_key)) (\<lambda>derived.
          rbind (check (get_str doc ''new_key_id'' = derived) ''new_key_id does not bind new_public_key'') (\<lambda>_.
            check (get_str doc ''old_key_id'' \<noteq> get_str doc ''new_key_id'') ''key transition must change keys'')))"

definition valid_KeyTransitionV1 :: "(bytes \<Rightarrow> bytes) \<Rightarrow> document \<Rightarrow> contract_error + document" where
  "valid_KeyTransitionV1 H = model_validate KeyTransitionV1_fields (epochs_and_new_key_match H)"

section \<open>Envelopes and their identifiers\<close>

definition collides :: "(bytes \<Rightarrow> bytes) \<Rightarrow> bytes \<Rightarrow> bytes \<Rightarrow> bool" where
  "collides H x y \<longleftrightarrow> x \<noteq> y \<and> H x = H y"

text \<open>The octets an envelope's identifier and its normalized-fields digest are computed from.\<close>

definition event_id_message :: "document \<Rightarrow> bytes" where
  "event_id_message doc =
    ''AGMIND_EVENT_ID_V1'' @ [nul] @ get_str doc ''host_id'' @ [nul] @ get_str doc ''boot_id'' @ [nul] @
    the (to_bytes8 (get_int doc ''key_epoch'')) @ the (to_bytes8 (get_int doc ''source_sequence'')) @
    the (fromhex (get_str doc ''normalized_fields_sha256''))"

definition normalized_message :: "document \<Rightarrow> bytes" where
  "normalized_message doc = (case canonical (JObj (get_obj doc ''normalized_fields'')) of Inr raw \<Rightarrow> raw | Inl _ \<Rightarrow> [])"

lemma event_id_Inr:
  "event_id H host boot epoch sq dg = Inr i \<longleftrightarrow>
    (\<exists>n a b. fromhex dg = Some n \<and> length n = 32 \<and> to_bytes8 epoch = Some a \<and> to_bytes8 sq = Some b \<and>
      ascii host ''host_id'' = Inr host \<and> ascii boot ''boot_id'' = Inr boot \<and>
      i = ''evt_'' @ hexdigest H (''AGMIND_EVENT_ID_V1'' @ [nul] @ host @ [nul] @ boot @ [nul] @ a @ b @ n))"
  unfolding event_id_def by (auto simp: result_simps ascii_Inr split: option.splits if_splits)

lemma is_lower_hex_nul: "\<not> is_lower_hex nul" "nul \<noteq> CHR ''-''"
  by (simp_all add: is_lower_hex_def is_digit_def)

lemma field_drop: "drop i s = field s i k @ drop (i + k) s"
  by (simp add: field_def) (metis append_take_drop_id drop_drop add.commute)

lemma UUID4_no_nul: "UUID4 s \<Longrightarrow> nul \<notin> set s"
proof -
  assume u: "UUID4 s"
  have "drop 0 s = field s 0 8 @ field s 8 1 @ field s 9 4 @ field s 13 1 @ field s 14 1 @ field s 15 3 @ field s 18 1 @
      field s 19 1 @ field s 20 3 @ field s 23 1 @ field s 24 12 @ drop 36 s"
    using field_drop [of 0 s 8] field_drop [of 8 s 1] field_drop [of 9 s 4] field_drop [of 13 s 1] field_drop [of 14 s 1]
      field_drop [of 15 s 3] field_drop [of 18 s 1] field_drop [of 19 s 1] field_drop [of 20 s 3] field_drop [of 23 s 1]
      field_drop [of 24 s 12]
    by simp
  moreover have "drop 36 s = []" using u by (simp add: UUID4_def)
  ultimately have "set s = set (field s 0 8) \<union> set (field s 8 1) \<union> set (field s 9 4) \<union> set (field s 13 1) \<union>
      set (field s 14 1) \<union> set (field s 15 3) \<union> set (field s 18 1) \<union> set (field s 19 1) \<union> set (field s 20 3) \<union>
      set (field s 23 1) \<union> set (field s 24 12)"
    by (metis drop0 set_append sup_assoc append_Nil2)
  moreover have hex: "nul \<notin> set t" if "list_all is_lower_hex t" for t
    using that is_lower_hex_nul(1) by (auto simp: list_all_iff)
  moreover have "nul \<notin> set (field s 8 1)" "nul \<notin> set (field s 13 1)" "nul \<notin> set (field s 14 1)"
    "nul \<notin> set (field s 18 1)" "nul \<notin> set (field s 23 1)"
    using u unfolding UUID4_def by simp_all
  moreover have "nul \<notin> set (field s 19 1)" using u unfolding UUID4_def by auto
  ultimately show ?thesis using u unfolding UUID4_def by blast
qed

lemma envelope_facts:
  assumes "valid_EventEnvelopeV1 H d = Inr d'"
  shows "d' = d" and "UUID4 (get_str d ''host_id'')" and "UUID4 (get_str d ''boot_id'')"
    and "get_str d ''event_id'' = ''evt_'' @ hexdigest H (event_id_message d)"
    and "get_str d ''normalized_fields_sha256'' = hexdigest H (normalized_message d)"
    and "canonical (JObj (get_obj d ''normalized_fields'')) = Inr (normalized_message d)"
    and "\<exists>a b n. to_bytes8 (get_int d ''key_epoch'') = Some a \<and> to_bytes8 (get_int d ''source_sequence'') = Some b \<and>
      fromhex (get_str d ''normalized_fields_sha256'') = Some n \<and> length n = 32"
proof -
  note v = assms [unfolded valid_EventEnvelopeV1_def]
  show "d' = d" using v by (simp add: model_validate_Inr)
  show "UUID4 (get_str d ''host_id'')"
    by (rule required_text [OF v, THEN conjunct2]) (simp add: EventEnvelopeV1_fields_def)
  show "UUID4 (get_str d ''boot_id'')"
    by (rule required_text [OF v, THEN conjunct2]) (simp add: EventEnvelopeV1_fields_def)
  have a: "normalized_fields_are_bounded H d = Inr ()" using v by (simp add: model_validate_Inr)
  then obtain raw where raw: "canonical (JObj (get_obj d ''normalized_fields'')) = Inr raw"
    and h: "hexdigest H raw = get_str d ''normalized_fields_sha256''"
    and e: "event_id H (get_str d ''host_id'') (get_str d ''boot_id'') (get_int d ''key_epoch'')
       (get_int d ''source_sequence'') (get_str d ''normalized_fields_sha256'') = Inr (get_str d ''event_id'')"
    unfolding normalized_fields_are_bounded_def Let_def result_simps by blast
  have m: "normalized_message d = raw" by (simp add: normalized_message_def raw)
  show "get_str d ''normalized_fields_sha256'' = hexdigest H (normalized_message d)" using h m by simp
  show "canonical (JObj (get_obj d ''normalized_fields'')) = Inr (normalized_message d)" using raw m by simp
  from e obtain n a b where n: "fromhex (get_str d ''normalized_fields_sha256'') = Some n" "length n = 32"
    "to_bytes8 (get_int d ''key_epoch'') = Some a" "to_bytes8 (get_int d ''source_sequence'') = Some b"
    and i: "get_str d ''event_id'' = ''evt_'' @ hexdigest H (''AGMIND_EVENT_ID_V1'' @ [nul] @ get_str d ''host_id'' @
      [nul] @ get_str d ''boot_id'' @ [nul] @ a @ b @ n)"
    unfolding event_id_Inr by blast
  show "\<exists>a b n. to_bytes8 (get_int d ''key_epoch'') = Some a \<and> to_bytes8 (get_int d ''source_sequence'') = Some b \<and>
      fromhex (get_str d ''normalized_fields_sha256'') = Some n \<and> length n = 32" using n by blast
  show "get_str d ''event_id'' = ''evt_'' @ hexdigest H (event_id_message d)"
    unfolding i event_id_message_def n option.sel ..
qed

lemma event_id_message_inject:
  assumes d: "valid_EventEnvelopeV1 H d = Inr d'" and e: "valid_EventEnvelopeV1 H e = Inr e'"
    and eq: "event_id_message d = event_id_message e"
  shows "get_str d ''host_id'' = get_str e ''host_id''" and "get_str d ''boot_id'' = get_str e ''boot_id''"
    and "get_int d ''key_epoch'' = get_int e ''key_epoch''"
    and "get_int d ''source_sequence'' = get_int e ''source_sequence''"
    and "fromhex (get_str d ''normalized_fields_sha256'') = fromhex (get_str e ''normalized_fields_sha256'')"
proof -
  obtain a b n where 1: "to_bytes8 (get_int d ''key_epoch'') = Some a" "to_bytes8 (get_int d ''source_sequence'') = Some b"
    "fromhex (get_str d ''normalized_fields_sha256'') = Some n" using envelope_facts(7) [OF d] by blast
  obtain a' b' n' where 2: "to_bytes8 (get_int e ''key_epoch'') = Some a'" "to_bytes8 (get_int e ''source_sequence'') = Some b'"
    "fromhex (get_str e ''normalized_fields_sha256'') = Some n'" using envelope_facts(7) [OF e] by blast
  note nn = envelope_facts(2,3) [OF d, THEN UUID4_no_nul] envelope_facts(2,3) [OF e, THEN UUID4_no_nul]
  from eq have eq': "get_str d ''host_id'' @ nul # get_str d ''boot_id'' @ nul # a @ b @ n =
      get_str e ''host_id'' @ nul # get_str e ''boot_id'' @ nul # a' @ b' @ n'"
    unfolding event_id_message_def 1 2 option.sel by simp
  have h: "get_str d ''host_id'' = get_str e ''host_id''"
    and r: "get_str d ''boot_id'' @ nul # a @ b @ n = get_str e ''boot_id'' @ nul # a' @ b' @ n'"
    using split_at_nul [OF eq' nn(1,3)] by auto
  have b: "get_str d ''boot_id'' = get_str e ''boot_id''" and t: "a @ b @ n = a' @ b' @ n'"
    using split_at_nul [OF r nn(2,4)] by auto
  have l: "length a = 8" "length a' = 8" "length b = 8" "length b' = 8" using 1 2 to_bytes8_Some by blast+
  have "a = a'" "b = b'" "n = n'" using t l by auto
  then show "get_int d ''key_epoch'' = get_int e ''key_epoch''" "get_int d ''source_sequence'' = get_int e ''source_sequence''"
    "fromhex (get_str d ''normalized_fields_sha256'') = fromhex (get_str e ''normalized_fields_sha256'')"
    using 1 2 to_bytes8_inject by auto
  show "get_str d ''host_id'' = get_str e ''host_id''" "get_str d ''boot_id'' = get_str e ''boot_id''" using h b by auto
qed

lemma fromhex_hexdigest: "fromhex (hexlify b) = Some b"
proof -
  have v: "hex_val (hex_digit_char n) = Some n \<and> \<not> is_ascii_space (hex_digit_char n)" if "n < 16" for n
    using of_char_hex_digit [OF that] that by (auto simp: hex_val_def is_ascii_space_def Let_def)
  show ?thesis
  proof (induction b)
    case (Cons c b)
    have "char_of (16 * (of_char c div 16) + of_char c mod 16 :: nat) = c"
      by (metis char_of_char mult_div_mod_eq)
    with Cons v [of "of_char c div 16"] v [of "of_char c mod 16"] show ?case
      by (simp add: hexlify_Cons less_mult_imp_div_less)
  qed simp
qed

section \<open>Connect facts\<close>

lemma falco_facts:
  assumes "valid_FalcoConnectV1 d = Inr d'" and "\<not> get_bool d ''investigation_only''"
  shows "get_bool d ''successful_connect''" and "get_strs d ''missing_required_fields'' = []"
    and "\<forall>k\<in>set FALCO_SENSOR_REQUIRED_FIELDS \<union> set authoritative_fields. doc_get d k \<noteq> JNull"
    and "get_str d ''evt_res'' = ''SUCCESS'' \<and> (\<exists>i\<ge>0. get_int_opt d ''evt_rawres'' = Some i) \<or>
      get_str d ''evt_res'' \<in> set SUCCESS_RESULTS \<and> (\<forall>i. get_int_opt d ''evt_rawres'' = Some i \<longrightarrow> i < 0)"
proof -
  have a: "result_and_candidate_semantics d = Inr ()"
    using assms(1) by (simp add: valid_FalcoConnectV1_def model_validate_Inr)
  note s = a [unfolded result_and_candidate_semantics_def Let_def result_simps]
  show "get_bool d ''successful_connect''" and m: "get_strs d ''missing_required_fields'' = []"
    using s assms(2) by (auto simp: result_simps)
  have o: "omitted_sensor d = []" and l: "list_all (\<lambda>name. doc_get d name \<noteq> JNull) authoritative_fields"
    using s assms(2) by (auto simp: result_simps)
  have "set FALCO_SENSOR_REQUIRED_FIELDS \<subseteq> {''falco_container_id_prefix'', ''falco_container_start_ts'', ''proc_name'', ''proc_exe_path'',
       ''proc_parent_name'', ''destination_ipv4'', ''destination_port'', ''l4_protocol''}"
    by (simp add: FALCO_SENSOR_REQUIRED_FIELDS_def)
  with o l show "\<forall>k\<in>set FALCO_SENSOR_REQUIRED_FIELDS \<union> set authoritative_fields. doc_get d k \<noteq> JNull"
    unfolding omitted_sensor_def filter_empty_conv list_all_iff by auto
  show "get_str d ''evt_res'' = ''SUCCESS'' \<and> (\<exists>i\<ge>0. get_int_opt d ''evt_rawres'' = Some i) \<or>
      get_str d ''evt_res'' \<in> set SUCCESS_RESULTS \<and> (\<forall>i. get_int_opt d ''evt_rawres'' = Some i \<longrightarrow> i < 0)"
    using s \<open>get_bool d ''successful_connect''\<close> by auto
qed

section \<open>Retention and repair\<close>

lemma retention_blocked_facts:
  assumes "valid_RetentionBlockedV1 d = Inr d'"
  shows "get_int d ''blocked_bytes'' = get_int d ''routine_bytes'' + get_int d ''protected_bytes'' - get_int d ''target_bytes''"
    and "0 < get_int d ''blocked_bytes''" and "get_int d ''routine_bytes'' + get_int d ''protected_bytes'' \<le> MAX_UINT64"
  using assms
  by (auto simp: valid_RetentionBlockedV1_def model_validate_Inr blocked_byte_arithmetic_is_exact_def Let_def result_simps)

text \<open>The octets a tombstone's run hash is computed from.\<close>

definition run_message :: "document \<Rightarrow> bytes" where
  "run_message d = (case retention_run_preimage (get_strs d ''removed_manifest_hashes'') of Inr m \<Rightarrow> m | Inl _ \<Rightarrow> [])"

lemma tombstone_facts:
  assumes "valid_RetentionTombstoneV2 H d = Inr d'"
  shows "get_str d ''manifest_run_sha256'' = hexdigest H (run_message d)"
    and "retention_run_preimage (get_strs d ''removed_manifest_hashes'') = Inr (run_message d)"
    and "hd (get_strs d ''removed_manifest_hashes'') = get_str d ''first_removed_manifest_sha256''"
    and "last (get_strs d ''removed_manifest_hashes'') = get_str d ''last_removed_manifest_sha256''"
  using assms
  by (auto simp: valid_RetentionTombstoneV2_def model_validate_Inr manifest_run_binding_is_exact_def Let_def result_simps
    run_message_def)

lemma retention_run_preimage_inject:
  assumes "retention_run_preimage xs = Inr m" and "retention_run_preimage ys = Inr m"
  shows "xs = ys"
proof -
  obtain r where r: "canonical (JArr (map JStr xs)) = Inr r" "canonical (JArr (map JStr ys)) = Inr r"
    using assms by (auto simp: retention_run_preimage_def result_simps)
  have "json_wf (JArr (map JStr zs))" for zs by (simp add: list_all_iff)
  with canonical_norm [OF r] have "json_norm (JArr (map JStr xs)) = json_norm (JArr (map JStr ys))" by blast
  then show ?thesis by (simp add: inj_map_eq_map inj_def o_def)
qed

end
