(* ===== verification/ContractProps.thy ===== *)
theory ContractProps
  imports Contracts
begin

text \<open>
  Properties of the wire contracts of \<open>Contracts\<close>: identifiers and hashes of accepted documents fix
  their content, and the bounds the validators enforce. The example documents are accepted by the
  model under a constant digest, which shows that the hypotheses can hold.
\<close>

section \<open>Properties\<close>

text \<open>
  C21. An event identifier fixes what the event says and where it stands: two accepted envelopes
  with the same \<open>event_id\<close> agree in host, boot, key epoch, source sequence and normalized fields (as
  a Python dictionary), unless the digest collides on the two explicit preimages.
\<close>

theorem event_id_binds_envelope:
  assumes "valid_EventEnvelopeV1 H d = Inr d'" and "valid_EventEnvelopeV1 H e = Inr e'"
    and "json_wf (JObj (get_obj d ''normalized_fields''))" and "json_wf (JObj (get_obj e ''normalized_fields''))"
    and "get_str d ''event_id'' = get_str e ''event_id''"
  shows "(get_str d ''host_id'' = get_str e ''host_id'' \<and> get_str d ''boot_id'' = get_str e ''boot_id'' \<and>
      get_int d ''key_epoch'' = get_int e ''key_epoch'' \<and>
      get_int d ''source_sequence'' = get_int e ''source_sequence'' \<and>
      json_norm (JObj (get_obj d ''normalized_fields'')) = json_norm (JObj (get_obj e ''normalized_fields''))) \<or>
    collides H (event_id_message d) (event_id_message e) \<or>
    collides H (normalized_message d) (normalized_message e)"
proof (cases "collides H (event_id_message d) (event_id_message e) \<or> collides H (normalized_message d) (normalized_message e)")
  case False
  note df = envelope_facts [OF assms(1)] and ef = envelope_facts [OF assms(2)]
  have "H (event_id_message d) = H (event_id_message e)"
    using assms(5) df(4) ef(4) by (simp add: hexdigest_inject)
  with False have m: "event_id_message d = event_id_message e" by (simp add: collides_def)
  note i = event_id_message_inject [OF assms(1,2) m]
  have "H (normalized_message d) = H (normalized_message e)"
    using i(5) unfolding df(5) ef(5) hexdigest_def fromhex_hexdigest by simp
  with False have n: "normalized_message d = normalized_message e" by (simp add: collides_def)
  have "json_norm (JObj (get_obj d ''normalized_fields'')) = json_norm (JObj (get_obj e ''normalized_fields''))"
    using canonical_norm [OF df(6) _ assms(3,4)] ef(6) n by simp
  with i show ?thesis by blast
qed blast

definition example_envelope :: "int \<Rightarrow> document" where
  "example_envelope sq =
    [(''schema_version'', JStr ''agmind.event-envelope.v1''),
     (''event_id'', JStr (''evt_'' @ replicate 64 (CHR ''0''))),
     (''event_type'', JStr ''falco_connect''),
     (''source_id'', JStr ''agmind-observerd''),
     (''source_version'', JStr ''1.0''),
     (''key_id'', JStr (replicate 32 (CHR ''a''))),
     (''key_epoch'', JInt 1),
     (''host_id'', JStr ''00000000-0000-4000-8000-000000000000''),
     (''boot_id'', JStr ''00000000-0000-4000-8000-000000000001''),
     (''source_sequence'', JInt sq),
     (''event_time'', JStr ''2026-01-02T03:04:05Z''),
     (''ingest_time'', JStr ''2026-01-02T03:04:05.5Z''),
     (''clock_uncertainty_ms'', JInt 0),
     (''inventory_generation'', JInt 1),
     (''normalized_fields'', JObj []),
     (''normalized_fields_sha256'', JStr (replicate 64 (CHR ''0''))),
     (''redaction_flags'', JArr []),
     (''coverage_flags'', JArr []),
     (''source_payload_hash'', JStr (replicate 64 (CHR ''b''))),
     (''source_signature'', JStr (replicate 128 (CHR ''c'')))]"

theorem event_id_binds_envelope_witness:
  "collides (\<lambda>_. replicate 32 nul) (event_id_message (example_envelope 1)) (event_id_message (example_envelope 2))"
proof -
  have v: "valid_EventEnvelopeV1 (\<lambda>_. replicate 32 nul) (example_envelope 1) = Inr (example_envelope 1)"
    "valid_EventEnvelopeV1 (\<lambda>_. replicate 32 nul) (example_envelope 2) = Inr (example_envelope 2)"
    by code_simp+
  have n: "get_obj (example_envelope 1) ''normalized_fields'' = []" "get_obj (example_envelope 2) ''normalized_fields'' = []"
    "get_int (example_envelope 1) ''source_sequence'' = 1" "get_int (example_envelope 2) ''source_sequence'' = 2"
    "get_str (example_envelope 1) ''event_id'' = get_str (example_envelope 2) ''event_id''"
    by code_simp+
  show ?thesis
    using event_id_binds_envelope [OF v] n by (simp add: collides_def normalized_message_def)
qed

lemma plan_facts:
  assumes "valid_PreparedTemporaryEgressDenyPlanV1 H p = Inr p'"
  shows "plan_hash H (model_dump p) = Inr (get_str p ''plan_hash'')"
    and "\<exists>nonce. fromhex (get_str p ''nonce'') = Some nonce \<and> plan_id H (get_str p ''intent_id'') nonce = Inr (get_str p ''plan_id'')"
    and "\<exists>a b. parse_rfc3339nano_utc_ns (get_str p ''prepared_at'') = Inr a \<and>
      parse_rfc3339nano_utc_ns (get_str p ''approval_expires_at'') = Inr b \<and> b div 1000 - a div 1000 = 300000000"
proof -
  note v = assms [unfolded valid_PreparedTemporaryEgressDenyPlanV1_def]
  have a: "identifiers_and_expiry_match H p = Inr ()" using v by (simp add: model_validate_Inr)
  then obtain nonce where n: "fromhex (get_str p ''nonce'') = Some nonce"
    "plan_id H (get_str p ''intent_id'') nonce = Inr (get_str p ''plan_id'')"
    "plan_hash H (model_dump p) = Inr (get_str p ''plan_hash'')"
    and d: "instant_us (get_str p ''approval_expires_at'') - instant_us (get_str p ''prepared_at'') = 5 * 60 * 1000000"
    unfolding identifiers_and_expiry_match_def result_simps by (auto simp: result_simps split: option.splits)
  show "plan_hash H (model_dump p) = Inr (get_str p ''plan_hash'')"
    "\<exists>nonce. fromhex (get_str p ''nonce'') = Some nonce \<and> plan_id H (get_str p ''intent_id'') nonce = Inr (get_str p ''plan_id'')"
    using n by blast+
  have t: "\<exists>ns. parse_rfc3339nano_utc_ns (get_str p k) = Inr ns"
    if "(k, True, time_field) \<in> set PreparedTemporaryEgressDenyPlanV1_fields" for k
    using required_str [OF v that] by (auto simp: result_simps valid_timestamp_Inr)
  obtain a where a: "parse_rfc3339nano_utc_ns (get_str p ''prepared_at'') = Inr a"
    using t [of "''prepared_at''"] by (auto simp: PreparedTemporaryEgressDenyPlanV1_fields_def)
  obtain b where b: "parse_rfc3339nano_utc_ns (get_str p ''approval_expires_at'') = Inr b"
    using t [of "''approval_expires_at''"] by (auto simp: PreparedTemporaryEgressDenyPlanV1_fields_def)
  have "b div 1000 - a div 1000 = 300000000"
    using d by (simp add: instant_us_def fromisoformat_eq a b)
  with a b show "\<exists>a b. parse_rfc3339nano_utc_ns (get_str p ''prepared_at'') = Inr a \<and>
      parse_rfc3339nano_utc_ns (get_str p ''approval_expires_at'') = Inr b \<and> b div 1000 - a div 1000 = 300000000" by blast
qed

text \<open>The octets a plan's hash is computed from.\<close>

definition plan_message :: "document \<Rightarrow> bytes" where
  "plan_message p =
    (case canonical (JObj (doc_pop ''plan_hash'' (model_dump p))) of
       Inr raw \<Rightarrow> ''AGMIND_PLAN_HASH_V1'' @ [nul] @ raw | Inl _ \<Rightarrow> [])"

lemma json_wf_model_dump: "json_wf (JObj d) \<Longrightarrow> json_wf (JObj (model_dump d))"
  by (auto simp: model_dump_def list_all_iff distinct_map_filter)

text \<open>
  C22. A plan hash fixes the whole plan: two accepted plans with the same \<open>plan_hash\<close> agree in every
  member but the hash itself (as Python dictionaries), unless the digest collides on their preimages.
\<close>

theorem plan_hash_binds_plan:
  assumes "valid_PreparedTemporaryEgressDenyPlanV1 H p = Inr p'" and "valid_PreparedTemporaryEgressDenyPlanV1 H q = Inr q'"
    and "json_wf (JObj p)" and "json_wf (JObj q)" and "get_str p ''plan_hash'' = get_str q ''plan_hash''"
  shows "json_norm (JObj (doc_pop ''plan_hash'' (model_dump p))) = json_norm (JObj (doc_pop ''plan_hash'' (model_dump q))) \<or>
    collides H (plan_message p) (plan_message q)"
proof -
  obtain r where r: "canonical (JObj (doc_pop ''plan_hash'' (model_dump p))) = Inr r"
    and hr: "get_str p ''plan_hash'' = hexdigest H (plan_message p)"
    using plan_facts(1) [OF assms(1)] by (auto simp: plan_hash_def result_simps plan_message_def)
  obtain s where s: "canonical (JObj (doc_pop ''plan_hash'' (model_dump q))) = Inr s"
    and hs: "get_str q ''plan_hash'' = hexdigest H (plan_message q)"
    using plan_facts(1) [OF assms(2)] by (auto simp: plan_hash_def result_simps plan_message_def)
  have h: "H (plan_message p) = H (plan_message q)" using assms(5) hr hs by (simp add: hexdigest_inject)
  show ?thesis
  proof (cases "plan_message p = plan_message q")
    case True
    then have "r = s" using r s by (simp add: plan_message_def)
    with canonical_norm [OF r _ json_wf_doc_pop [OF json_wf_model_dump [OF assms(3)]] json_wf_doc_pop [OF json_wf_model_dump [OF assms(4)]]] s
    show ?thesis by blast
  qed (use h in \<open>simp add: collides_def\<close>)
qed

definition example_plan :: document where
  "example_plan =
    [(''approval_expires_at'', JStr ''2026-01-02T03:09:05.000000999Z''),
     (''boot_id'', JStr ''00000000-0000-4000-8000-000000000001''),
     (''cgroup_path_sha256'', JStr (replicate 64 (CHR ''8''))),
     (''coverage_snapshot_sha256'', JStr (replicate 64 (CHR ''7''))),
     (''created_at'', JStr ''2026-01-02T03:04:05Z''),
     (''destination_ipv4'', JStr ''1.1.1.1''),
     (''detector_bundle_sha256'', JStr (replicate 64 (CHR ''5''))),
     (''docker_container_id'', JStr (replicate 64 (CHR ''1''))),
     (''docker_network_snapshot_sha256'', JStr (replicate 64 (CHR ''9''))),
     (''docker_started_at'', JStr ''2026-01-02T03:04:05Z''),
     (''evidence_ids'', JArr [JStr (''evt_'' @ replicate 64 (CHR ''4''))]),
     (''hard_limits_version'', JStr ''pcc-hard-limits-v1''),
     (''host_id'', JStr ''00000000-0000-4000-8000-000000000000''),
     (''image_id'', JStr (''sha256:'' @ replicate 64 (CHR ''2''))),
     (''immutable_spec_sha256'', JStr (replicate 64 (CHR ''3''))),
     (''init_pid'', JInt 10),
     (''intent_id'', JStr (''int_'' @ replicate 32 (CHR ''0''))),
     (''inventory_generation'', JInt 1),
     (''inventory_revision'', JInt 1),
     (''management_denylist_sha256'', JStr (replicate 64 (CHR ''b''))),
     (''network_namespace_inode'', JInt 30),
     (''nonce'', JStr (replicate 64 (CHR ''c''))),
     (''pid_start_ticks'', JInt 20),
     (''plan_hash'', JStr (replicate 64 (CHR ''0''))),
     (''plan_id'', JStr (''plan_'' @ replicate 32 (CHR ''0''))),
     (''policy_bundle_sha256'', JStr (replicate 64 (CHR ''6''))),
     (''policy_bundle_version'', JStr ''v1''),
     (''prepared_at'', JStr ''2026-01-02T03:04:05Z''),
     (''repo_digests'', JArr []),
     (''schema_version'', JStr ''agmind.prepared-temporary-egress-deny-plan.v1''),
     (''special_use_registry_sha256'', JStr (replicate 64 (CHR ''a''))),
     (''ttl_seconds'', JInt 60),
     (''verb'', JStr ''temporary_egress_deny'')]"

lemma constant_digest: "hexdigest (\<lambda>_. replicate 32 nul) m = replicate 64 (CHR ''0'')"
  unfolding hexdigest_def by code_simp

lemma canonical_bounded: "validate_bounded_nested b v 1 = Inr () \<Longrightarrow> \<exists>raw. canonical v = Inr raw"
  using bounded_nested_encodes [of b v 0] by (simp add: canonical_Inr canonical_json_def is_ok_iff)

lemma example_plan_members:
  "get_str example_plan ''nonce'' = replicate 64 (CHR ''c'')"
  "get_str example_plan ''intent_id'' = ''int_'' @ replicate 32 (CHR ''0'')"
  "get_str example_plan ''plan_id'' = ''plan_'' @ replicate 32 (CHR ''0'')"
  "get_str example_plan ''plan_hash'' = replicate 64 (CHR ''0'')"
  "get_str example_plan ''prepared_at'' = ''2026-01-02T03:04:05Z''"
  "get_str example_plan ''approval_expires_at'' = ''2026-01-02T03:09:05.000000999Z''"
  by (simp_all add: example_plan_def get_str_def doc_get_def)

lemma utf8_ok_all_ascii: "list_all (\<lambda>c. (of_char c :: nat) < 128) s \<Longrightarrow> utf8_ok s"
  by (induction s) simp_all

lemma list_all_replicate [simp]: "list_all P (replicate n x) \<longleftrightarrow> n = 0 \<or> P x"
  by (auto simp: list_all_iff)

lemma filter_replicate_length: "length (filter P (replicate n x)) = (if P x then n else 0)"
  by (induction n) auto

text \<open>A second plan, which differs from the first in its time to live only.\<close>

definition longer_plan :: document where
  "longer_plan = map (\<lambda>kv. if fst kv = ''ttl_seconds'' then (''ttl_seconds'', JInt 90) else kv) example_plan"

lemma example_plan_encodes:
  "\<exists>raw. canonical (JObj (doc_pop ''plan_hash'' (model_dump example_plan))) = Inr raw"
  "\<exists>raw. canonical (JObj (doc_pop ''plan_hash'' (model_dump longer_plan))) = Inr raw"
  by (rule canonical_bounded [of normalized_bounds],
    simp add: example_plan_def longer_plan_def model_dump_def doc_pop_def utf8_ok_all_ascii check_def char_count_def normalized_bounds_def
      filter_replicate_length utf8_cont_def del: utf8_ok.simps)+

lemma longer_plan_members:
  "get_str longer_plan ''nonce'' = get_str example_plan ''nonce''" "get_str longer_plan ''intent_id'' = get_str example_plan ''intent_id''"
  "get_str longer_plan ''plan_id'' = get_str example_plan ''plan_id''" "get_str longer_plan ''plan_hash'' = get_str example_plan ''plan_hash''"
  "get_str longer_plan ''prepared_at'' = get_str example_plan ''prepared_at''"
  "get_str longer_plan ''approval_expires_at'' = get_str example_plan ''approval_expires_at''"
  by (simp_all add: longer_plan_def example_plan_def get_str_def doc_get_def)

lemma plan_bindings_hold:
  assumes "\<exists>raw. canonical (JObj (doc_pop ''plan_hash'' (model_dump p))) = Inr raw"
    and "get_str p ''nonce'' = replicate 64 (CHR ''c'')" "get_str p ''intent_id'' = ''int_'' @ replicate 32 (CHR ''0'')"
      "get_str p ''plan_id'' = ''plan_'' @ replicate 32 (CHR ''0'')" "get_str p ''plan_hash'' = replicate 64 (CHR ''0'')"
      "get_str p ''prepared_at'' = ''2026-01-02T03:04:05Z''" "get_str p ''approval_expires_at'' = ''2026-01-02T03:09:05.000000999Z''"
  shows "identifiers_and_expiry_match (\<lambda>_. replicate 32 nul) p = Inr ()"
proof -
  obtain raw where raw: "canonical (JObj (doc_pop ''plan_hash'' (model_dump p))) = Inr raw" using assms(1) by blast
  have n: "fromhex (replicate 64 (CHR ''c'')) = Some (replicate 32 (CHR 0xCC))" by code_simp
  have i: "ascii (''int_'' @ replicate 32 (CHR ''0'')) ''intent_id'' = Inr (''int_'' @ replicate 32 (CHR ''0''))" by code_simp
  have t: "instant_us ''2026-01-02T03:09:05.000000999Z'' - instant_us ''2026-01-02T03:04:05Z'' = 5 * 60 * 1000000" by code_simp
  have h: "take 32 (replicate 64 (CHR ''0'')) = replicate 32 (CHR ''0'')" by code_simp
  show ?thesis
    unfolding identifiers_and_expiry_match_def assms(2-) n option.case plan_id_def plan_hash_def raw constant_digest lift_ident_def rbind_simps i t h
    by (simp add: check_def)
qed

lemma example_plan_valid:
  "valid_PreparedTemporaryEgressDenyPlanV1 (\<lambda>_. replicate 32 nul) example_plan = Inr example_plan"
  "valid_PreparedTemporaryEgressDenyPlanV1 (\<lambda>_. replicate 32 nul) longer_plan = Inr longer_plan"
proof -
  have f: "field_errors PreparedTemporaryEgressDenyPlanV1_fields example_plan = Inr []"
    "field_errors PreparedTemporaryEgressDenyPlanV1_fields longer_plan = Inr []" by code_simp+
  have k: "fst ` set example_plan \<subseteq> fst ` set PreparedTemporaryEgressDenyPlanV1_fields"
    "fst ` set longer_plan \<subseteq> fst ` set PreparedTemporaryEgressDenyPlanV1_fields"
    by (simp_all add: longer_plan_def example_plan_def PreparedTemporaryEgressDenyPlanV1_fields_def EgressDenyFields_def)
  show "valid_PreparedTemporaryEgressDenyPlanV1 (\<lambda>_. replicate 32 nul) example_plan = Inr example_plan"
    using f(1) k(1) plan_bindings_hold [OF example_plan_encodes(1) example_plan_members]
    unfolding valid_PreparedTemporaryEgressDenyPlanV1_def model_validate_Inr by blast
  show "valid_PreparedTemporaryEgressDenyPlanV1 (\<lambda>_. replicate 32 nul) longer_plan = Inr longer_plan"
    using f(2) k(2) plan_bindings_hold [OF example_plan_encodes(2)] longer_plan_members example_plan_members
    unfolding valid_PreparedTemporaryEgressDenyPlanV1_def model_validate_Inr by simp
qed

text \<open>Under a constant digest the two plans are accepted with one hash, and the theorem exhibits the collision.\<close>

theorem plan_hash_binds_plan_witness:
  "valid_PreparedTemporaryEgressDenyPlanV1 (\<lambda>_. replicate 32 nul) example_plan = Inr example_plan \<and>
    valid_PreparedTemporaryEgressDenyPlanV1 (\<lambda>_. replicate 32 nul) longer_plan = Inr longer_plan \<and>
    json_wf (JObj example_plan) \<and> json_wf (JObj longer_plan) \<and> get_str example_plan ''plan_hash'' = get_str longer_plan ''plan_hash'' \<and>
    get_int example_plan ''ttl_seconds'' \<noteq> get_int longer_plan ''ttl_seconds'' \<and>
    collides (\<lambda>_. replicate 32 nul) (plan_message example_plan) (plan_message longer_plan)"
proof -
  have w: "json_wf (JObj example_plan)" "json_wf (JObj longer_plan)" by code_simp+
  have t: "get_int example_plan ''ttl_seconds'' \<noteq> get_int longer_plan ''ttl_seconds''" by code_simp
  have "json_norm (JObj (doc_pop ''plan_hash'' (model_dump example_plan))) \<noteq> json_norm (JObj (doc_pop ''plan_hash'' (model_dump longer_plan)))"
    by code_simp
  with plan_hash_binds_plan [OF example_plan_valid w longer_plan_members(4) [symmetric]] example_plan_valid w t longer_plan_members(4)
  show ?thesis by simp
qed

text \<open>
  C19. The approval window that an accepted plan has is exactly five minutes in whole microseconds, which
  is what the comparison of \<open>datetime\<close> values sees: the instants parse, and their microseconds differ by
  300 s. In nanoseconds the window can differ from five minutes, by less than one microsecond.
\<close>

theorem plan_approval_window:
  assumes "valid_PreparedTemporaryEgressDenyPlanV1 H p = Inr p'"
  shows "\<exists>prepared expires. parse_rfc3339nano_utc_ns (get_str p ''prepared_at'') = Inr prepared \<and>
    parse_rfc3339nano_utc_ns (get_str p ''approval_expires_at'') = Inr expires \<and>
    expires div 1000 = prepared div 1000 + 5 * 60 * 1000000 \<and> \<bar>expires - prepared - 300000000000\<bar> < 1000"
proof -
  obtain a b where ab: "parse_rfc3339nano_utc_ns (get_str p ''prepared_at'') = Inr a"
    "parse_rfc3339nano_utc_ns (get_str p ''approval_expires_at'') = Inr b" and d: "b div 1000 - a div 1000 = 300000000"
    using plan_facts(3) [OF assms] by blast
  have "\<bar>y - x - 300000000000\<bar> < 1000" if "y div 1000 - x div 1000 = 300000000" for x y :: int
  proof -
    have "x = 1000 * (x div 1000) + x mod 1000" "0 \<le> x mod 1000" "x mod 1000 < 1000" by simp_all
    moreover have "y = 1000 * (y div 1000) + y mod 1000" "0 \<le> y mod 1000" "y mod 1000 < 1000" by simp_all
    ultimately show ?thesis using that by linarith
  qed
  with ab d show ?thesis by force
qed

theorem plan_approval_window_witness:
  "valid_PreparedTemporaryEgressDenyPlanV1 (\<lambda>_. replicate 32 nul) example_plan = Inr example_plan \<and>
    (\<exists>prepared expires. parse_rfc3339nano_utc_ns (get_str example_plan ''prepared_at'') = Inr prepared \<and>
      parse_rfc3339nano_utc_ns (get_str example_plan ''approval_expires_at'') = Inr expires \<and>
      expires div 1000 = prepared div 1000 + 5 * 60 * 1000000)"
  using plan_approval_window [OF example_plan_valid(1)] example_plan_valid(1) by blast

text \<open>
  The code's message says that the expiry must be exactly five minutes after the preparation, and the Go
  validator compares nanoseconds; here a plan is accepted that expires 999 ns later than that.
\<close>

lemma plan_may_expire_late:
  "valid_PreparedTemporaryEgressDenyPlanV1 (\<lambda>_. replicate 32 nul) example_plan = Inr example_plan \<and>
   parse_rfc3339nano_utc_ns (get_str example_plan ''prepared_at'') = Inr 1767323045000000000 \<and>
   parse_rfc3339nano_utc_ns (get_str example_plan ''approval_expires_at'') = Inr (1767323045000000000 + 300000000999)"
proof (intro conjI)
  show "parse_rfc3339nano_utc_ns (get_str example_plan ''prepared_at'') = Inr 1767323045000000000" by code_simp
  show "parse_rfc3339nano_utc_ns (get_str example_plan ''approval_expires_at'') = Inr (1767323045000000000 + 300000000999)"
    by code_simp
qed (rule example_plan_valid(1))

text \<open>
  C34. A connect event that may found a containment candidate is complete and successful: when an
  accepted event is not investigation-only, the connect succeeded (a completed or an in-progress
  result with a matching return value), and every sensor fact and every authoritative Docker
  identity is present.
\<close>

theorem candidate_capable_connect_is_complete:
  assumes "valid_FalcoConnectV1 d = Inr d'" and "\<not> get_bool d ''investigation_only''"
  shows "get_bool d ''successful_connect'' \<and> get_strs d ''missing_required_fields'' = [] \<and>
    (\<forall>k\<in>set FALCO_SENSOR_REQUIRED_FIELDS \<union> set authoritative_fields. doc_get d k \<noteq> JNull) \<and>
    (get_str d ''evt_res'' = ''SUCCESS'' \<and> (\<exists>i\<ge>0. get_int_opt d ''evt_rawres'' = Some i) \<or>
     get_str d ''evt_res'' \<in> set SUCCESS_RESULTS \<and> (\<forall>i. get_int_opt d ''evt_rawres'' = Some i \<longrightarrow> i < 0))"
  using falco_facts [OF assms] by blast

definition example_connect :: document where
  "example_connect =
    [(''detector_rule'', JStr ''rule''), (''detector_rule_version'', JStr ''v1''), (''falco_version'', JStr ''0.44.1''),
     (''event_time'', JStr ''2026-01-02T03:04:05Z''), (''evt_type'', JStr ''connect''), (''evt_rawres'', JInt 0),
     (''evt_res'', JStr ''SUCCESS''), (''successful_connect'', JBool True), (''investigation_only'', JBool False),
     (''falco_container_id_prefix'', JStr ''0123456789ab''), (''falco_container_start_ts'', JInt 7),
     (''docker_container_id'', JStr (replicate 64 (CHR ''1''))), (''docker_started_at'', JStr ''2026-01-02T03:04:05Z''),
     (''image_id'', JStr (''sha256:'' @ replicate 64 (CHR ''2''))), (''repo_digests'', JArr []),
     (''immutable_spec_sha256'', JStr (replicate 64 (CHR ''3''))), (''inventory_revision'', JInt 1),
     (''proc_name'', JStr ''sh''), (''proc_exe_path'', JStr ''/bin/sh''), (''proc_parent_name'', JStr ''init''),
     (''destination_ipv4'', JStr ''8.8.8.8''), (''destination_port'', JInt 443), (''l4_protocol'', JStr ''tcp''),
     (''missing_required_fields'', JArr []), (''raw_event_sha256'', JStr (replicate 64 (CHR ''4'')))]"

theorem candidate_capable_connect_is_complete_witness:
  "doc_get example_connect ''docker_container_id'' \<noteq> JNull"
proof -
  have "valid_FalcoConnectV1 example_connect = Inr example_connect" and "\<not> get_bool example_connect ''investigation_only''"
    by code_simp+
  from candidate_capable_connect_is_complete [OF this] show ?thesis by (simp add: authoritative_fields_def)
qed

text \<open>
  C35. A retention tombstone's run hash fixes the removed manifests and their order: two accepted
  tombstones with the same \<open>manifest_run_sha256\<close> list the same manifests in the same order, unless
  the digest collides on the two explicit preimages; and the first and last hashes are those of the list.
\<close>

theorem retention_run_hash_binds_manifests:
  assumes "valid_RetentionTombstoneV2 H d = Inr d'" and "valid_RetentionTombstoneV2 H e = Inr e'"
    and "get_str d ''manifest_run_sha256'' = get_str e ''manifest_run_sha256''"
  shows "get_strs d ''removed_manifest_hashes'' = get_strs e ''removed_manifest_hashes'' \<and>
      get_str d ''first_removed_manifest_sha256'' = get_str e ''first_removed_manifest_sha256'' \<and>
      get_str d ''last_removed_manifest_sha256'' = get_str e ''last_removed_manifest_sha256'' \<or>
    collides H (run_message d) (run_message e)"
proof -
  note df = tombstone_facts [OF assms(1)] and ef = tombstone_facts [OF assms(2)]
  have h: "H (run_message d) = H (run_message e)" using df(1) ef(1) assms(3) by (simp add: hexdigest_inject)
  show ?thesis
  proof (cases "run_message d = run_message e")
    case True
    then have "get_strs d ''removed_manifest_hashes'' = get_strs e ''removed_manifest_hashes''"
      using retention_run_preimage_inject df(2) ef(2) by simp
    with df ef show ?thesis by simp
  qed (use h in \<open>simp add: collides_def\<close>)
qed

definition example_tombstone :: "char \<Rightarrow> char \<Rightarrow> document" where
  "example_tombstone a b =
    [(''schema_version'', JStr ''agmind.retention-tombstone.v2''),
     (''tombstone_id'', JStr ''00000000-0000-4000-8000-000000000000''),
     (''removed_manifest_hashes'', JArr [JStr (replicate 64 a), JStr (replicate 64 b)]),
     (''first_removed_manifest_sha256'', JStr (replicate 64 a)),
     (''last_removed_manifest_sha256'', JStr (replicate 64 b)),
     (''first_retained_manifest_sha256'', JStr (replicate 64 (CHR ''3''))),
     (''removed_bytes'', JInt 10), (''reason'', JStr ''retention_age_limit''),
     (''policy_version'', JStr ''agmind-retention-v1''),
     (''current_chain_head_sha256'', JStr (replicate 64 (CHR ''4''))),
     (''manifest_run_sha256'', JStr (replicate 64 (CHR ''0'')))]"

theorem retention_run_hash_binds_manifests_witness:
  "collides (\<lambda>_. replicate 32 nul) (run_message (example_tombstone (CHR ''1'') (CHR ''2'')))
    (run_message (example_tombstone (CHR ''2'') (CHR ''1'')))"
proof -
  have v: "valid_RetentionTombstoneV2 (\<lambda>_. replicate 32 nul) (example_tombstone (CHR ''1'') (CHR ''2'')) = Inr (example_tombstone (CHR ''1'') (CHR ''2''))"
    "valid_RetentionTombstoneV2 (\<lambda>_. replicate 32 nul) (example_tombstone (CHR ''2'') (CHR ''1'')) = Inr (example_tombstone (CHR ''2'') (CHR ''1''))"
    by code_simp+
  have "get_str (example_tombstone (CHR ''1'') (CHR ''2'')) ''first_removed_manifest_sha256'' \<noteq>
    get_str (example_tombstone (CHR ''2'') (CHR ''1'')) ''first_removed_manifest_sha256''"
    "get_str (example_tombstone (CHR ''1'') (CHR ''2'')) ''manifest_run_sha256'' =
    get_str (example_tombstone (CHR ''2'') (CHR ''1'')) ''manifest_run_sha256''"
    by code_simp+
  with retention_run_hash_binds_manifests [OF v] show ?thesis by blast
qed

end
