(* ===== verification/PccContracts.thy ===== *)
theory PccContracts
  imports Contracts
begin

text \<open>
  The contracts of the PCC correlation snapshot in \<open>core/agmind_immune/contracts.py\<close> and the
  digests of \<open>core/agmind_immune/canonicaljson.py\<close> they are bound by: the narrow request, the
  retained trigger, Docker networks, denylists and the chain of boot transitions. Shown here: an
  accepted snapshot is bound to its request and, when complete, to the trigger's container; a
  boot-transition chain that can be hashed is linked, strictly ordered and free of repetitions;
  the digests of the two denylists are separated.
\<close>

section \<open>Definitions\<close>

subsection \<open>The narrow request\<close>

definition PCCCorrelationSnapshotRequestV1_fields :: "field_spec list" where
  "PCCCorrelationSnapshotRequestV1_fields =
    [required ''schema_version'' (literal [''agmind.pcc-correlation-snapshot-request.v1'']),
     required ''trigger_event_id'' (text_field (hex_id ''evt_'' 64) ''trigger_event_id must be an exact event ID''),
     required ''trigger_content_sha256'' (text_field HEX64 ''trigger_content_sha256 must be 64 lowercase hex''),
     required ''trigger_source_sequence'' (int_field 1 MAX_UINT64),
     required ''requested_ttl_seconds'' (int_field 30 300)]"

definition valid_PCCCorrelationSnapshotRequestV1 :: "document \<Rightarrow> contract_error + document" where
  "valid_PCCCorrelationSnapshotRequestV1 = model_validate PCCCorrelationSnapshotRequestV1_fields (\<lambda>_. Inr ())"

definition pcc_correlation_request_sha256 :: "(bytes \<Rightarrow> bytes) \<Rightarrow> document \<Rightarrow> contract_error + str" where
  "pcc_correlation_request_sha256 H request =
    rbind (valid_PCCCorrelationSnapshotRequestV1 request) (\<lambda>normalized.
    rbind (lift_ident (canonical (JObj (model_dump normalized)))) (\<lambda>raw. Inr (hexdigest H raw)))"

subsection \<open>The retained trigger\<close>

definition literal_bool :: "bool \<Rightarrow> validator" where
  "literal_bool b v = (case v of JBool c \<Rightarrow> check (c = b) ''literal_error'' | _ \<Rightarrow> type_error)"

definition repositories_are_canonical :: "str list \<Rightarrow> contract_error + unit" where
  "repositories_are_canonical values =
    rbind (sorted_unique values ''repo_digests'') (\<lambda>_. each (\<lambda>value. contract_utf8 value ''repo_digests'' 256 1) values)"

definition PCCFalcoTriggerProjectionV1_fields :: "field_spec list" where
  "PCCFalcoTriggerProjectionV1_fields =
    [required ''schema_version'' (literal [''agmind.pcc-falco-trigger-projection.v1'']),
     required ''event_id'' (text_field (hex_id ''evt_'' 64) ''event_id must be an exact event ID''),
     required ''content_sha256'' (text_field HEX64 ''content_sha256 must be 64 lowercase hex''),
     required ''normalized_fields_sha256'' (text_field HEX64 ''normalized_fields_sha256 must be 64 lowercase hex''),
     required ''source_sequence'' (int_field 1 MAX_UINT64),
     required ''source_id'' (literal [''agmind-observerd'']),
     required ''source_version'' (ascii_field ''source_version'' 64),
     required ''host_id'' (text_field UUID4 ''host_id must be a lowercase UUIDv4''),
     required ''boot_id'' (text_field UUID4 ''boot_id must be a lowercase UUIDv4''),
     required ''event_time'' time_field,
     required ''ingest_time'' time_field,
     required ''clock_uncertainty_ms'' (int_field 0 2000),
     required ''inventory_generation'' (int_field 1 MAX_UINT64),
     required ''inventory_revision'' (int_field 1 MAX_UINT64),
     required ''container_id'' (text_field HEX64 ''container_id must be 64 lowercase hex''),
     required ''container_start_time'' time_field,
     required ''release_id'' (text_field (hex_id ''rel_'' 32) ''release_id must be an exact release ID''),
     required ''detector_rule'' (literal [''AGmind PCC Suspicious Process Outbound Connect'']),
     required ''detector_rule_version'' (literal [''agmind-pcc-rules-v1'']),
     required ''falco_version'' (literal [''0.44.1'']),
     option_field ''evt_rawres'' (int_field MIN_INT64 MAX_INT64),
     required ''evt_res'' (ascii_field ''evt_res'' 64),
     required ''successful_connect'' (literal_bool True),
     required ''investigation_only'' (literal_bool False),
     required ''image_id'' (text_field (hex_id ''sha256:'' 64) ''image_id must be an immutable Docker image ID''),
     required ''repo_digests'' (pcc_tuple_field 16 repositories_are_canonical),
     required ''immutable_spec_sha256'' (text_field HEX64 ''immutable_spec_sha256 must be 64 lowercase hex''),
     option_field ''proc_name'' (utf8_field ''proc_name'' 512),
     option_field ''proc_exe_path'' (utf8_field ''proc_exe_path'' 512),
     option_field ''proc_parent_name'' (utf8_field ''proc_parent_name'' 512),
     required ''destination_ipv4'' ipv4_field,
     required ''destination_port'' (int_field 1 65535),
     required ''l4_protocol'' (ascii_field ''l4_protocol'' 64),
     required ''missing_required_fields'' (pcc_tuple_field 32 (\<lambda>values. pcc_ascii_tuple values ''missing_required_fields'' 64)),
     required ''coverage_flags'' (pcc_tuple_field 64 (\<lambda>values. pcc_ascii_tuple values ''coverage_flags'' 64)),
     required ''raw_event_sha256'' (text_field HEX64 ''raw_event_sha256 must be 64 lowercase hex'')]"

definition in_fields_set :: "document \<Rightarrow> str \<Rightarrow> bool" where
  "in_fields_set doc name \<longleftrightarrow> map_of doc name \<noteq> None"

definition candidate_projection_is_self_consistent :: "(bytes \<Rightarrow> bytes) \<Rightarrow> document \<Rightarrow> contract_error + unit" where
  "candidate_projection_is_self_consistent H doc =
    (let rawres = get_int_opt doc ''evt_rawres'';
         result_valid =
           (if get_str doc ''evt_res'' = ''SUCCESS'' then (\<exists>i\<in>set_option rawres. i \<ge> 0)
            else if get_str doc ''evt_res'' \<in> set SUCCESS_RESULTS then (\<forall>i\<in>set_option rawres. i < 0)
            else False)
     in
     rbind (check result_valid ''retained trigger does not describe a successful connect'') (\<lambda>_.
     rbind (check (\<not> (rawres = None \<and> in_fields_set doc ''evt_rawres'')) ''optional evt_rawres must be absent rather than null'') (\<lambda>_.
     rbind (check (list_all (\<lambda>name. doc_get doc name \<noteq> JNull) [''proc_name'', ''proc_exe_path'', ''proc_parent_name''])
       ''candidate-capable trigger lacks a sensor process fact'') (\<lambda>_.
     rbind (check (get_strs doc ''missing_required_fields'' = []) ''candidate-capable trigger cannot report missing fields'') (\<lambda>_.
     rbind (lift_ident (release_id H (get_str doc ''image_id'') (get_str doc ''immutable_spec_sha256''))) (\<lambda>derived.
       check (derived = get_str doc ''release_id'') ''release_id does not bind image_id and immutable spec''))))))"

definition valid_PCCFalcoTriggerProjectionV1 :: "(bytes \<Rightarrow> bytes) \<Rightarrow> document \<Rightarrow> contract_error + document" where
  "valid_PCCFalcoTriggerProjectionV1 H =
    model_validate PCCFalcoTriggerProjectionV1_fields (candidate_projection_is_self_consistent H)"

subsection \<open>Docker networks\<close>

definition PCCDockerNetworkV1_fields :: "field_spec list" where
  "PCCDockerNetworkV1_fields =
    [required ''network_id'' (text_field HEX64 ''network_id must be 64 lowercase hex''),
     required ''driver'' (ascii_field ''driver'' 64),
     required ''subnet_cidrs'' (pcc_tuple_field 32 (\<lambda>values. pcc_network_tuple values ''subnet_cidrs'')),
     required ''gateway_addresses'' (pcc_tuple_field 32 (\<lambda>values. pcc_address_tuple values ''gateway_addresses''))]"

definition valid_PCCDockerNetworkV1 :: "document \<Rightarrow> contract_error + document" where
  "valid_PCCDockerNetworkV1 = model_validate PCCDockerNetworkV1_fields (\<lambda>_. Inr ())"

definition pcc_docker_network_snapshot_sha256 :: "(bytes \<Rightarrow> bytes) \<Rightarrow> document list \<Rightarrow> contract_error + str" where
  "pcc_docker_network_snapshot_sha256 H docker_networks =
    rbind (check (length docker_networks \<le> 64) ''docker_networks exceeds 64 networks'') (\<lambda>_.
    rbind (rseq (map valid_PCCDockerNetworkV1 docker_networks)) (\<lambda>payload.
      let network_ids = map (\<lambda>n. get_str n ''network_id'') payload in
      rbind (check (network_ids = sort (remdups network_ids)) ''docker_networks must have unique sorted network IDs'') (\<lambda>_.
      rbind (check (sum_list (map (\<lambda>n. length (get_strs n ''subnet_cidrs'')) payload) \<le> 128)
        ''docker_networks exceeds the global subnet limit'') (\<lambda>_.
      rbind (check (sum_list (map (\<lambda>n. length (get_strs n ''gateway_addresses'')) payload) \<le> 128)
        ''docker_networks exceeds the global gateway limit'') (\<lambda>_.
      rbind (lift_ident (canonical (JArr (map (\<lambda>n. JObj (model_dump n)) payload)))) (\<lambda>raw.
      rbind (check (int (length raw) \<le> 16 * 1024) ''docker_networks exceeds 16 KiB'') (\<lambda>_.
        Inr (hexdigest H (''AGMIND_DOCKER_NETWORK_SNAPSHOT_V1'' @ [nul] @ raw)))))))))"

subsection \<open>Denylists\<close>

definition pcc_ipv4_tuple :: "str list \<Rightarrow> str \<Rightarrow> bool \<Rightarrow> contract_error + str list" where
  "pcc_ipv4_tuple values field_name network =
    rbind (check (length values \<le> 128) (field_name @ '' exceeds 128 entries'')) (\<lambda>_.
    rbind (sorted_unique values field_name) (\<lambda>_.
    rbind (each (\<lambda>value.
        if network then
          (case ip_network value True of
             Inl _ \<Rightarrow> Inl (ContractValue (field_name @ '' contains an invalid IPv4 value''))
           | Inr (Net4 w) \<Rightarrow> check (v4_network_str w = value) (field_name @ '' must contain canonical IPv4 values'')
           | Inr (Net6 _) \<Rightarrow> Inl (ContractValue (field_name @ '' must contain canonical IPv4 values'')))
        else
          (case ip_address value of
             Inl _ \<Rightarrow> Inl (ContractValue (field_name @ '' contains an invalid IPv4 value''))
           | Inr (V4 n) \<Rightarrow> check (v4_str n = value) (field_name @ '' must contain canonical IPv4 values'')
           | Inr (V6 _) \<Rightarrow> Inl (ContractValue (field_name @ '' must contain canonical IPv4 values''))))
      values) (\<lambda>_. Inr values)))"

definition pcc_denylist_payload :: "bytes \<Rightarrow> str list \<Rightarrow> str list \<Rightarrow> contract_error + bytes" where
  "pcc_denylist_payload domain denied_networks denied_addresses =
    rbind (pcc_ipv4_tuple denied_addresses ''denied_addresses'' False) (\<lambda>addresses.
    rbind (pcc_ipv4_tuple denied_networks ''denied_networks'' True) (\<lambda>networks.
    rbind (lift_ident (canonical (JObj [(''denied_addresses'', JArr (map JStr addresses)), (''denied_networks'', JArr (map JStr networks))]))) (\<lambda>raw.
      Inr (domain @ raw))))"

definition pcc_denylist_sha256 :: "(bytes \<Rightarrow> bytes) \<Rightarrow> bytes \<Rightarrow> str list \<Rightarrow> str list \<Rightarrow> contract_error + str" where
  "pcc_denylist_sha256 H domain denied_networks denied_addresses =
    rbind (pcc_denylist_payload domain denied_networks denied_addresses) (\<lambda>m. Inr (hexdigest H m))"

definition OPERATOR_DENYLIST_DOMAIN :: bytes where "OPERATOR_DENYLIST_DOMAIN = ''AGMIND_OPERATOR_DENYLIST_V1'' @ [nul]"
definition MANAGEMENT_DENYLIST_DOMAIN :: bytes where "MANAGEMENT_DENYLIST_DOMAIN = ''AGMIND_MANAGEMENT_DENYLIST_V1'' @ [nul]"

definition pcc_operator_denylist_sha256 :: "(bytes \<Rightarrow> bytes) \<Rightarrow> str list \<Rightarrow> str list \<Rightarrow> contract_error + str" where
  "pcc_operator_denylist_sha256 H = pcc_denylist_sha256 H OPERATOR_DENYLIST_DOMAIN"

definition pcc_management_denylist_sha256 :: "(bytes \<Rightarrow> bytes) \<Rightarrow> str list \<Rightarrow> str list \<Rightarrow> contract_error + str" where
  "pcc_management_denylist_sha256 H = pcc_denylist_sha256 H MANAGEMENT_DENYLIST_DOMAIN"

subsection \<open>Boot transitions\<close>

definition ROTATION_EVENT_TYPES :: "str list" where
  "ROTATION_EVENT_TYPES = [''observer_key_transition'', ''observer_key_epoch_start'']"

definition ROTATION_COMPANION_FIELDS :: "str list" where
  "ROTATION_COMPANION_FIELDS =
    [''rotation_companion_event_type'', ''rotation_companion_event_id'', ''rotation_companion_content_sha256'',
     ''rotation_companion_source_sequence'', ''rotation_companion_boot_id'']"

definition PCCBootTransitionHopV1_fields :: "field_spec list" where
  "PCCBootTransitionHopV1_fields =
    [required ''boundary_event_type'' (literal (''observer_boot_boundary'' # ROTATION_EVENT_TYPES)),
     required ''event_id'' (text_field (hex_id ''evt_'' 64) ''event_id must be an exact event ID''),
     required ''content_sha256'' (text_field HEX64 ''content_sha256 must be 64 lowercase hex''),
     required ''source_sequence'' (int_field 1 MAX_UINT64),
     required ''boot_id'' (text_field UUID4 ''boot_id must be a lowercase UUIDv4''),
     required ''previous_boot_id'' (text_field UUID4 ''previous_boot_id must be a lowercase UUIDv4''),
     required ''previous_source_sequence'' (int_field 0 MAX_UINT64),
     option_field ''rotation_companion_event_type'' (literal ROTATION_EVENT_TYPES),
     option_field ''rotation_companion_event_id'' (text_field (hex_id ''evt_'' 64) ''rotation_companion_event_id must be an exact event ID''),
     option_field ''rotation_companion_content_sha256'' (text_field HEX64 ''rotation_companion_content_sha256 must be 64 lowercase hex''),
     option_field ''rotation_companion_source_sequence'' (int_field 1 MAX_UINT64),
     option_field ''rotation_companion_boot_id'' (text_field UUID4 ''rotation_companion_boot_id must be a lowercase UUIDv4'')]"

definition boundary_and_rotation_pair_are_exact :: "document \<Rightarrow> contract_error + unit" where
  "boundary_and_rotation_pair_are_exact doc =
    (let boundary = get_str doc ''boundary_event_type'';
         sq = get_int doc ''source_sequence'';
         companion_type = get_str_opt doc ''rotation_companion_event_type'';
         companion_sq = get_int_opt doc ''rotation_companion_source_sequence'';
         companion_boot = get_str_opt doc ''rotation_companion_boot_id'';
         present = map (\<lambda>name. doc_get doc name \<noteq> JNull) ROTATION_COMPANION_FIELDS
     in
     rbind (check (\<not> list_ex (\<lambda>name. in_fields_set doc name \<and> doc_get doc name = JNull) ROTATION_COMPANION_FIELDS)
       ''rotation companion fields must be absent rather than null'') (\<lambda>_.
     rbind (check (get_str doc ''boot_id'' \<noteq> get_str doc ''previous_boot_id'') ''boot-transition hop must change boot_id'') (\<lambda>_.
     rbind (check (get_int doc ''previous_source_sequence'' < sq) ''boot-transition hop must follow its predecessor'') (\<lambda>_.
     if boundary = ''observer_boot_boundary'' then
       check (\<not> list_ex id present) ''dedicated boot boundary cannot carry a rotation companion''
     else
       rbind (check (list_all id present) ''rotation boundary requires every companion field'') (\<lambda>_.
       rbind (check (boundary \<in> set ROTATION_EVENT_TYPES) ''invalid rotation boundary event type'') (\<lambda>_.
       rbind (check (get_str_opt doc ''rotation_companion_event_id'' \<noteq> Some (get_str doc ''event_id''))
         ''boundary and companion event IDs must be distinct'') (\<lambda>_.
         if boundary = ''observer_key_transition'' then
           check (companion_type = Some ''observer_key_epoch_start'' \<and> companion_sq = Some (sq + 1) \<and>
               companion_boot = Some (get_str doc ''boot_id''))
             ''new-boot transition companion is not exact adjacent start''
         else
           check (companion_type = Some ''observer_key_transition'' \<and> map_option (\<lambda>c. c + 1) companion_sq = Some sq \<and>
               companion_boot = Some (get_str doc ''previous_boot_id''))
             ''new-boot epoch start companion is not exact prior transition'')))))))"

definition valid_PCCBootTransitionHopV1 :: "document \<Rightarrow> contract_error + document" where
  "valid_PCCBootTransitionHopV1 = model_validate PCCBootTransitionHopV1_fields boundary_and_rotation_pair_are_exact"

definition hop_event_ids :: "document \<Rightarrow> str list" where
  "hop_event_ids hop = get_str hop ''event_id'' #
    (case get_str_opt hop ''rotation_companion_event_id'' of None \<Rightarrow> [] | Some i \<Rightarrow> [i])"

definition hop_end_sequence :: "document \<Rightarrow> int" where
  "hop_end_sequence hop = max (get_int hop ''source_sequence'') (get_int hop ''rotation_companion_source_sequence'')"

text \<open>The loop over the hops, with the event identifiers and boots seen so far and the prior hop.\<close>

fun boot_chain_loop :: "str list \<Rightarrow> str list \<Rightarrow> document option \<Rightarrow> int \<Rightarrow> document list \<Rightarrow> contract_error + unit" where
  "boot_chain_loop event_ids seen_boot_ids prior_hop prior_end_sequence [] = Inr ()"
| "boot_chain_loop event_ids seen_boot_ids prior_hop prior_end_sequence (hop # hops) =
    rbind (check (set event_ids \<inter> set (hop_event_ids hop) = {}) ''boundary_chain contains a duplicate event ID'') (\<lambda>_.
    rbind (check (get_str hop ''boot_id'' \<notin> set seen_boot_ids) ''boundary_chain contains a repeated boot ID'') (\<lambda>_.
    rbind (check (case prior_hop of
          None \<Rightarrow> True
        | Some prior \<Rightarrow> get_str hop ''previous_boot_id'' = get_str prior ''boot_id'' \<and>
            prior_end_sequence < get_int hop ''source_sequence'' \<and>
            prior_end_sequence \<le> get_int hop ''previous_source_sequence'')
      ''boundary_chain is reordered or disconnected'') (\<lambda>_.
      boot_chain_loop (hop_event_ids hop @ event_ids) (get_str hop ''boot_id'' # seen_boot_ids) (Some hop)
        (hop_end_sequence hop) hops)))"

definition pcc_boot_transition_chain_sha256 :: "(bytes \<Rightarrow> bytes) \<Rightarrow> document list \<Rightarrow> contract_error + str" where
  "pcc_boot_transition_chain_sha256 H boundary_chain =
    rbind (check (1 \<le> int (length boundary_chain) \<and> int (length boundary_chain) \<le> 1024) ''boundary_chain must contain 1..1024 hops'') (\<lambda>_.
    rbind (rseq (map (\<lambda>hop. valid_PCCBootTransitionHopV1 (model_dump hop)) boundary_chain)) (\<lambda>payload.
    rbind (boot_chain_loop [] [get_str (hd payload) ''previous_boot_id''] None 0 payload) (\<lambda>_.
    rbind (lift_ident (canonical (JArr (map (\<lambda>hop. JObj (model_dump hop)) payload)))) (\<lambda>raw.
      Inr (hexdigest H (''AGMIND_BOOT_TRANSITION_CHAIN_V1'' @ [nul] @ raw))))))"

subsection \<open>The correlation snapshot\<close>

definition PCC_FAILURE_REASONS :: "str list" where
  "PCC_FAILURE_REASONS =
    [''mutation_read_only'', ''reconcile_required'', ''docker_reconcile_gap'', ''routine_drop_pending'', ''inventory_stale'',
     ''docker_network_snapshot_unavailable'', ''docker_network_snapshot_overflow'', ''detector_bundle_unavailable'',
     ''special_use_registry_unavailable'', ''operator_denylist_unavailable'', ''management_denylist_unavailable'',
     ''container_not_running'', ''container_identity_changed'', ''observer_boot_changed'']"

definition PCC_COMPLETE_FIELDS :: "str list" where
  "PCC_COMPLETE_FIELDS =
    [''detector_bundle_sha256'', ''special_use_registry_sha256'', ''operator_denied_networks'', ''operator_denied_addresses'',
     ''operator_denylist_sha256'', ''management_denied_networks'', ''management_denied_addresses'',
     ''management_denylist_sha256'', ''docker_networks'', ''docker_network_snapshot_sha256'', ''docker_container_id'',
     ''docker_started_at'', ''image_id'', ''repo_digests'', ''immutable_spec_sha256'', ''inventory_generation'',
     ''inventory_revision'', ''inventory_observed_at'', ''network_mode'', ''network_driver'', ''privileged'',
     ''configured_cap_add'', ''configured_cap_drop'', ''effective_cap_net_admin'', ''running'']"

definition PCC_FAILED_FIELDS :: "str list" where
  "PCC_FAILED_FIELDS = [''failure_reasons'', ''boot_transition_hop_count'', ''boot_transition_chain_sha256'']"

text \<open>\<open>value.partition(".")[2].removesuffix("Z")\<close> has at most six digits.\<close>

definition decision_time_is_microsecond_exact :: "str \<Rightarrow> contract_error + unit" where
  "decision_time_is_microsecond_exact value =
    rbind (valid_timestamp value) (\<lambda>_.
      let fraction = tl (dropWhile (\<lambda>c. c \<noteq> CHR ''.'') value);
          digits = (if fraction \<noteq> [] \<and> last fraction = CHR ''Z'' then butlast fraction else fraction)
      in check (\<not> (CHR ''.'' \<in> set value \<and> length digits > 6)) ''decision_time exceeds microsecond precision'')"

definition any_tuple_field :: "(str list \<Rightarrow> contract_error + unit) \<Rightarrow> validator" where
  "any_tuple_field f v =
    rbind (pcc_wire_tuple v) (\<lambda>vs. case str_items vs of Some ss \<Rightarrow> f ss | None \<Rightarrow> type_error)"

definition bounded_tuple :: "nat \<Rightarrow> str \<Rightarrow> (str list \<Rightarrow> contract_error + unit) \<Rightarrow> validator" where
  "bounded_tuple maximum name f =
    any_tuple_field (\<lambda>values. rbind (check (length values \<le> maximum) (name @ '' exceeds the entry limit'')) (\<lambda>_. f values))"

definition network_documents :: "json list \<Rightarrow> document list option" where
  "network_documents vs =
    (if list_all (\<lambda>v. case v of JObj _ \<Rightarrow> True | _ \<Rightarrow> False) vs
     then Some (map (\<lambda>v. case v of JObj d \<Rightarrow> d | _ \<Rightarrow> []) vs) else None)"

definition docker_networks_are_canonical :: "document list \<Rightarrow> contract_error + unit" where
  "docker_networks_are_canonical values =
    rbind (check (length values \<le> 64) ''docker_networks exceeds 64 networks'') (\<lambda>_.
      let network_ids = map (\<lambda>n. get_str n ''network_id'') values;
          subnet_count = sum_list (map (\<lambda>n. length (get_strs n ''subnet_cidrs'')) values);
          gateway_count = sum_list (map (\<lambda>n. length (get_strs n ''gateway_addresses'')) values)
      in
      rbind (check (network_ids = sort (remdups network_ids)) ''docker_networks must have unique sorted network IDs'') (\<lambda>_.
        check (subnet_count \<le> 128 \<and> gateway_count \<le> 128) ''Docker network address totals exceed 128''))"

definition docker_networks_field :: validator where
  "docker_networks_field v =
    rbind (pcc_wire_tuple v) (\<lambda>vs.
      case network_documents vs of
        None \<Rightarrow> type_error
      | Some docs \<Rightarrow> rbind (rseq (map valid_PCCDockerNetworkV1 docs)) docker_networks_are_canonical)"

definition get_networks :: "document \<Rightarrow> document list" where
  "get_networks doc =
    (case doc_get doc ''docker_networks'' of
       JArr vs \<Rightarrow> (case network_documents vs of Some docs \<Rightarrow> docs | None \<Rightarrow> []) | _ \<Rightarrow> [])"

definition failure_reasons_are_canonical :: "str list \<Rightarrow> contract_error + unit" where
  "failure_reasons_are_canonical values =
    rbind (check (list_all (\<lambda>v. v \<in> set PCC_FAILURE_REASONS) values) ''literal_error'') (\<lambda>_.
    rbind (check (values \<noteq> []) ''failure_reasons must be nonempty'') (\<lambda>_.
      check (values = sort (remdups values)) ''failure_reasons must be unique and sorted''))"

definition trigger_field :: "(bytes \<Rightarrow> bytes) \<Rightarrow> validator" where
  "trigger_field H v =
    (case v of JObj d \<Rightarrow> rbind (valid_PCCFalcoTriggerProjectionV1 H d) (\<lambda>_. Inr ()) | _ \<Rightarrow> type_error)"

definition PCCCorrelationSnapshotV1_fields :: "(bytes \<Rightarrow> bytes) \<Rightarrow> field_spec list" where
  "PCCCorrelationSnapshotV1_fields H =
    [required ''schema_version'' (literal [''agmind.pcc-correlation-snapshot.v1'']),
     required ''outcome'' (literal [''complete'', ''failed'']),
     required ''request_sha256'' (text_field HEX64 ''request_sha256 must be 64 lowercase hex''),
     required ''trigger'' (trigger_field H),
     required ''decision_time'' (str_field decision_time_is_microsecond_exact),
     option_field ''detector_bundle_sha256'' (text_field HEX64 ''detector_bundle_sha256 must be 64 lowercase hex''),
     required ''requested_ttl_seconds'' (int_field 30 300),
     option_field ''special_use_registry_sha256'' (literal [PCC_SPECIAL_USE_REGISTRY_SHA256]),
     option_field ''operator_denied_networks'' (bounded_tuple 128 ''operator_denied_networks'' (\<lambda>vs. pcc_ipv4_network_tuple vs ''operator_denied_networks'')),
     option_field ''operator_denied_addresses'' (bounded_tuple 128 ''operator_denied_addresses'' (\<lambda>vs. pcc_ipv4_address_tuple vs ''operator_denied_addresses'')),
     option_field ''operator_denylist_sha256'' (text_field HEX64 ''operator_denylist_sha256 must be 64 lowercase hex''),
     option_field ''management_denied_networks'' (bounded_tuple 128 ''management_denied_networks'' (\<lambda>vs. pcc_ipv4_network_tuple vs ''management_denied_networks'')),
     option_field ''management_denied_addresses'' (bounded_tuple 128 ''management_denied_addresses'' (\<lambda>vs. pcc_ipv4_address_tuple vs ''management_denied_addresses'')),
     option_field ''management_denylist_sha256'' (text_field HEX64 ''management_denylist_sha256 must be 64 lowercase hex''),
     option_field ''docker_networks'' docker_networks_field,
     option_field ''docker_network_snapshot_sha256'' (text_field HEX64 ''docker_network_snapshot_sha256 must be 64 lowercase hex''),
     option_field ''docker_container_id'' (text_field HEX64 ''docker_container_id must be 64 lowercase hex''),
     option_field ''docker_started_at'' time_field,
     option_field ''image_id'' (text_field (hex_id ''sha256:'' 64) ''image_id must be an immutable Docker image ID''),
     option_field ''repo_digests'' (bounded_tuple 16 ''repo_digests'' repositories_are_canonical),
     option_field ''immutable_spec_sha256'' (text_field HEX64 ''immutable_spec_sha256 must be 64 lowercase hex''),
     option_field ''inventory_generation'' (int_field 1 MAX_UINT64),
     option_field ''inventory_revision'' (int_field 1 MAX_UINT64),
     option_field ''inventory_observed_at'' time_field,
     option_field ''network_mode'' (ascii_field ''network_mode'' 128),
     option_field ''network_driver'' (ascii_field ''network_driver'' 64),
     option_field ''privileged'' bool_field,
     option_field ''configured_cap_add'' (bounded_tuple 128 ''configured_cap_add'' (\<lambda>vs. pcc_ascii_tuple vs ''configured_cap_add'' 64)),
     option_field ''configured_cap_drop'' (bounded_tuple 128 ''configured_cap_drop'' (\<lambda>vs. pcc_ascii_tuple vs ''configured_cap_drop'' 64)),
     option_field ''effective_cap_net_admin'' bool_field,
     option_field ''running'' bool_field,
     option_field ''failure_reasons'' (any_tuple_field failure_reasons_are_canonical),
     required ''coverage_through_sequence'' (int_field 1 MAX_UINT64),
     required ''hard_limits_version'' (literal [''pcc-hard-limits-v1'']),
     option_field ''boot_transition_hop_count'' (int_field 1 1024),
     option_field ''boot_transition_chain_sha256'' (text_field HEX64 ''boot_transition_chain_sha256 must be 64 lowercase hex'')]"

text \<open>The request the snapshot answers, rebuilt from the trigger.\<close>

definition snapshot_request :: "document \<Rightarrow> document" where
  "snapshot_request doc =
    (let trigger = get_obj doc ''trigger'' in
     [(''schema_version'', JStr ''agmind.pcc-correlation-snapshot-request.v1''),
      (''trigger_event_id'', doc_get trigger ''event_id''),
      (''trigger_content_sha256'', doc_get trigger ''content_sha256''),
      (''trigger_source_sequence'', doc_get trigger ''source_sequence''),
      (''requested_ttl_seconds'', doc_get doc ''requested_ttl_seconds'')])"

definition trigger_bindings :: "(str \<times> str) list" where
  "trigger_bindings =
    [(''docker_container_id'', ''container_id''), (''docker_started_at'', ''container_start_time''), (''image_id'', ''image_id''),
     (''repo_digests'', ''repo_digests''), (''immutable_spec_sha256'', ''immutable_spec_sha256''),
     (''inventory_generation'', ''inventory_generation''), (''inventory_revision'', ''inventory_revision'')]"

definition complete_snapshot_is_bound :: "(bytes \<Rightarrow> bytes) \<Rightarrow> document \<Rightarrow> contract_error + unit" where
  "complete_snapshot_is_bound H doc =
    rbind (check (list_all (in_fields_set doc) PCC_COMPLETE_FIELDS \<and> \<not> list_ex (in_fields_set doc) PCC_FAILED_FIELDS)
      ''complete snapshot has an inexact discriminated shape'') (\<lambda>_.
    rbind (check (list_all (\<lambda>name. doc_get doc name \<noteq> JNull) PCC_COMPLETE_FIELDS) ''complete snapshot lacks an authoritative field'') (\<lambda>_.
    rbind (pcc_operator_denylist_sha256 H (get_strs doc ''operator_denied_networks'') (get_strs doc ''operator_denied_addresses'')) (\<lambda>operator.
    rbind (check (operator = get_str doc ''operator_denylist_sha256'') ''operator_denylist_sha256 does not bind its arrays'') (\<lambda>_.
    rbind (pcc_management_denylist_sha256 H (get_strs doc ''management_denied_networks'') (get_strs doc ''management_denied_addresses'')) (\<lambda>management.
    rbind (check (management = get_str doc ''management_denylist_sha256'') ''management_denylist_sha256 does not bind its arrays'') (\<lambda>_.
    rbind (pcc_docker_network_snapshot_sha256 H (get_networks doc)) (\<lambda>networks.
    rbind (check (networks = get_str doc ''docker_network_snapshot_sha256'') ''docker_network_snapshot_sha256 does not bind networks'') (\<lambda>_.
    rbind (lift_ident (canonical (doc_get doc ''docker_networks''))) (\<lambda>raw.
    rbind (check (int (length raw) \<le> 16 * 1024) ''docker_networks exceeds 16 KiB'') (\<lambda>_.
    rbind (check (list_all (\<lambda>(left, right). doc_get doc left = doc_get (get_obj doc ''trigger'') right) trigger_bindings)
      ''snapshot inventory does not bind retained trigger'') (\<lambda>_.
    rbind (lift_ident (canonical (JObj (model_dump doc)))) (\<lambda>normalized.
      check (int (length normalized) \<le> 24 * 1024) ''complete correlation snapshot exceeds 24 KiB''))))))))))))"

definition failed_snapshot_is_exact :: "document \<Rightarrow> contract_error + unit" where
  "failed_snapshot_is_exact doc =
    (let boot_fields = [''boot_transition_hop_count'', ''boot_transition_chain_sha256''] in
     rbind (check (in_fields_set doc ''failure_reasons'' \<and> \<not> list_ex (in_fields_set doc) PCC_COMPLETE_FIELDS)
       ''failed snapshot has an inexact discriminated shape'') (\<lambda>_.
     rbind (if get_strs doc ''failure_reasons'' = [''observer_boot_changed'']
            then check (list_all (in_fields_set doc) boot_fields) ''cross-boot failure lacks transition-chain proof''
            else check (\<not> (doc_get doc ''failure_reasons'' = JNull \<or> ''observer_boot_changed'' \<in> set (get_strs doc ''failure_reasons'') \<or>
                list_ex (in_fields_set doc) boot_fields))
              ''ordinary failed snapshot has cross-boot authority'') (\<lambda>_.
       case get_str_opt doc ''boot_transition_chain_sha256'' of
         None \<Rightarrow> Inr ()
       | Some chain \<Rightarrow> check (fromhex chain \<noteq> None) ''invalid boot transition chain digest'')))"

definition outcome_and_cross_bindings_are_exact :: "(bytes \<Rightarrow> bytes) \<Rightarrow> document \<Rightarrow> contract_error + unit" where
  "outcome_and_cross_bindings_are_exact H doc =
    rbind (check (\<not> list_ex (\<lambda>name. in_fields_set doc name \<and> doc_get doc name = JNull) (PCC_COMPLETE_FIELDS @ PCC_FAILED_FIELDS))
      ''optional fields must be absent rather than null'') (\<lambda>_.
    rbind (valid_PCCCorrelationSnapshotRequestV1 (snapshot_request doc)) (\<lambda>request.
    rbind (pcc_correlation_request_sha256 H request) (\<lambda>expected.
    rbind (check (expected = get_str doc ''request_sha256'') ''request_sha256 does not bind the exact narrow request'') (\<lambda>_.
    rbind (check (get_int (get_obj doc ''trigger'') ''source_sequence'' \<le> get_int doc ''coverage_through_sequence'')
      ''coverage prefix ends before the retained trigger'') (\<lambda>_.
      if get_str doc ''outcome'' = ''complete'' then complete_snapshot_is_bound H doc
      else failed_snapshot_is_exact doc)))))"

definition valid_PCCCorrelationSnapshotV1 :: "(bytes \<Rightarrow> bytes) \<Rightarrow> document \<Rightarrow> contract_error + document" where
  "valid_PCCCorrelationSnapshotV1 H =
    model_validate (PCCCorrelationSnapshotV1_fields H) (outcome_and_cross_bindings_are_exact H)"

section \<open>Boot-transition chains\<close>

text \<open>One hop follows another: it leaves the boot the other entered, and starts after it ended.\<close>

definition hop_follows :: "document \<Rightarrow> document \<Rightarrow> bool" where
  "hop_follows a b \<longleftrightarrow> get_str b ''previous_boot_id'' = get_str a ''boot_id'' \<and>
    hop_end_sequence a < get_int b ''source_sequence'' \<and> hop_end_sequence a \<le> get_int b ''previous_source_sequence''"

lemma boot_chain_loop_sound:
  assumes "boot_chain_loop E B prior e hops = Inr ()" and "\<forall>h\<in>set hops. distinct (hop_event_ids h)"
    and "\<forall>p. prior = Some p \<longrightarrow> e = hop_end_sequence p"
  shows "distinct (concat (map hop_event_ids hops)) \<and> set (concat (map hop_event_ids hops)) \<inter> set E = {} \<and>
    distinct (map (\<lambda>h. get_str h ''boot_id'') hops) \<and> set (map (\<lambda>h. get_str h ''boot_id'') hops) \<inter> set B = {} \<and>
    successively hop_follows (case prior of None \<Rightarrow> hops | Some p \<Rightarrow> p # hops)"
  using assms
proof (induction E B prior e hops rule: boot_chain_loop.induct)
  case (1 E B prior e)
  then show ?case by (cases prior) auto
next
  case (2 E B prior e hop hops)
  from 2(2) have c: "set E \<inter> set (hop_event_ids hop) = {}" "get_str hop ''boot_id'' \<notin> set B"
    "\<And>p. prior = Some p \<Longrightarrow> hop_follows p hop"
    and r: "boot_chain_loop (hop_event_ids hop @ E) (get_str hop ''boot_id'' # B) (Some hop) (hop_end_sequence hop) hops = Inr ()"
    using 2(4) by (auto simp: result_simps hop_follows_def)
  have "distinct (concat (map hop_event_ids hops)) \<and> set (concat (map hop_event_ids hops)) \<inter> set (hop_event_ids hop @ E) = {} \<and>
    distinct (map (\<lambda>h. get_str h ''boot_id'') hops) \<and> set (map (\<lambda>h. get_str h ''boot_id'') hops) \<inter> set (get_str hop ''boot_id'' # B) = {} \<and>
    successively hop_follows (hop # hops)"
    using "2.IH" [OF r] 2(3) by simp
  with c 2(3) show ?case by (auto split: option.splits)
qed

lemma hop_ids_distinct:
  assumes "valid_PCCBootTransitionHopV1 d = Inr d'"
  shows "distinct (hop_event_ids d)"
proof -
  have a: "boundary_and_rotation_pair_are_exact d = Inr ()"
    using assms by (simp add: valid_PCCBootTransitionHopV1_def model_validate_Inr)
  have n: "get_str_opt d ''rotation_companion_event_id'' = None" if "doc_get d ''rotation_companion_event_id'' = JNull"
    using that by (simp add: get_str_opt_def)
  from a show ?thesis
    unfolding boundary_and_rotation_pair_are_exact_def Let_def result_simps
    by (auto simp: result_simps hop_event_ids_def ROTATION_COMPANION_FIELDS_def n split: if_splits option.splits)
qed

lemma chain_payload:
  assumes "pcc_boot_transition_chain_sha256 H chain = Inr h"
  shows "chain \<noteq> []" and "\<forall>d\<in>set chain. valid_PCCBootTransitionHopV1 (model_dump d) = Inr (model_dump d)"
    and "boot_chain_loop [] [get_str (model_dump (hd chain)) ''previous_boot_id''] None 0 (map model_dump chain) = Inr ()"
proof -
  obtain payload where p: "rseq (map (\<lambda>hop. valid_PCCBootTransitionHopV1 (model_dump hop)) chain) = Inr payload"
    and l: "boot_chain_loop [] [get_str (hd payload) ''previous_boot_id''] None 0 payload = Inr ()" and n: "chain \<noteq> []"
    using assms unfolding pcc_boot_transition_chain_sha256_def result_simps by (cases chain) fastforce+
  have v: "valid_PCCBootTransitionHopV1 d = Inr d' \<Longrightarrow> d' = d" for d d'
    by (simp add: valid_PCCBootTransitionHopV1_def model_validate_Inr)
  have "map (\<lambda>hop. valid_PCCBootTransitionHopV1 (model_dump hop)) chain = map Inr payload"
    using p by (simp add: rseq_Inr_iff)
  then have e: "payload = map model_dump chain" and ok: "\<forall>d\<in>set chain. valid_PCCBootTransitionHopV1 (model_dump d) = Inr (model_dump d)"
  proof (induction chain arbitrary: payload)
    case (Cons d chain)
    { case 1 with Cons v show ?case by (cases payload) auto }
    { case 2 with Cons v show ?case by (cases payload) auto }
  qed auto
  show "chain \<noteq> []" by (rule n)
  show "\<forall>d\<in>set chain. valid_PCCBootTransitionHopV1 (model_dump d) = Inr (model_dump d)" by (rule ok)
  show "boot_chain_loop [] [get_str (model_dump (hd chain)) ''previous_boot_id''] None 0 (map model_dump chain) = Inr ()"
    using l n unfolding e by (simp add: hd_map)
qed

section \<open>Snapshots\<close>

lemma snapshot_facts:
  assumes "valid_PCCCorrelationSnapshotV1 H d = Inr d'"
  shows "valid_PCCCorrelationSnapshotRequestV1 (snapshot_request d) = Inr (snapshot_request d)"
    and "pcc_correlation_request_sha256 H (snapshot_request d) = Inr (get_str d ''request_sha256'')"
    and "get_int (get_obj d ''trigger'') ''source_sequence'' \<le> get_int d ''coverage_through_sequence''"
    and "get_str d ''outcome'' = ''complete'' \<Longrightarrow> complete_snapshot_is_bound H d = Inr ()"
    and "get_str d ''outcome'' \<noteq> ''complete'' \<Longrightarrow> failed_snapshot_is_exact d = Inr ()"
proof -
  have v: "outcome_and_cross_bindings_are_exact H d = Inr ()"
    using assms by (simp add: valid_PCCCorrelationSnapshotV1_def model_validate_Inr)
  have q: "valid_PCCCorrelationSnapshotRequestV1 r = Inr r' \<Longrightarrow> r' = r" for r r'
    by (simp add: valid_PCCCorrelationSnapshotRequestV1_def model_validate_Inr)
  obtain r where r: "valid_PCCCorrelationSnapshotRequestV1 (snapshot_request d) = Inr r"
    and e: "pcc_correlation_request_sha256 H r = Inr (get_str d ''request_sha256'')"
    and s: "get_int (get_obj d ''trigger'') ''source_sequence'' \<le> get_int d ''coverage_through_sequence''"
    and o: "(if get_str d ''outcome'' = ''complete'' then complete_snapshot_is_bound H d else failed_snapshot_is_exact d) = Inr ()"
    using v unfolding outcome_and_cross_bindings_are_exact_def result_simps by blast
  show "valid_PCCCorrelationSnapshotRequestV1 (snapshot_request d) = Inr (snapshot_request d)"
    "pcc_correlation_request_sha256 H (snapshot_request d) = Inr (get_str d ''request_sha256'')"
    using r e q [OF r] by simp_all
  show "get_int (get_obj d ''trigger'') ''source_sequence'' \<le> get_int d ''coverage_through_sequence''" by (rule s)
  show "get_str d ''outcome'' = ''complete'' \<Longrightarrow> complete_snapshot_is_bound H d = Inr ()"
    "get_str d ''outcome'' \<noteq> ''complete'' \<Longrightarrow> failed_snapshot_is_exact d = Inr ()" using o by simp_all
qed

text \<open>The octets a request hash is computed from.\<close>

definition request_message :: "document \<Rightarrow> bytes" where
  "request_message d = (case canonical (JObj (model_dump (snapshot_request d))) of Inr raw \<Rightarrow> raw | Inl _ \<Rightarrow> [])"

lemma snapshot_request_message:
  assumes "valid_PCCCorrelationSnapshotV1 H d = Inr d'"
  shows "canonical (JObj (model_dump (snapshot_request d))) = Inr (request_message d)"
    and "get_str d ''request_sha256'' = hexdigest H (request_message d)"
  using snapshot_facts(1,2) [OF assms]
  by (auto simp: pcc_correlation_request_sha256_def result_simps request_message_def)

lemma request_shape:
  assumes "valid_PCCCorrelationSnapshotV1 H d = Inr d'"
  obtains e c i t where "snapshot_request d =
    [(''schema_version'', JStr ''agmind.pcc-correlation-snapshot-request.v1''), (''trigger_event_id'', JStr e),
     (''trigger_content_sha256'', JStr c), (''trigger_source_sequence'', JInt i), (''requested_ttl_seconds'', JInt t)]"
proof -
  have "field_errors PCCCorrelationSnapshotRequestV1_fields (snapshot_request d) = Inr []"
    using snapshot_facts(1) [OF assms] by (simp add: valid_PCCCorrelationSnapshotRequestV1_def model_validate_Inr)
  then have "\<exists>e c i t. doc_get (get_obj d ''trigger'') ''event_id'' = JStr e \<and> doc_get (get_obj d ''trigger'') ''content_sha256'' = JStr c \<and>
      doc_get (get_obj d ''trigger'') ''source_sequence'' = JInt i \<and> doc_get d ''requested_ttl_seconds'' = JInt t"
    unfolding field_errors_Nil PCCCorrelationSnapshotRequestV1_fields_def snapshot_request_def Let_def
    by (simp add: field_simps_Inr) blast
  with that show ?thesis unfolding snapshot_request_def Let_def by force
qed

section \<open>Denylists\<close>

definition denylist_document :: "str list \<Rightarrow> str list \<Rightarrow> json" where
  "denylist_document addresses networks =
    JObj [(''denied_addresses'', JArr (map JStr addresses)), (''denied_networks'', JArr (map JStr networks))]"

lemma pcc_ipv4_tuple_Inr: "pcc_ipv4_tuple vs f b = Inr ws \<Longrightarrow> ws = vs"
  by (auto simp: pcc_ipv4_tuple_def result_simps)

lemma denylist_payload_Inr:
  "pcc_denylist_payload domain nets addrs = Inr m \<Longrightarrow> \<exists>r. canonical (denylist_document addrs nets) = Inr r \<and> m = domain @ r"
  unfolding pcc_denylist_payload_def result_simps denylist_document_def by (blast dest: pcc_ipv4_tuple_Inr)

lemma denylist_payload_inject:
  assumes "pcc_denylist_payload domain nets addrs = Inr m" and "pcc_denylist_payload domain nets' addrs' = Inr m"
  shows "nets = nets' \<and> addrs = addrs'"
proof -
  obtain r where r: "canonical (denylist_document addrs nets) = Inr r" "canonical (denylist_document addrs' nets') = Inr r"
    using assms [THEN denylist_payload_Inr] by auto
  have "json_norm (denylist_document addrs nets) = json_norm (denylist_document addrs' nets')"
    by (rule canonical_norm [OF r]) (simp_all add: list_all_iff denylist_document_def)
  note m = norm_members [OF this [unfolded denylist_document_def]]
  have "map_option json_norm (Some (JArr (map JStr addrs))) = map_option json_norm (Some (JArr (map JStr addrs')))"
    using m [of "''denied_addresses''"] by simp
  moreover have "map_option json_norm (Some (JArr (map JStr nets))) = map_option json_norm (Some (JArr (map JStr nets')))"
    using m [of "''denied_networks''"] by simp
  ultimately show ?thesis by (simp add: o_def inj_map_eq_map inj_def)
qed

lemma denylist_domains_differ: "OPERATOR_DENYLIST_DOMAIN @ x \<noteq> MANAGEMENT_DENYLIST_DOMAIN @ y"
  by (simp add: OPERATOR_DENYLIST_DOMAIN_def MANAGEMENT_DENYLIST_DOMAIN_def)

section \<open>Properties\<close>

text \<open>
  C18. A boot-transition chain that can be hashed is a genuine history: every hop leaves the boot the
  previous one entered and starts strictly after it ended, the source sequences increase strictly,
  no boot is entered twice or returned to, and no event is used twice, companions included.
\<close>

theorem boot_chain_is_linear_history:
  assumes "pcc_boot_transition_chain_sha256 H chain = Inr h"
  shows "successively hop_follows (map model_dump chain) \<and>
    sorted_wrt (<) (map (\<lambda>hop. get_int (model_dump hop) ''source_sequence'') chain) \<and>
    distinct (get_str (model_dump (hd chain)) ''previous_boot_id'' # map (\<lambda>hop. get_str (model_dump hop) ''boot_id'') chain) \<and>
    distinct (concat (map (\<lambda>hop. hop_event_ids (model_dump hop)) chain))"
proof -
  note p = chain_payload [OF assms]
  have d: "\<forall>hop\<in>set (map model_dump chain). distinct (hop_event_ids hop)" using p(2) hop_ids_distinct by auto
  note s = boot_chain_loop_sound [OF p(3) d]
  have f: "successively hop_follows (map model_dump chain)" using s by simp
  have "successively (\<lambda>a b. get_int a ''source_sequence'' < get_int b ''source_sequence'') (map model_dump chain)"
    by (rule successively_mono [OF f]) (auto simp: hop_follows_def hop_end_sequence_def)
  then have "successively (<) (map (\<lambda>hop. get_int (model_dump hop) ''source_sequence'') chain)"
    by (simp add: successively_map)
  then have "sorted_wrt (<) (map (\<lambda>hop. get_int (model_dump hop) ''source_sequence'') chain)"
    by (simp add: successively_conv_sorted_wrt)
  with s f show ?thesis by (simp add: o_def)
qed

definition example_hop :: "char \<Rightarrow> str \<Rightarrow> int \<Rightarrow> str \<Rightarrow> int \<Rightarrow> document" where
  "example_hop e boot sq previous previous_sq =
    [(''boundary_event_type'', JStr ''observer_boot_boundary''), (''event_id'', JStr (''evt_'' @ replicate 64 e)),
     (''content_sha256'', JStr (replicate 64 e)), (''source_sequence'', JInt sq),
     (''boot_id'', JStr boot), (''previous_boot_id'', JStr previous), (''previous_source_sequence'', JInt previous_sq)]"

definition example_chain :: "document list" where
  "example_chain =
    [example_hop (CHR ''1'') ''00000000-0000-4000-8000-000000000001'' 5 ''00000000-0000-4000-8000-000000000000'' 4,
     example_hop (CHR ''2'') ''00000000-0000-4000-8000-000000000002'' 9 ''00000000-0000-4000-8000-000000000001'' 8]"

theorem boot_chain_is_linear_history_witness:
  "sorted_wrt (<) (map (\<lambda>hop. get_int (model_dump hop) ''source_sequence'') example_chain)"
proof -
  have "pcc_boot_transition_chain_sha256 (\<lambda>_. replicate 32 nul) example_chain = Inr (replicate 64 (CHR ''0''))"
    by code_simp
  from boot_chain_is_linear_history [OF this] show ?thesis by blast
qed

text \<open>
  C36. A denylist digest fixes the denylist and whose it is: equal digests of two denylists, of the
  operator or of the management plane, come from the same plane with the same networks and
  addresses, unless the digest collides on the two explicit payloads.
\<close>

theorem denylist_digest_binds:
  assumes "D \<in> {OPERATOR_DENYLIST_DOMAIN, MANAGEMENT_DENYLIST_DOMAIN}" and "D' \<in> {OPERATOR_DENYLIST_DOMAIN, MANAGEMENT_DENYLIST_DOMAIN}"
    and "pcc_denylist_sha256 H D nets addrs = Inr h" and "pcc_denylist_sha256 H D' nets' addrs' = Inr h"
  shows "D = D' \<and> nets = nets' \<and> addrs = addrs' \<or>
    (\<exists>m m'. pcc_denylist_payload D nets addrs = Inr m \<and> pcc_denylist_payload D' nets' addrs' = Inr m' \<and> collides H m m')"
proof -
  obtain m m' where m: "pcc_denylist_payload D nets addrs = Inr m" "pcc_denylist_payload D' nets' addrs' = Inr m'"
    and h: "H m = H m'"
    using assms(3,4) by (auto simp: pcc_denylist_sha256_def result_simps hexdigest_inject)
  show ?thesis
  proof (cases "m = m'")
    case True
    obtain r r' where "m = D @ r" "m' = D' @ r'" using m [THEN denylist_payload_Inr] by blast
    then have "D = D'" using assms(1,2) True denylist_domains_differ by (metis insertE singletonD)
    then show ?thesis using m True denylist_payload_inject by blast
  qed (use m h in \<open>auto simp: collides_def\<close>)
qed

theorem denylist_digest_binds_witness:
  "\<exists>m m'. pcc_denylist_payload OPERATOR_DENYLIST_DOMAIN [''10.0.0.0/8''] [''1.1.1.1''] = Inr m \<and>
    pcc_denylist_payload MANAGEMENT_DENYLIST_DOMAIN [] [] = Inr m' \<and> collides (\<lambda>_. replicate 32 nul) m m'"
proof -
  have v: "pcc_denylist_sha256 (\<lambda>_. replicate 32 nul) OPERATOR_DENYLIST_DOMAIN [''10.0.0.0/8''] [''1.1.1.1''] = Inr (replicate 64 (CHR ''0''))"
    "pcc_denylist_sha256 (\<lambda>_. replicate 32 nul) MANAGEMENT_DENYLIST_DOMAIN [] [] = Inr (replicate 64 (CHR ''0''))"
    by code_simp+
  show ?thesis using denylist_digest_binds [OF _ _ v] by simp
qed

end
