(* ===== verification/PccProps.thy ===== *)
theory PccProps
  imports PccContracts
begin

text \<open>
  Properties of accepted PCC correlation snapshots, with example snapshots accepted by the model
  under a constant digest.
\<close>

section \<open>Example snapshots\<close>

definition zeros :: "nat \<Rightarrow> str" where "zeros n = replicate n (CHR ''0'')"

definition example_trigger :: document where
  "example_trigger =
    [(''schema_version'', JStr ''agmind.pcc-falco-trigger-projection.v1''), (''event_id'', JStr (''evt_'' @ zeros 64)),
     (''content_sha256'', JStr (zeros 64)), (''normalized_fields_sha256'', JStr (zeros 64)), (''source_sequence'', JInt 7),
     (''source_id'', JStr ''agmind-observerd''), (''source_version'', JStr ''1''),
     (''host_id'', JStr ''00000000-0000-4000-8000-000000000000''), (''boot_id'', JStr ''00000000-0000-4000-8000-000000000000''),
     (''event_time'', JStr ''2026-01-02T03:04:05Z''), (''ingest_time'', JStr ''2026-01-02T03:04:05Z''),
     (''clock_uncertainty_ms'', JInt 1), (''inventory_generation'', JInt 1), (''inventory_revision'', JInt 1),
     (''container_id'', JStr (zeros 64)), (''container_start_time'', JStr ''2026-01-02T03:04:05Z''),
     (''release_id'', JStr (''rel_'' @ zeros 32)),
     (''detector_rule'', JStr ''AGmind PCC Suspicious Process Outbound Connect''),
     (''detector_rule_version'', JStr ''agmind-pcc-rules-v1''), (''falco_version'', JStr ''0.44.1''),
     (''evt_res'', JStr ''EINPROGRESS''), (''successful_connect'', JBool True), (''investigation_only'', JBool False),
     (''image_id'', JStr (''sha256:'' @ zeros 64)), (''repo_digests'', JArr []), (''immutable_spec_sha256'', JStr (zeros 64)),
     (''proc_name'', JStr ''sh''), (''proc_exe_path'', JStr ''/bin/sh''), (''proc_parent_name'', JStr ''init''),
     (''destination_ipv4'', JStr ''8.8.8.8''), (''destination_port'', JInt 443), (''l4_protocol'', JStr ''tcp''),
     (''missing_required_fields'', JArr []), (''coverage_flags'', JArr []), (''raw_event_sha256'', JStr (zeros 64))]"

definition example_snapshot_head :: document where
  "example_snapshot_head =
    [(''schema_version'', JStr ''agmind.pcc-correlation-snapshot.v1''), (''request_sha256'', JStr (zeros 64)),
     (''trigger'', JObj example_trigger), (''decision_time'', JStr ''2026-01-02T03:04:06.000001Z''),
     (''requested_ttl_seconds'', JInt 60), (''coverage_through_sequence'', JInt 9), (''hard_limits_version'', JStr ''pcc-hard-limits-v1'')]"

definition example_failed_snapshot :: document where
  "example_failed_snapshot =
    example_snapshot_head @ [(''outcome'', JStr ''failed''), (''failure_reasons'', JArr [JStr ''inventory_stale''])]"


abbreviation H0 :: "bytes \<Rightarrow> bytes" where "H0 \<equiv> \<lambda>_. replicate 32 nul"

lemma constant_digest_zeros: "hexdigest H0 m = zeros 64"
  unfolding hexdigest_def by code_simp






section \<open>Properties\<close>



text \<open>
  A snapshot's request hash fixes what was asked: two accepted snapshots with the same \<open>request_sha256\<close>
  answer the same request, unless the digest collides on the two explicit requests.
\<close>

lemma snapshot_request_hash_binds:
  assumes "valid_PCCCorrelationSnapshotV1 H d = Inr d'" and "valid_PCCCorrelationSnapshotV1 H e = Inr e'"
    and "get_str d ''request_sha256'' = get_str e ''request_sha256''"
  shows "snapshot_request d = snapshot_request e \<or> collides H (request_message d) (request_message e)"
proof -
  obtain a1 a2 a3 a4 where a: "snapshot_request d =
    [(''schema_version'', JStr ''agmind.pcc-correlation-snapshot-request.v1''), (''trigger_event_id'', JStr a1),
     (''trigger_content_sha256'', JStr a2), (''trigger_source_sequence'', JInt a3), (''requested_ttl_seconds'', JInt a4)]"
    by (rule request_shape [OF assms(1)])
  obtain b1 b2 b3 b4 where b: "snapshot_request e =
    [(''schema_version'', JStr ''agmind.pcc-correlation-snapshot-request.v1''), (''trigger_event_id'', JStr b1),
     (''trigger_content_sha256'', JStr b2), (''trigger_source_sequence'', JInt b3), (''requested_ttl_seconds'', JInt b4)]"
    by (rule request_shape [OF assms(2)])
  have h: "H (request_message d) = H (request_message e)"
    using snapshot_request_message(2) [OF assms(1)] snapshot_request_message(2) [OF assms(2)] assms(3)
    by (simp add: hexdigest_inject)
  show ?thesis
  proof (cases "request_message d = request_message e")
    case True
    have "json_norm (JObj (model_dump (snapshot_request d))) = json_norm (JObj (model_dump (snapshot_request e)))"
      using canonical_norm [OF snapshot_request_message(1) [OF assms(1)]] snapshot_request_message(1) [OF assms(2)] True
      by (simp add: a b model_dump_def)
    note m = norm_members [OF this]
    have g: "map_option json_norm (map_of (snapshot_request d) k) = map_option json_norm (map_of (snapshot_request e) k)" for k
      using m [of k] by (simp add: a b model_dump_def)
    show ?thesis
      using g [of "''trigger_event_id''"] g [of "''trigger_content_sha256''"] g [of "''trigger_source_sequence''"]
        g [of "''requested_ttl_seconds''"]
      by (simp add: a b)
  qed (use h in \<open>simp add: collides_def\<close>)
qed

end
