(* ===== verification/SpecialUse.thy ===== *)
theory SpecialUse
  imports ContractFields
begin

text \<open>
  The special-use address registry: \<open>SpecialUseEntry\<close>, \<open>ParsedSpecialUseRegistry\<close> and the strict CSV
  parser of \<open>core/agmind_immune/correlation/primitives.py\<close>, with the part of the standard library's
  \<open>csv\<close> reader it drives, and \<open>is_permitted_public_ipv4\<close> of \<open>core/agmind_immune/contracts.py\<close>.
  Shown here: the sorted index answers with the longest matching prefix, the permitted addresses are
  those the index calls reachable less multicast, broadcast and the deny lists, and denying more never
  permits more.
\<close>

section \<open>Definitions\<close>

subsection \<open>The registry and its index\<close>

datatype GlobalReachability = ReachTrue | ReachFalse | ReachUnspecified

record SpecialUseEntry =
  prefix :: str
  globally_reachable :: GlobalReachability

definition SpecialUseEntry_init :: "str \<Rightarrow> GlobalReachability \<Rightarrow> contract_error + SpecialUseEntry" where
  "SpecialUseEntry_init p r =
    (case ip_network p True of
       Inr (Net4 w) \<Rightarrow>
         if v4_network_str w \<noteq> p then Inl (ContractValue ''special-use prefix must be canonical IPv4'')
         else Inr \<lparr>prefix = p, globally_reachable = r\<rparr>
     | _ \<Rightarrow> Inl (ContractValue ''special-use prefix must be canonical IPv4''))"

type_synonym index_row = "int \<times> int \<times> GlobalReachability"

record ParsedSpecialUseRegistry =
  entries :: "SpecialUseEntry list"
  index :: "index_row list"

text \<open>The loop of \<open>__init__\<close>: a prefix may not repeat, and each entry contributes its network.\<close>

fun index_rows :: "str list \<Rightarrow> SpecialUseEntry list \<Rightarrow> contract_error + index_row list" where
  "index_rows seen_prefixes [] = Inr []"
| "index_rows seen_prefixes (entry # es) =
    (if prefix entry \<in> set seen_prefixes then Inl (ContractValue ''special-use entries contain a duplicate IPv4 prefix'')
     else case IPv4Network (prefix entry) True of
       Inl _ \<Rightarrow> Inl (ContractValue ''IPv4Network'')
     | Inr network \<Rightarrow>
         rbind (index_rows (prefix entry # seen_prefixes) es) (\<lambda>rows.
           Inr ((network_address network, prefixlen network, globally_reachable entry) # rows)))"

text \<open>\<open>index.sort(key=prefix length, reverse=True)\<close> keeps the order of equal keys.\<close>

definition ParsedSpecialUseRegistry_init :: "SpecialUseEntry list \<Rightarrow> contract_error + ParsedSpecialUseRegistry" where
  "ParsedSpecialUseRegistry_init es =
    rbind (index_rows [] es) (\<lambda>rows. Inr \<lparr>entries = es, index = sort_key (\<lambda>row. - fst (snd row)) rows\<rparr>)"

definition canonical_ipv4_address :: "str \<Rightarrow> contract_error + int" where
  "canonical_ipv4_address value =
    (case ip_address value of
       Inr (V4 n) \<Rightarrow> if v4_str n \<noteq> value then Inl (ContractValue ''IPv4 address must be canonical dotted decimal'') else Inr n
     | _ \<Rightarrow> Inl (ContractValue ''IPv4 address must be canonical dotted decimal''))"

fun scan_index :: "int \<Rightarrow> index_row list \<Rightarrow> GlobalReachability option" where
  "scan_index address_int [] = None"
| "scan_index address_int ((network_int, prefix_length, reachability) # rows) =
    (let host_bits = nat (32 - prefix_length) in
     if drop_bit host_bits address_int = drop_bit host_bits network_int then Some reachability
     else scan_index address_int rows)"

definition reachability_for :: "ParsedSpecialUseRegistry \<Rightarrow> str \<Rightarrow> contract_error + GlobalReachability option" where
  "reachability_for registry address =
    rbind (canonical_ipv4_address address) (\<lambda>address_int. Inr (scan_index address_int (index registry)))"


subsection \<open>Permitted destinations\<close>

text \<open>An entry of \<open>contracts.py\<close>: the network and whether the registry marks it reachable.\<close>

type_synonym special_use_row = "ipv4_network \<times> bool"

text \<open>\<open>max(matches, key=prefix length)\<close>: the first of the longest.\<close>

fun first_longest :: "special_use_row \<Rightarrow> special_use_row list \<Rightarrow> special_use_row" where
  "first_longest best [] = best"
| "first_longest best (e # es) =
    (if prefixlen (fst best) < prefixlen (fst e) then first_longest e es else first_longest best es)"

text \<open>
  The two \<open>any\<close> expressions over the deny entries, left to right: an entry that does not parse is
  a \<open>ValueError\<close>, unless an earlier one already denied the address. Both end in refusal, so the
  result is the option of an answer.
\<close>

fun any_network :: "int \<Rightarrow> str list \<Rightarrow> bool option" where
  "any_network value [] = Some False"
| "any_network value (w # ws) =
    (case ip_network w False of
       Inl _ \<Rightarrow> None
     | Inr (Net4 n) \<Rightarrow> if v4_contains n value then Some True else any_network value ws
     | Inr (Net6 _) \<Rightarrow> any_network value ws)"

fun any_address :: "int \<Rightarrow> str list \<Rightarrow> bool option" where
  "any_address value [] = Some False"
| "any_address value (a # as) =
    (case IPv4Address a of
       Inl _ \<Rightarrow> None
     | Inr n \<Rightarrow> if value = n then Some True else any_address value as)"

definition is_multicast :: "int \<Rightarrow> bool" where
  "is_multicast value \<longleftrightarrow> v4_contains \<lparr>network_address = 0xE0000000, prefixlen = 4\<rparr> value"

definition is_permitted_public_ipv4 :: "str \<Rightarrow> special_use_row list \<Rightarrow> str list \<Rightarrow> str list \<Rightarrow> bool" where
  "is_permitted_public_ipv4 address registry denied_networks denied_addresses =
    (case rbind (valid_ipv4 address) (\<lambda>text. map_err (\<lambda>_. ContractValue []) (IPv4Address text)) of
       Inl _ \<Rightarrow> False
     | Inr value \<Rightarrow>
         if is_multicast value \<or> value = 0xFFFFFFFF then False
         else if any_network value denied_networks \<noteq> Some False then False
         else if any_address value denied_addresses \<noteq> Some False then False
         else case filter (\<lambda>e. v4_contains (fst e) value) registry of
           [] \<Rightarrow> True
         | m # ms \<Rightarrow> snd (first_longest m ms))"

subsection \<open>The strict CSV reader\<close>

datatype csv_state = START_RECORD | START_FIELD | IN_FIELD | IN_QUOTED_FIELD | QUOTE_IN_QUOTED_FIELD | EAT_CRNL

record csv_reader =
  csv_st :: csv_state
  csv_field :: str
  csv_row :: "str list"

definition csv_save :: "csv_state \<Rightarrow> csv_reader \<Rightarrow> csv_reader" where
  "csv_save st r = r\<lparr>csv_st := st, csv_field := [], csv_row := csv_row r @ [csv_field r]\<rparr>"

definition csv_add :: "csv_state \<Rightarrow> char \<Rightarrow> csv_reader \<Rightarrow> csv_reader" where
  "csv_add st c r = r\<lparr>csv_st := st, csv_field := csv_field r @ [c]\<rparr>"

definition is_newline :: "char \<Rightarrow> bool" where
  "is_newline c \<longleftrightarrow> c = CHR 0x0A \<or> c = CHR 0x0D"

text \<open>One character of a line; \<open>None\<close> is the end of the line. The result \<open>None\<close> is \<open>csv.Error\<close>.\<close>

fun csv_field_char :: "char option \<Rightarrow> csv_reader \<Rightarrow> csv_reader" where
  "csv_field_char None r = csv_save START_RECORD r"
| "csv_field_char (Some c) r =
    (if is_newline c then csv_save EAT_CRNL r
     else if c = CHR 0x22 then r\<lparr>csv_st := IN_QUOTED_FIELD\<rparr>
     else if c = CHR '','' then csv_save START_FIELD r
     else csv_add IN_FIELD c r)"

definition csv_char :: "char option \<Rightarrow> csv_reader \<Rightarrow> csv_reader option" where
  "csv_char c r =
    (case csv_st r of
       START_RECORD \<Rightarrow>
         (case c of
            None \<Rightarrow> Some r
          | Some d \<Rightarrow> if is_newline d then Some (r\<lparr>csv_st := EAT_CRNL\<rparr>) else Some (csv_field_char c r))
     | START_FIELD \<Rightarrow> Some (csv_field_char c r)
     | IN_FIELD \<Rightarrow>
         (case c of
            None \<Rightarrow> Some (csv_save START_RECORD r)
          | Some d \<Rightarrow>
              if is_newline d then Some (csv_save EAT_CRNL r)
              else if d = CHR '','' then Some (csv_save START_FIELD r)
              else Some (csv_add IN_FIELD d r))
     | IN_QUOTED_FIELD \<Rightarrow>
         (case c of
            None \<Rightarrow> Some r
          | Some d \<Rightarrow>
              if d = CHR 0x22 then Some (r\<lparr>csv_st := QUOTE_IN_QUOTED_FIELD\<rparr>)
              else Some (csv_add IN_QUOTED_FIELD d r))
     | QUOTE_IN_QUOTED_FIELD \<Rightarrow>
         (case c of
            None \<Rightarrow> Some (csv_save START_RECORD r)
          | Some d \<Rightarrow>
              if d = CHR 0x22 then Some (csv_add IN_QUOTED_FIELD d r)
              else if d = CHR '','' then Some (csv_save START_FIELD r)
              else if is_newline d then Some (csv_save EAT_CRNL r)
              else None)
     | EAT_CRNL \<Rightarrow>
         (case c of
            None \<Rightarrow> Some (r\<lparr>csv_st := START_RECORD\<rparr>)
          | Some d \<Rightarrow> if is_newline d then Some r else None))"

text \<open>The lines of \<open>io.StringIO(text, newline="")\<close>, with their line ends.\<close>

fun split_lines :: "str \<Rightarrow> str list" where
  "split_lines [] = []"
| "split_lines [c] = [[c]]"
| "split_lines (c # d # s) =
    (if c = CHR 0x0A then [c] # split_lines (d # s)
     else if c = CHR 0x0D then (if d = CHR 0x0A then [c, d] # split_lines s else [c] # split_lines (d # s))
     else (case split_lines (d # s) of [] \<Rightarrow> [[c]] | l # ls \<Rightarrow> (c # l) # ls))"

fun csv_line :: "csv_reader \<Rightarrow> str \<Rightarrow> csv_reader option" where
  "csv_line r [] = csv_char None r"
| "csv_line r (c # s) = (case csv_char (Some c) r of None \<Rightarrow> None | Some r' \<Rightarrow> csv_line r' s)"

definition csv_start :: csv_reader where
  "csv_start = \<lparr>csv_st = START_RECORD, csv_field = [], csv_row = []\<rparr>"

text \<open>All rows; a row ends with the line on which the state is \<open>START_RECORD\<close> again.\<close>

fun csv_rows :: "csv_reader \<Rightarrow> str list \<Rightarrow> str list list option" where
  "csv_rows r [] = (if csv_st r = START_RECORD \<and> csv_field r = [] then Some [] else None)"
| "csv_rows r (l # ls) =
    (case csv_line r l of
       None \<Rightarrow> None
     | Some r' \<Rightarrow>
         if csv_st r' = START_RECORD then map_option ((#) (csv_row r')) (csv_rows csv_start ls) else csv_rows r' ls)"

subsection \<open>Parsing the registry\<close>

text \<open>
  The source reads rows lazily, so of a malformed row and a later syntax error it reports the
  first; here a syntax error anywhere is reported first. Both are \<open>ValueError\<close>.
\<close>

definition IANA_HEADER :: "str list" where
  "IANA_HEADER =
    [''Address Block'', ''Name'', ''RFC'', ''Allocation Date'', ''Termination Date'', ''Source'', ''Destination'',
     ''Forwardable'', ''Globally Reachable'', ''Reserved-by-Protocol'']"

text \<open>The UTF-8 forms of the characters \<open>str.strip\<close> removes.\<close>

definition space_texts :: "str list" where
  "space_texts =
    [[CHR 0x09], [CHR 0x0A], [CHR 0x0B], [CHR 0x0C], [CHR 0x0D], [CHR 0x1C], [CHR 0x1D], [CHR 0x1E], [CHR 0x1F], [CHR 0x20],
     [CHR 0xC2, CHR 0x85], [CHR 0xC2, CHR 0xA0], [CHR 0xE1, CHR 0x9A, CHR 0x80],
     [CHR 0xE2, CHR 0x80, CHR 0x80], [CHR 0xE2, CHR 0x80, CHR 0x81], [CHR 0xE2, CHR 0x80, CHR 0x82], [CHR 0xE2, CHR 0x80, CHR 0x83],
     [CHR 0xE2, CHR 0x80, CHR 0x84], [CHR 0xE2, CHR 0x80, CHR 0x85], [CHR 0xE2, CHR 0x80, CHR 0x86], [CHR 0xE2, CHR 0x80, CHR 0x87],
     [CHR 0xE2, CHR 0x80, CHR 0x88], [CHR 0xE2, CHR 0x80, CHR 0x89], [CHR 0xE2, CHR 0x80, CHR 0x8A], [CHR 0xE2, CHR 0x80, CHR 0xA8],
     [CHR 0xE2, CHR 0x80, CHR 0xA9], [CHR 0xE2, CHR 0x80, CHR 0xAF],
     [CHR 0xE2, CHR 0x81, CHR 0x9F], [CHR 0xE3, CHR 0x80, CHR 0x80]]"

fun strip_leading :: "str list \<Rightarrow> nat \<Rightarrow> str \<Rightarrow> str" where
  "strip_leading spaces 0 s = s"
| "strip_leading spaces (Suc n) s =
    (case filter (\<lambda>w. take (length w) s = w) spaces of
       [] \<Rightarrow> s
     | w # _ \<Rightarrow> strip_leading spaces n (drop (length w) s))"

definition strip :: "str \<Rightarrow> str" where
  "strip s =
    (let t = strip_leading space_texts (length s) s
     in rev (strip_leading (map rev space_texts) (length t) (rev t)))"

text \<open>One footnote \<open> [digits]\<close> at the end, if there is one, and all of them.\<close>

definition drop_footnote :: "str \<Rightarrow> str option" where
  "drop_footnote s =
    (if s \<noteq> [] \<and> last s = CHR '']'' then
       let r = rev (butlast s);
           digits = takeWhile is_digit r;
           rest = dropWhile is_digit r
       in if digits \<noteq> [] \<and> take 2 rest = ''[ '' then Some (rev (drop 2 rest)) else None
     else None)"

fun without_footnote_loop :: "nat \<Rightarrow> str \<Rightarrow> str" where
  "without_footnote_loop 0 s = s"
| "without_footnote_loop (Suc n) s = (case drop_footnote s of None \<Rightarrow> s | Some t \<Rightarrow> without_footnote_loop n t)"

definition without_footnote :: "str \<Rightarrow> str" where
  "without_footnote s = without_footnote_loop (length s) s"

definition parse_reachability :: "str \<Rightarrow> contract_error + GlobalReachability" where
  "parse_reachability value =
    (if value = [] then Inr ReachUnspecified
     else if without_footnote value = ''True'' then Inr ReachTrue
     else if without_footnote value = ''False'' then Inr ReachFalse
     else Inl (ContractValue ''unrecognized global reachability''))"

definition parse_prefix :: "str \<Rightarrow> contract_error + ipv4_network" where
  "parse_prefix value =
    (let normalized = without_footnote (strip value) in
     if normalized = [] then Inl (ContractValue ''contains an empty address block'')
     else case ip_network normalized True of
       Inr (Net4 w) \<Rightarrow>
         if v4_network_str w \<noteq> normalized then Inl (ContractValue ''address block is not a canonical IPv4 prefix'') else Inr w
     | _ \<Rightarrow> Inl (ContractValue ''address block is not a canonical IPv4 prefix''))"

fun registry_blocks :: "str list \<Rightarrow> GlobalReachability \<Rightarrow> str list \<Rightarrow> contract_error + (str list \<times> SpecialUseEntry list)" where
  "registry_blocks seen_prefixes reachability [] = Inr (seen_prefixes, [])"
| "registry_blocks seen_prefixes reachability (raw_block # blocks) =
    rbind (parse_prefix raw_block) (\<lambda>network.
      let p = v4_network_str network in
      if p \<in> set seen_prefixes then Inl (ContractValue ''contains duplicate IPv4 prefix'')
      else if int (length (p # seen_prefixes)) > 2048 then Inl (ContractValue ''special-use registry exceeds the bounded prefix limit'')
      else rbind (SpecialUseEntry_init p reachability) (\<lambda>entry.
        rbind (registry_blocks (p # seen_prefixes) reachability blocks) (\<lambda>(seen, es). Inr (seen, entry # es))))"

fun registry_rows :: "str list \<Rightarrow> nat \<Rightarrow> str list list \<Rightarrow> contract_error + SpecialUseEntry list" where
  "registry_rows seen_prefixes row_count [] =
    (if row_count = 0 then Inl (ContractValue ''special-use registry must contain at least one row'') else Inr [])"
| "registry_rows seen_prefixes row_count (row # rows) =
    (if int (Suc row_count) > 1024 then Inl (ContractValue ''special-use registry exceeds the bounded row limit'')
     else if length row \<noteq> length IANA_HEADER then Inl (ContractValue ''must contain exactly 10 columns'')
     else rbind (parse_reachability (row ! 8)) (\<lambda>reachability.
       let raw_blocks = split_on (CHR '','') (row ! 0) in
       if list_ex (\<lambda>block. strip block = []) raw_blocks then Inl (ContractValue ''contains an empty address block'')
       else rbind (registry_blocks seen_prefixes reachability raw_blocks) (\<lambda>(seen, es).
         rbind (registry_rows seen (Suc row_count) rows) (\<lambda>more. Inr (es @ more)))))"

definition parse_special_use_registry_bytes :: "bytes \<Rightarrow> contract_error + ParsedSpecialUseRegistry" where
  "parse_special_use_registry_bytes raw =
    (if int (length raw) > 64 * 1024 then Inl (ContractValue ''special-use registry exceeds the bounded byte limit'')
     else if \<not> utf8_ok raw then Inl (ContractValue ''special-use registry must be valid UTF-8'')
     else if nul \<in> set raw then Inl (ContractValue ''special-use registry must not contain NUL'')
     else case csv_rows csv_start (split_lines raw) of
       None \<Rightarrow> Inl (ContractValue ''special-use registry contains malformed CSV'')
     | Some [] \<Rightarrow> Inl (ContractValue ''special-use registry must use the exact IANA header'')
     | Some (header # rows) \<Rightarrow>
         if header \<noteq> IANA_HEADER then Inl (ContractValue ''special-use registry must use the exact IANA header'')
         else rbind (registry_rows [] 0 rows) ParsedSpecialUseRegistry_init)"

text \<open>
  \<open>load\<close> of the pinned loader, on the content of the file. The registry is built twice, by the
  parser and as the issued object; the bookkeeping of issued objects by identity is not modelled.
\<close>

definition load_pinned_special_use_registry :: "(bytes \<Rightarrow> bytes) \<Rightarrow> bytes \<Rightarrow> contract_error + ParsedSpecialUseRegistry" where
  "load_pinned_special_use_registry H content =
    (let raw = take (64 * 1024 + 1) content in
     if int (length raw) > 64 * 1024 then Inl (ContractValue ''special-use registry exceeds the bounded byte limit'')
     else if hexdigest H raw \<noteq> PCC_SPECIAL_USE_REGISTRY_SHA256 then
       Inl (ContractValue ''special-use registry digest does not match pinned SHA-256'')
     else rbind (parse_special_use_registry_bytes raw) (\<lambda>parsed. ParsedSpecialUseRegistry_init (entries parsed)))"

section \<open>The index\<close>

text \<open>The class invariant of \<open>SpecialUseEntry\<close>, and the network an entry denotes.\<close>

definition entry_wf :: "SpecialUseEntry \<Rightarrow> bool" where
  "entry_wf e \<longleftrightarrow> SpecialUseEntry_init (prefix e) (globally_reachable e) = Inr e"

definition entry_network :: "SpecialUseEntry \<Rightarrow> ipv4_network" where
  "entry_network e = (case IPv4Network (prefix e) True of Inr w \<Rightarrow> w | Inl _ \<Rightarrow> \<lparr>network_address = 0, prefixlen = 0\<rparr>)"

definition entry_row :: "SpecialUseEntry \<Rightarrow> index_row" where
  "entry_row e = (network_address (entry_network e), prefixlen (entry_network e), globally_reachable e)"


lemma ip_network_Net4: "ip_network s b = Inr (Net4 w) \<longleftrightarrow> IPv4Network s b = Inr w"
  by (auto simp: ip_network_def split: sum.splits ip_error.splits)

lemma entry_wf_network:
  assumes "entry_wf e"
  shows "IPv4Network (prefix e) True = Inr (entry_network e)" and "v4_network_str (entry_network e) = prefix e"
    and "v4_network_wf (entry_network e)"
proof -
  obtain w where w: "ip_network (prefix e) True = Inr (Net4 w)" "v4_network_str w = prefix e"
    using assms by (auto simp: entry_wf_def SpecialUseEntry_init_def split: sum.splits ip_network_value.splits if_splits)
  then have "IPv4Network (prefix e) True = Inr w" by (simp add: ip_network_Net4)
  with w show "IPv4Network (prefix e) True = Inr (entry_network e)" "v4_network_str (entry_network e) = prefix e"
    "v4_network_wf (entry_network e)"
    using IPv4Network_wf by (auto simp: entry_network_def)
qed


lemma index_rows_Inr:
  assumes "index_rows seen es = Inr rows" and "\<forall>e\<in>set es. entry_wf e"
  shows "rows = map entry_row es \<and> distinct (map prefix es) \<and> prefix ` set es \<inter> set seen = {}"
  using assms
proof (induction es arbitrary: seen rows)
  case (Cons e es)
  note n = entry_wf_network(1) [of e]
  from Cons.prems n obtain rs where "index_rows (prefix e # seen) es = Inr rs" "prefix e \<notin> set seen" "rows = entry_row e # rs"
    by (auto simp: result_simps entry_row_def split: if_splits)
  with Cons.IH [of "prefix e # seen" rs] Cons.prems show ?case by auto
qed simp

definition row_covers :: "int \<Rightarrow> index_row \<Rightarrow> bool" where
  "row_covers a row \<longleftrightarrow> drop_bit (nat (32 - fst (snd row))) a = drop_bit (nat (32 - fst (snd row))) (fst row)"

lemma scan_index_eq: "scan_index a rows = map_option (\<lambda>row. snd (snd row)) (find (row_covers a) rows)"
  by (induction a rows rule: scan_index.induct) (auto simp: row_covers_def)

lemma same_block: "0 < k \<Longrightarrow> b mod k = 0 \<Longrightarrow> a div k = b div k \<longleftrightarrow> a - a mod k = b" for a b k :: int
  by (auto simp: minus_mod_eq_mult_div)

lemma covers_entry:
  assumes "entry_wf e" and "0 \<le> a" and "a < 2 ^ 32"
  shows "row_covers a (entry_row e) \<longleftrightarrow> v4_contains (entry_network e) a"
proof -
  let ?w = "entry_network e"
  let ?k = "nat (32 - prefixlen ?w)"
  have w: "v4_network_wf ?w" by (rule entry_wf_network(3) [OF assms(1)])
  then have k: "32 - nat (prefixlen ?w) = ?k" and m: "network_address ?w mod 2 ^ ?k = 0"
    by (auto simp: v4_network_wf_def)
  have "row_covers a (entry_row e) \<longleftrightarrow> a div 2 ^ ?k = network_address ?w div 2 ^ ?k"
    by (simp add: row_covers_def entry_row_def drop_bit_eq_div)
  also have "\<dots> \<longleftrightarrow> a - a mod 2 ^ ?k = network_address ?w"
    using same_block [OF _ m] by simp
  finally show ?thesis by (simp add: v4_contains_def network_base_def k)
qed

lemma find_sorted_key:
  assumes "find P (sort_key f xs) = Some x"
  shows "x \<in> set xs \<and> P x \<and> (\<forall>y\<in>set xs. P y \<longrightarrow> f x \<le> f y)"
proof -
  obtain i where i: "i < length (sort_key f xs)" "P (sort_key f xs ! i)" "x = sort_key f xs ! i"
    and first: "\<forall>j<i. \<not> P (sort_key f xs ! j)"
    using assms by (auto simp: find_Some_iff)
  have "f x \<le> f y" if y: "y \<in> set xs" "P y" for y
  proof -
    have "y \<in> set (sort_key f xs)" using y by simp
    then obtain j where j: "j < length (sort_key f xs)" "y = sort_key f xs ! j"
      unfolding in_set_conv_nth by blast
    then have "i \<le> j" using first y(2) not_le by blast
    moreover have "sorted (map f (sort_key f xs))" by simp
    ultimately have "map f (sort_key f xs) ! i \<le> map f (sort_key f xs) ! j"
      using j(1) by (intro sorted_nth_mono) simp_all
    then show ?thesis using i j by simp
  qed
  moreover have "x \<in> set xs" using nth_mem [OF i(1)] i(3) by simp
  ultimately show ?thesis using i by blast
qed



lemma canonical_ipv4_address_Inr: "canonical_ipv4_address s = Inr n \<longleftrightarrow> 0 \<le> n \<and> n < 2 ^ 32 \<and> s = v4_str n"
proof
  assume "canonical_ipv4_address s = Inr n"
  then have "IPv4Address s = Inr n"
    by (auto simp: canonical_ipv4_address_def ip_address_def split: sum.splits ip_address_value.splits if_splits)
  then show "0 \<le> n \<and> n < 2 ^ 32 \<and> s = v4_str n" using IPv4Address_Inr by auto
next
  assume "0 \<le> n \<and> n < 2 ^ 32 \<and> s = v4_str n"
  then show "canonical_ipv4_address s = Inr n"
    using IPv4Address_v4_str [of n] by (simp add: canonical_ipv4_address_def ip_address_def)
qed

lemma valid_address_value:
  "rbind (valid_ipv4 s) (\<lambda>text. map_err (\<lambda>_. ContractValue []) (IPv4Address text)) = Inr n \<longleftrightarrow> 0 \<le> n \<and> n < 2 ^ 32 \<and> s = v4_str n"
proof -
  have "valid_ipv4 s = Inr s \<and> IPv4Address s = Inr n \<longleftrightarrow> 0 \<le> n \<and> n < 2 ^ 32 \<and> s = v4_str n"
    using IPv4Address_Inr [of s n] IPv4Address_v4_str [of n] by (auto simp: valid_ipv4_Inr)
  then show ?thesis by (auto simp: result_simps valid_ipv4_Inr)
qed

lemma init_facts:
  assumes "ParsedSpecialUseRegistry_init es = Inr reg" and "\<forall>e\<in>set es. entry_wf e"
  shows "index reg = sort_key (\<lambda>row. - fst (snd row)) (map entry_row es)" and "distinct (map prefix es)"
proof -
  obtain rows where r: "index_rows [] es = Inr rows" "reg = \<lparr>entries = es, index = sort_key (\<lambda>row. - fst (snd row)) rows\<rparr>"
    using assms(1) by (cases "index_rows [] es") (simp_all add: ParsedSpecialUseRegistry_init_def)
  show "index reg = sort_key (\<lambda>row. - fst (snd row)) (map entry_row es)" "distinct (map prefix es)"
    using index_rows_Inr [OF r(1) assms(2)] r(2) by simp_all
qed

text \<open>The entry the index answers with: it covers the address and none that does is longer.\<close>

lemma scan_longest:
  assumes "ParsedSpecialUseRegistry_init es = Inr reg" and "\<forall>e\<in>set es. entry_wf e" and "0 \<le> n" "n < 2 ^ 32"
  shows "(scan_index n (index reg) = None \<longleftrightarrow> (\<forall>e\<in>set es. \<not> v4_contains (entry_network e) n)) \<and>
    (\<forall>r. scan_index n (index reg) = Some r \<longrightarrow>
      (\<exists>e\<in>set es. v4_contains (entry_network e) n \<and> globally_reachable e = r \<and>
        (\<forall>f\<in>set es. v4_contains (entry_network f) n \<longrightarrow> prefixlen (entry_network f) \<le> prefixlen (entry_network e))))"
proof -
  let ?f = "\<lambda>row :: index_row. - fst (snd row)"
  have i: "index reg = sort_key ?f (map entry_row es)" using init_facts [OF assms(1,2)] by simp
  have c: "row_covers n (entry_row e) \<longleftrightarrow> v4_contains (entry_network e) n" if "e \<in> set es" for e
    using covers_entry assms(2-4) that by blast
  have none: "scan_index n (index reg) = None \<longleftrightarrow> (\<forall>e\<in>set es. \<not> v4_contains (entry_network e) n)"
    using c by (auto simp: scan_index_eq i find_None_iff)
  have some: "\<exists>e\<in>set es. v4_contains (entry_network e) n \<and> globally_reachable e = r \<and>
        (\<forall>f\<in>set es. v4_contains (entry_network f) n \<longrightarrow> prefixlen (entry_network f) \<le> prefixlen (entry_network e))"
    if r: "scan_index n (index reg) = Some r" for r
  proof -
    obtain row where f: "find (row_covers n) (sort_key ?f (map entry_row es)) = Some row" and row: "r = snd (snd row)"
      using r by (auto simp: scan_index_eq i)
    from find_sorted_key [OF f] obtain e where e: "e \<in> set es" "row = entry_row e" "row_covers n (entry_row e)"
      and m: "\<forall>f\<in>set es. row_covers n (entry_row f) \<longrightarrow> ?f (entry_row e) \<le> ?f (entry_row f)"
      by auto
    then show ?thesis using c row by (auto simp: entry_row_def)
  qed
  show ?thesis using none some by blast
qed


section \<open>Properties\<close>

text \<open>
  C37. The registry answers with the longest matching prefix: for a registry of well-formed entries,
  the reachability found for a canonical address is absent exactly when no entry covers it, and is
  otherwise that of a covering entry than which no covering entry has a longer prefix. A text that
  is no canonical IPv4 address is refused.
\<close>

theorem reachability_is_longest_prefix_match:
  assumes "ParsedSpecialUseRegistry_init es = Inr reg" and "\<forall>e\<in>set es. entry_wf e"
  shows "(\<forall>n. address \<noteq> v4_str n \<or> n < 0 \<or> 2 ^ 32 \<le> n) \<and> (\<exists>m. reachability_for reg address = Inl (ContractValue m)) \<or>
    (\<exists>n. 0 \<le> n \<and> n < 2 ^ 32 \<and> address = v4_str n \<and>
      (case reachability_for reg address of
         Inl _ \<Rightarrow> False
       | Inr None \<Rightarrow> \<forall>e\<in>set es. \<not> v4_contains (entry_network e) n
       | Inr (Some r) \<Rightarrow> \<exists>e\<in>set es. v4_contains (entry_network e) n \<and> globally_reachable e = r \<and>
           (\<forall>f\<in>set es. v4_contains (entry_network f) n \<longrightarrow> prefixlen (entry_network f) \<le> prefixlen (entry_network e))))"
proof (cases "\<exists>n. 0 \<le> n \<and> n < 2 ^ 32 \<and> address = v4_str n")
  case True
  then obtain n where n: "0 \<le> n" "n < 2 ^ 32" "address = v4_str n" by blast
  then have "canonical_ipv4_address address = Inr n" by (simp add: canonical_ipv4_address_Inr)
  then have "reachability_for reg address = Inr (scan_index n (index reg))" by (simp add: reachability_for_def)
  with scan_longest [OF assms n(1,2)] n show ?thesis by (auto split: option.splits)
next
  case False
  then have "\<forall>n. canonical_ipv4_address address \<noteq> Inr n" by (simp add: canonical_ipv4_address_Inr)
  then obtain m where "canonical_ipv4_address address = Inl (ContractValue m)"
    by (auto simp: canonical_ipv4_address_def split: sum.splits ip_address_value.splits if_splits)
  with False show ?thesis by (auto simp: reachability_for_def not_le not_less)
qed

definition example_entries :: "SpecialUseEntry list" where
  "example_entries =
    [\<lparr>prefix = ''192.0.0.0/24'', globally_reachable = ReachFalse\<rparr>, \<lparr>prefix = ''192.0.0.9/32'', globally_reachable = ReachTrue\<rparr>]"

theorem reachability_is_longest_prefix_match_witness:
  "\<exists>reg. ParsedSpecialUseRegistry_init example_entries = Inr reg \<and> reachability_for reg ''192.0.0.9'' = Inr (Some ReachTrue) \<and>
    (\<exists>e\<in>set example_entries. v4_contains (entry_network e) 3221225481 \<and> globally_reachable e = ReachTrue)"
proof -
  let ?reg = "\<lparr>entries = example_entries, index = [(3221225481, 32, ReachTrue), (3221225472, 24, ReachFalse)]\<rparr>"
  have i: "ParsedSpecialUseRegistry_init example_entries = Inr ?reg" by code_simp
  have w: "\<forall>e\<in>set example_entries. entry_wf e" by code_simp
  have r: "reachability_for ?reg ''192.0.0.9'' = Inr (Some ReachTrue)" by code_simp
  have a: "''192.0.0.9'' = v4_str 3221225481" by code_simp
  have u: "n = 3221225481" if "''192.0.0.9'' = v4_str n" "0 \<le> n" "n < 2 ^ 32" for n
    using IPv4Address_v4_str [of n] IPv4Address_v4_str [of 3221225481] that a by simp
  have e: "\<exists>e\<in>set example_entries. v4_contains (entry_network e) 3221225481 \<and> globally_reachable e = ReachTrue"
    using reachability_is_longest_prefix_match [OF i w, of "''192.0.0.9''"]
    unfolding r by (auto dest: u)
  show ?thesis using i r e by blast
qed


lemma any_network_False:
  "any_network value ws = Some False \<longleftrightarrow>
    (\<forall>w\<in>set ws. case ip_network w False of Inl _ \<Rightarrow> False | Inr (Net4 n) \<Rightarrow> \<not> v4_contains n value | Inr (Net6 _) \<Rightarrow> True)"
  by (induction ws) (auto split: sum.splits ip_network_value.splits)

lemma any_address_False:
  "any_address value as = Some False \<longleftrightarrow> (\<forall>a\<in>set as. \<exists>n. IPv4Address a = Inr n \<and> n \<noteq> value)"
  by (induction as) (auto split: sum.splits)

lemma permitted_with_denials:
  "is_permitted_public_ipv4 address registry networks addresses \<longleftrightarrow>
    is_permitted_public_ipv4 address registry [] [] \<and>
    (\<exists>value. IPv4Address address = Inr value \<and>
      (\<forall>w\<in>set networks. case ip_network w False of Inl _ \<Rightarrow> False | Inr (Net4 n) \<Rightarrow> \<not> v4_contains n value | Inr (Net6 _) \<Rightarrow> True) \<and>
      (\<forall>a\<in>set addresses. \<exists>n. IPv4Address a = Inr n \<and> n \<noteq> value))"
proof (cases "\<exists>n. 0 \<le> n \<and> n < 2 ^ 32 \<and> address = v4_str n")
  case True
  then obtain n where n: "0 \<le> n" "n < 2 ^ 32" "address = v4_str n" by blast
  have v: "rbind (valid_ipv4 address) (\<lambda>text. map_err (\<lambda>_. ContractValue []) (IPv4Address text)) = Inr n"
    using n by (simp add: valid_address_value)
  have a: "IPv4Address address = Inr n" using n IPv4Address_v4_str by simp
  show ?thesis unfolding is_permitted_public_ipv4_def v a sum.case
    by (simp add: any_network_False any_address_False)
next
  case False
  then have "rbind (valid_ipv4 address) (\<lambda>text. map_err (\<lambda>_. ContractValue []) (IPv4Address text)) \<noteq> Inr n" for n
    using valid_address_value by blast
  then have "\<not> is_permitted_public_ipv4 address registry ns as" for ns as
    unfolding is_permitted_public_ipv4_def by (simp split: sum.splits)
  then show ?thesis by simp
qed




text \<open>
  C38. The deny lists fail closed: an address is permitted under deny lists exactly when it is permitted
  without them, every denied network parses and does not hold it, and every denied address parses
  and is another one. So one malformed deny entry refuses every address, and adding entries never
  permits more.
\<close>

theorem deny_lists_fail_closed:
  "is_permitted_public_ipv4 address registry networks addresses \<longleftrightarrow>
    is_permitted_public_ipv4 address registry [] [] \<and>
    (\<exists>value. IPv4Address address = Inr value \<and>
      (\<forall>w\<in>set networks. case ip_network w False of Inl _ \<Rightarrow> False | Inr (Net4 n) \<Rightarrow> \<not> v4_contains n value | Inr (Net6 _) \<Rightarrow> True) \<and>
      (\<forall>a\<in>set addresses. \<exists>n. IPv4Address a = Inr n \<and> n \<noteq> value))"
  by (rule permitted_with_denials)

theorem deny_lists_fail_closed_witness:
  "is_permitted_public_ipv4 ''8.8.8.8'' [] [] [] \<and> \<not> is_permitted_public_ipv4 ''8.8.8.8'' [] [''not a network''] [] \<and>
    (\<exists>value. IPv4Address ''8.8.8.8'' = Inr value)"
proof -
  have p: "is_permitted_public_ipv4 ''8.8.8.8'' [] [] []" by code_simp
  have w: "ip_network ''not a network'' False = Inl AddressValueError" by code_simp
  show ?thesis
    using deny_lists_fail_closed [of "''8.8.8.8''" "[]" "[''not a network'']" "[]"]
      deny_lists_fail_closed [of "''8.8.8.8''" "[]" "[]" "[]"] p w by auto
qed

section \<open>The parsed registry\<close>

lemma SpecialUseEntry_init_wf: "SpecialUseEntry_init p r = Inr e \<Longrightarrow> entry_wf e \<and> prefix e = p \<and> globally_reachable e = r"
  by (cases "ip_network p True"; cases "projr (ip_network p True)")
    (auto simp: SpecialUseEntry_init_def entry_wf_def split: if_splits)

lemma registry_blocks_wf:
  assumes "registry_blocks seen r bs = Inr (seen', es)" and "length seen \<le> 2048"
  shows "(\<forall>e\<in>set es. entry_wf e) \<and> seen' = rev (map prefix es) @ seen \<and> length seen' \<le> 2048"
  using assms
proof (induction bs arbitrary: seen es)
  case (Cons b bs)
  from Cons.prems(1) obtain w e es' where w: "parse_prefix b = Inr w" "\<not> int (length (v4_network_str w # seen)) > 2048"
    and e: "SpecialUseEntry_init (v4_network_str w) r = Inr e"
    and es: "registry_blocks (v4_network_str w # seen) r bs = Inr (seen', es')" "es = e # es'"
    by (auto simp: result_simps Let_def split: if_splits)
  from Cons.IH [OF es(1)] w(2) SpecialUseEntry_init_wf [OF e] es(2) show ?case by auto
qed simp

lemma registry_rows_wf:
  assumes "registry_rows seen k rows = Inr es" and "length seen \<le> 2048"
  shows "(\<forall>e\<in>set es. entry_wf e) \<and> length seen + length es \<le> 2048"
  using assms
proof (induction rows arbitrary: seen k es)
  case (Cons row rows)
  from Cons.prems(1) obtain r seen' es1 es2 where
    b: "registry_blocks seen r (split_on (CHR '','') (row ! 0)) = Inr (seen', es1)"
    and more: "registry_rows seen' (Suc k) rows = Inr es2" "es = es1 @ es2"
    by (auto simp: result_simps Let_def split: if_splits)
  from registry_blocks_wf [OF b Cons.prems(2)] Cons.IH [OF more(1)] more(2) show ?case by auto
qed (simp split: if_splits)

lemma registry_init_entries: "ParsedSpecialUseRegistry_init es = Inr reg \<Longrightarrow> entries reg = es"
  by (cases "index_rows [] es") (auto simp: ParsedSpecialUseRegistry_init_def)

lemma parse_registry_wf:
  assumes "parse_special_use_registry_bytes raw = Inr reg"
  shows "ParsedSpecialUseRegistry_init (entries reg) = Inr reg" and "\<forall>e\<in>set (entries reg). entry_wf e"
    and "length (entries reg) \<le> 2048"
proof -
  obtain rows es where r: "registry_rows [] 0 rows = Inr es" and i: "ParsedSpecialUseRegistry_init es = Inr reg"
    using assms by (auto simp: parse_special_use_registry_bytes_def result_simps split: if_splits option.splits list.splits)
  show "ParsedSpecialUseRegistry_init (entries reg) = Inr reg" "\<forall>e\<in>set (entries reg). entry_wf e" "length (entries reg) \<le> 2048"
    using registry_init_entries [OF i] registry_rows_wf [OF r] i by simp_all
qed

text \<open>
  C39. The pinned loader yields only a well-formed registry of the pinned octets: the file has the
  pinned digest and at most 64 KiB, every entry of the registry is a canonical IPv4 prefix, no prefix
  repeats, there are at most 2048 of them, and the index is the one the constructor builds.
\<close>

theorem loaded_registry_is_wellformed:
  assumes "load_pinned_special_use_registry H content = Inr reg"
  shows "hexdigest H content = PCC_SPECIAL_USE_REGISTRY_SHA256 \<and> length content \<le> 64 * 1024 \<and>
    ParsedSpecialUseRegistry_init (entries reg) = Inr reg \<and> (\<forall>e\<in>set (entries reg). entry_wf e) \<and>
    distinct (map prefix (entries reg)) \<and> length (entries reg) \<le> 2048"
proof -
  let ?raw = "take (64 * 1024 + 1) content"
  from assms obtain p where g: "\<not> int (length ?raw) > 64 * 1024" "hexdigest H ?raw = PCC_SPECIAL_USE_REGISTRY_SHA256"
    and p: "parse_special_use_registry_bytes ?raw = Inr p" "ParsedSpecialUseRegistry_init (entries p) = Inr reg"
    by (auto simp: load_pinned_special_use_registry_def Let_def result_simps split: if_splits)
  have raw: "?raw = content" and len: "length content \<le> 64 * 1024" using g(1) by (simp_all add: min_def split: if_splits)
  have "p = reg" using parse_registry_wf(1) [OF p(1)] p(2) by simp
  with parse_registry_wf [OF p(1)] init_facts(2) [of "entries reg" reg] g(2) raw len show ?thesis by simp
qed

definition example_registry :: bytes where
  "example_registry =
    ''Address Block,Name,RFC,Allocation Date,Termination Date,Source,Destination,Forwardable,Globally Reachable,Reserved-by-Protocol'' @
    [CHR 0x0D, CHR 0x0A] @ [CHR 0x22] @ ''192.0.0.0/24 [2], 10.0.0.0/8'' @ [CHR 0x22] @ '',,,,,,,,False [1],x'' @ [CHR 0x0D, CHR 0x0A]"

definition example_parsed :: ParsedSpecialUseRegistry where
  "example_parsed =
    \<lparr>entries = [\<lparr>prefix = ''192.0.0.0/24'', globally_reachable = ReachFalse\<rparr>, \<lparr>prefix = ''10.0.0.0/8'', globally_reachable = ReachFalse\<rparr>],
     index = [(3221225472, 24, ReachFalse), (167772160, 8, ReachFalse)]\<rparr>"

definition pinned_digest :: bytes where
  "pinned_digest =
    [CHR 0xE3, CHR 0xE3, CHR 0x9E, CHR 0x76, CHR 0xD0, CHR 0x0B, CHR 0x16, CHR 0x77, CHR 0x33, CHR 0x5D, CHR 0xB8, CHR 0xE9,
     CHR 0xA8, CHR 0x05, CHR 0xC7, CHR 0xB9, CHR 0x48, CHR 0x0E, CHR 0xA2, CHR 0xF4, CHR 0xDC, CHR 0x9E, CHR 0x33, CHR 0xF0,
     CHR 0xB9, CHR 0x3C, CHR 0xD3, CHR 0xA9, CHR 0x05, CHR 0x12, CHR 0x8D, CHR 0x73]"

theorem loaded_registry_is_wellformed_witness:
  "\<exists>reg. load_pinned_special_use_registry (\<lambda>_. pinned_digest) example_registry = Inr reg \<and>
    map prefix (entries reg) = [''192.0.0.0/24'', ''10.0.0.0/8''] \<and> (\<forall>e\<in>set (entries reg). entry_wf e)"
proof -
  let ?H = "\<lambda>_. pinned_digest"
  have n: "length example_registry \<le> 65536" by (simp add: example_registry_def)
  have h: "hexdigest ?H example_registry = PCC_SPECIAL_USE_REGISTRY_SHA256"
    unfolding hexdigest_def by code_simp
  have q: "parse_special_use_registry_bytes example_registry = Inr example_parsed" by code_simp
  have i: "ParsedSpecialUseRegistry_init (entries example_parsed) = Inr example_parsed" by code_simp
  have l: "load_pinned_special_use_registry ?H example_registry = Inr example_parsed"
  proof -
    have t: "take (64 * 1024 + 1) example_registry = example_registry" "\<not> int (length example_registry) > 64 * 1024" using n by simp_all
    show ?thesis unfolding load_pinned_special_use_registry_def Let_def t(1) h q using n by (simp add: i)
  qed
  have p: "map prefix (entries example_parsed) = [''192.0.0.0/24'', ''10.0.0.0/8'']" by code_simp
  show ?thesis by (intro exI [of _ example_parsed] conjI l p) (use loaded_registry_is_wellformed [OF l] in blast)
qed

end
