(* ===== verification/CoverageGrammar.thy ===== *)
theory CoverageGrammar
  imports Contracts
begin

text \<open>
  The closed coverage grammar of \<open>core/agmind_immune/coverage/grammar.py\<close>: typed envelopes and
  coverage events, the historical window of a decision, and the classifiers that give each accepted
  envelope its coverage action. Shown here: the window test is the overlap of the interval with the
  uncertainty-widened span between trigger and decision. The theory \<open>CoverageForms\<close> shows that every form
  the grammar accepts is exact.
\<close>

section \<open>Definitions\<close>

text \<open>
  The exceptions of the coverage package. A \<open>ValueError\<close>, \<open>TypeError\<close> or \<open>ValidationError\<close> from the
  grammar is \<open>GrammarError\<close>; the callers turn it into a \<open>CoverageValidationError\<close>. \<open>CoverageUncaught\<close> is
  an exception that is none of the package's own and that no handler of it catches.
\<close>

datatype coverage_error =
    GrammarError str
  | CoverageValidationError str
  | CoverageConflict str
  | CoverageAuthorityError str
  | CoverageUnhealthy str
  | CoverageUncaught

text \<open>The members of a validated \<open>EventEnvelopeV1\<close> and \<open>CoverageEventV1\<close> the package reads.\<close>

record EventEnvelope =
  ev_event_id :: str
  ev_event_type :: str
  ev_key_id :: str
  ev_key_epoch :: int
  ev_host_id :: str
  ev_boot_id :: str
  ev_source_sequence :: int
  ev_event_time :: str
  ev_ingest_time :: str
  ev_container_id :: "str option"
  ev_container_start_time :: "str option"
  ev_release_id :: "str option"
  ev_inventory_generation :: int
  ev_inventory_revision :: "int option"
  ev_normalized_fields :: document
  ev_normalized_fields_sha256 :: str
  ev_redaction_flags :: "str list"
  ev_coverage_flags :: "str list"
  ev_source_payload_hash :: str

record CoverageEvent =
  cv_component :: str
  cv_kind :: str
  cv_severity :: str
  cv_opened_at :: str
  cv_closed_at :: "str option"
  cv_affected_start :: "int option"
  cv_affected_end :: "int option"
  cv_dropped_count :: "int option"
  cv_reason_code :: str
  cv_reconcile_generation :: "int option"

definition envelope_of :: "document \<Rightarrow> EventEnvelope" where
  "envelope_of doc = \<lparr>
    ev_event_id = get_str doc ''event_id'', ev_event_type = get_str doc ''event_type'',
    ev_key_id = get_str doc ''key_id'', ev_key_epoch = get_int doc ''key_epoch'',
    ev_host_id = get_str doc ''host_id'', ev_boot_id = get_str doc ''boot_id'',
    ev_source_sequence = get_int doc ''source_sequence'',
    ev_event_time = get_str doc ''event_time'', ev_ingest_time = get_str doc ''ingest_time'',
    ev_container_id = get_str_opt doc ''container_id'',
    ev_container_start_time = get_str_opt doc ''container_start_time'',
    ev_release_id = get_str_opt doc ''release_id'',
    ev_inventory_generation = get_int doc ''inventory_generation'',
    ev_inventory_revision = get_int_opt doc ''inventory_revision'',
    ev_normalized_fields = get_obj doc ''normalized_fields'',
    ev_normalized_fields_sha256 = get_str doc ''normalized_fields_sha256'',
    ev_redaction_flags = get_strs doc ''redaction_flags'', ev_coverage_flags = get_strs doc ''coverage_flags'',
    ev_source_payload_hash = get_str doc ''source_payload_hash''\<rparr>"

definition coverage_of :: "document \<Rightarrow> CoverageEvent" where
  "coverage_of doc = \<lparr>
    cv_component = get_str doc ''component'', cv_kind = get_str doc ''kind'', cv_severity = get_str doc ''severity'',
    cv_opened_at = get_str doc ''opened_at'', cv_closed_at = get_str_opt doc ''closed_at'',
    cv_affected_start = get_int_opt doc ''affected_source_sequence_start'',
    cv_affected_end = get_int_opt doc ''affected_source_sequence_end'',
    cv_dropped_count = get_int_opt doc ''dropped_count'', cv_reason_code = get_str doc ''reason_code'',
    cv_reconcile_generation = get_int_opt doc ''reconcile_generation''\<rparr>"

text \<open>\<open>coverage.model_dump(exclude_none=True)\<close>\<close>

definition opt_member :: "str \<Rightarrow> ('a \<Rightarrow> json) \<Rightarrow> 'a option \<Rightarrow> document" where
  "opt_member name f v = (case v of None \<Rightarrow> [] | Some x \<Rightarrow> [(name, f x)])"

definition coverage_dump :: "CoverageEvent \<Rightarrow> document" where
  "coverage_dump cv =
    [(''component'', JStr (cv_component cv)), (''kind'', JStr (cv_kind cv)), (''severity'', JStr (cv_severity cv)),
     (''opened_at'', JStr (cv_opened_at cv))] @
    opt_member ''closed_at'' JStr (cv_closed_at cv) @
    opt_member ''affected_source_sequence_start'' JInt (cv_affected_start cv) @
    opt_member ''affected_source_sequence_end'' JInt (cv_affected_end cv) @
    opt_member ''dropped_count'' JInt (cv_dropped_count cv) @
    [(''reason_code'', JStr (cv_reason_code cv))] @
    opt_member ''reconcile_generation'' JInt (cv_reconcile_generation cv)"

text \<open>
  Python's \<open>==\<close> on decoded values: dictionaries without regard to order, and a truth value equal to
  the number it is. Members are unique, so equal sizes and one inclusion suffice.
\<close>

function (sequential) py_eq :: "json \<Rightarrow> json \<Rightarrow> bool" where
  "py_eq (JObj a) (JObj b) \<longleftrightarrow> length a = length b \<and>
    list_all (\<lambda>kv. case map_of b (fst kv) of None \<Rightarrow> False | Some w \<Rightarrow> py_eq (snd kv) w) a"
| "py_eq (JArr a) (JArr b) \<longleftrightarrow> length a = length b \<and> list_all (\<lambda>p. py_eq (fst p) (snd p)) (zip a b)"
| "py_eq (JBool x) (JBool y) \<longleftrightarrow> x = y"
| "py_eq (JBool x) (JInt j) \<longleftrightarrow> j = (if x then 1 else 0)"
| "py_eq (JInt i) (JBool y) \<longleftrightarrow> i = (if y then 1 else 0)"
| "py_eq (JInt i) (JInt j) \<longleftrightarrow> i = j"
| "py_eq (JStr s) (JStr t) \<longleftrightarrow> s = t"
| "py_eq JNull JNull \<longleftrightarrow> True"
| "py_eq _ _ \<longleftrightarrow> False"
  by pat_completeness auto

termination
proof (relation "measure (size \<circ> fst)", goal_cases)
  case (2 a b x)
  then have "size (snd x) \<le> size_list (size_prod (\<lambda>x. 0) size) a" by (intro size_list_estimation') (auto simp: size_prod_simp)
  then show ?case by simp
next
  case (3 a b x)
  then have "fst x \<in> set a" by (metis prod.collapse set_zip_leftD)
  then have "size (fst x) \<le> size_list size a" by (rule size_list_estimation') simp
  then show ?case by simp
qed simp

definition members_are :: "document \<Rightarrow> str list \<Rightarrow> bool" where
  "members_are members names \<longleftrightarrow> set (map fst members) = set names"

subsection \<open>Historical windows\<close>

definition timestamp_ns :: "str \<Rightarrow> coverage_error + int" where
  "timestamp_ns s = map_err (\<lambda>_. GrammarError ''timestamp'') (parse_rfc3339nano_utc_ns s)"

record HistoricalCoverageWindow =
  window_start :: "str option"
  window_end :: str
  window_start_ns :: "int option"
  window_end_ns :: int
  window_complete :: bool

definition historical_coverage_window :: "str \<Rightarrow> int \<Rightarrow> str \<Rightarrow> coverage_error + HistoricalCoverageWindow" where
  "historical_coverage_window trigger_event_time clock_uncertainty_ms decision_time =
    (if \<not> (0 \<le> clock_uncertainty_ms \<and> clock_uncertainty_ms \<le> 2000) then
       Inl (GrammarError ''clock uncertainty must be exact milliseconds'')
     else
       rbind (timestamp_ns trigger_event_time) (\<lambda>trigger_ns.
       rbind (timestamp_ns decision_time) (\<lambda>end_ns.
         let start_ns = trigger_ns - clock_uncertainty_ms * 1000000 in
         if start_ns < MIN_TIMESTAMP_NS then
           Inr \<lparr>window_start = None, window_end = decision_time, window_start_ns = None,
             window_end_ns = end_ns, window_complete = False\<rparr>
         else
           rbind (map_err (\<lambda>_. GrammarError ''timestamp nanoseconds'') (format_rfc3339nano_utc_ns start_ns)) (\<lambda>rendered.
             Inr \<lparr>window_start = Some rendered, window_end = decision_time, window_start_ns = Some start_ns,
               window_end_ns = end_ns, window_complete = start_ns \<le> end_ns\<rparr>))))"

definition interval_intersects_window :: "str \<Rightarrow> str option \<Rightarrow> HistoricalCoverageWindow \<Rightarrow> coverage_error + bool" where
  "interval_intersects_window opened_at closed_at window =
    (case window_start_ns window of
       None \<Rightarrow> Inr False
     | Some start_ns \<Rightarrow>
         if \<not> window_complete window then Inr False
         else
           rbind (timestamp_ns opened_at) (\<lambda>opened_at_ns.
             case closed_at of
               None \<Rightarrow> Inr (opened_at_ns \<le> window_end_ns window)
             | Some closed \<Rightarrow>
                 rbind (timestamp_ns closed) (\<lambda>closed_at_ns.
                   if closed_at_ns < opened_at_ns then Inl (GrammarError ''coverage interval is reversed'')
                   else Inr (opened_at_ns \<le> window_end_ns window \<and> closed_at_ns \<ge> start_ns))))"

subsection \<open>Classification\<close>

datatype coverage_action =
    Ignore | BootBoundary | KeyTransition | ObserverStart | DockerOpen | DockerClose | SequenceOpen | SequenceClose
  | FalcoStart | FalcoStop | FalcoLease | GenericOpen | GenericClose | ObserverPressureRecovered | DockerLoggingDegraded

datatype coverage_scope = ProcessScope | HostScope

record CoverageClassification =
  cl_action :: coverage_action
  cl_scope :: "coverage_scope option"
  cl_counter_required :: bool
  cl_opened_at_ns :: "int option"
  cl_closed_at_ns :: "int option"

abbreviation plain :: "coverage_action \<Rightarrow> CoverageClassification" where
  "plain action \<equiv> \<lparr>cl_action = action, cl_scope = None, cl_counter_required = False, cl_opened_at_ns = None, cl_closed_at_ns = None\<rparr>"

definition DOCKER_OPEN_REASONS :: "str list" where
  "DOCKER_OPEN_REASONS =
    [''observer_startup'', ''docker_event_stream_error'', ''docker_event_reconcile_retry'', ''docker_inventory_event'']"

definition FALCO_OPEN_REASONS :: "(str \<times> str list) list" where
  "FALCO_OPEN_REASONS =
    [(''falco_parse_rejection'', [''invalid_falco_body'']),
     (''falco_queue_drop'', [''routine_capacity_exceeded'']),
     (''falco_delivery_failure'', [''observer_delivery_failed'']),
     (''falco_heartbeat_gap'', [''awaiting_initial_heartbeat'', ''falco_heartbeat_timeout'']),
     (''falco_configuration_mismatch'',
       [''falco_version_mismatch'', ''falco_engine_mismatch'', ''falco_config_hash_mismatch'', ''falco_rules_hash_mismatch'',
        ''falco_counter_rollback'']),
     (''falco_kernel_event_drop'', [''falco_kernel_drop_counter_increase'']),
     (''falco_outputs_queue_drop'', [''falco_outputs_queue_counter_increase''])]"

definition FALCO_CLOSE_REASONS :: "(str \<times> str) list" where
  "FALCO_CLOSE_REASONS =
    [(''falco_parse_rejection'', ''valid_heartbeat_recovered''),
     (''falco_queue_drop'', ''routine_queue_recovered''),
     (''falco_delivery_failure'', ''observer_delivery_recovered''),
     (''falco_heartbeat_gap'', ''recovered''),
     (''falco_configuration_mismatch'', ''recovered''),
     (''falco_kernel_event_drop'', ''recovered''),
     (''falco_outputs_queue_drop'', ''recovered'')]"

definition FALCO_COUNTED_KINDS :: "str list" where
  "FALCO_COUNTED_KINDS =
    [''falco_parse_rejection'', ''falco_queue_drop'', ''falco_kernel_event_drop'', ''falco_outputs_queue_drop'']"

definition coverage_context_is_empty :: "EventEnvelope \<Rightarrow> bool" where
  "coverage_context_is_empty envelope \<longleftrightarrow>
    ev_container_id envelope = None \<and> ev_container_start_time envelope = None \<and> ev_release_id envelope = None \<and>
    ev_inventory_revision envelope = None \<and> ev_redaction_flags envelope = []"

definition empty_security_context :: "EventEnvelope \<Rightarrow> bool" where
  "empty_security_context envelope \<longleftrightarrow>
    ev_container_id envelope = None \<and> ev_container_start_time envelope = None \<and> ev_release_id envelope = None \<and>
    ev_inventory_generation envelope = 0 \<and> ev_inventory_revision envelope = None \<and> ev_redaction_flags envelope = [] \<and>
    ev_source_payload_hash envelope = ev_normalized_fields_sha256 envelope"

definition reject :: "bool \<Rightarrow> str \<Rightarrow> (coverage_error + 'a) \<Rightarrow> coverage_error + 'a" where
  "reject bad message next = (if bad then Inl (GrammarError message) else next)"

text \<open>
  \<open>normalized_fields.get(key)\<close> is \<open>None\<close> for an absent member, which is \<open>doc_get\<close>'s \<open>JNull\<close>.
\<close>

definition classify_boot_or_start :: "(bytes \<Rightarrow> bytes) \<Rightarrow> EventEnvelope \<Rightarrow> coverage_error + CoverageClassification option" where
  "classify_boot_or_start H envelope =
    (let normalized = ev_normalized_fields envelope;
         rotation = (ev_coverage_flags envelope = [''key_rotation''] \<or>
           ev_coverage_flags envelope = [''boot_transition'', ''key_rotation''])
     in
     if ev_event_type envelope = ''observer_boot_boundary'' then
       reject (\<not> is_ok (valid_ObserverBootBoundaryV1 normalized)) ''coverage boundary form is invalid''
       (reject (ev_coverage_flags envelope \<noteq> [''boot_transition'', ''reconcile_required''] \<or> \<not> empty_security_context envelope)
         ''boot transition context is invalid'' (Inr (Some (plain BootBoundary))))
     else if ev_event_type envelope = ''observer_key_transition'' then
       reject (\<not> is_ok (valid_KeyTransitionV1 H normalized)) ''coverage boundary form is invalid''
       (reject (\<not> rotation \<or> \<not> empty_security_context envelope) ''key transition context is invalid''
         (Inr (Some (plain KeyTransition))))
     else if ev_event_type envelope = ''observer_key_epoch_start'' then
       reject (\<not> members_are normalized [''kind'', ''key_id'', ''key_epoch''] \<or>
           \<not> py_eq (doc_get normalized ''kind'') (JStr ''observer_key_epoch_start'') \<or>
           \<not> py_eq (doc_get normalized ''key_id'') (JStr (ev_key_id envelope)) \<or>
           \<not> py_eq (doc_get normalized ''key_epoch'') (JInt (ev_key_epoch envelope)) \<or>
           \<not> rotation \<or> \<not> empty_security_context envelope)
         ''key epoch-start context is invalid'' (Inr (Some (plain KeyTransition)))
     else if ev_event_type envelope = ''observer_start'' then
       reject (\<not> py_eq (JObj normalized) (JObj [(''kind'', JStr ''observer_start''), (''reconcile_required'', JBool True)]) \<or>
           ev_coverage_flags envelope \<noteq> [''reconcile_required''] \<or> \<not> empty_security_context envelope)
         ''observer-start form is invalid'' (Inr (Some (plain ObserverStart)))
     else Inr None)"

definition classify_docker :: "EventEnvelope \<Rightarrow> CoverageEvent \<Rightarrow> coverage_error + CoverageClassification option" where
  "classify_docker envelope coverage =
    (if cv_kind coverage \<notin> {''docker_reconcile_gap'', ''docker_reconcile_recovered''} then Inr None
     else
       let common = (cv_component coverage = ''observer'' \<and>
             (case cv_reconcile_generation coverage of None \<Rightarrow> False
              | Some generation \<Rightarrow> generation > 0 \<and> ev_inventory_generation envelope = generation) \<and>
             coverage_context_is_empty envelope \<and>
             ev_coverage_flags envelope = [''docker_event_gap'', ''reconcile_required''] \<and>
             ev_source_payload_hash envelope = ev_normalized_fields_sha256 envelope)
       in
       if cv_kind coverage = ''docker_reconcile_gap'' then
         reject (\<not> common \<or>
             \<not> members_are (ev_normalized_fields envelope)
               [''component'', ''kind'', ''severity'', ''opened_at'', ''reason_code'', ''reconcile_generation''] \<or>
             cv_severity coverage \<noteq> ''CRITICAL'' \<or> cv_closed_at coverage \<noteq> None \<or>
             cv_reason_code coverage \<notin> set DOCKER_OPEN_REASONS \<or> ev_event_time envelope \<noteq> cv_opened_at coverage)
           ''Docker reconcile open form is invalid''
           (rbind (timestamp_ns (cv_opened_at coverage)) (\<lambda>opened_at_ns.
             Inr (Some ((plain DockerOpen)\<lparr>cl_scope := Some HostScope, cl_opened_at_ns := Some opened_at_ns\<rparr>))))
       else
         case cv_closed_at coverage of
           None \<Rightarrow> Inl (GrammarError ''Docker reconcile recovery form is invalid'')
         | Some closed_at \<Rightarrow>
             reject (\<not> common \<or>
                 \<not> members_are (ev_normalized_fields envelope)
                   [''component'', ''kind'', ''severity'', ''opened_at'', ''closed_at'', ''reason_code'', ''reconcile_generation''] \<or>
                 cv_severity coverage \<noteq> ''INFO'' \<or> cv_reason_code coverage \<noteq> ''docker_full_reconcile_succeeded'' \<or>
                 ev_event_time envelope \<noteq> closed_at)
               ''Docker reconcile recovery form is invalid''
               (rbind (timestamp_ns (cv_opened_at coverage)) (\<lambda>opened_at_ns.
                rbind (timestamp_ns closed_at) (\<lambda>closed_at_ns.
                  reject (closed_at_ns < opened_at_ns) ''Docker reconcile recovery form is invalid''
                    (Inr (Some ((plain DockerClose)\<lparr>cl_scope := Some HostScope,
                      cl_opened_at_ns := Some opened_at_ns, cl_closed_at_ns := Some closed_at_ns\<rparr>)))))))"

definition classify_sequence :: "EventEnvelope \<Rightarrow> CoverageEvent \<Rightarrow> coverage_error + CoverageClassification option" where
  "classify_sequence envelope coverage =
    (if cv_kind coverage \<noteq> ''observer_sequence_gap'' then Inr None
     else
       let common = (cv_component coverage = ''observer'' \<and>
             (case (cv_affected_start coverage, cv_affected_end coverage) of
                (Some start, Some end) \<Rightarrow> start > 0 \<and> end \<ge> start
              | _ \<Rightarrow> False) \<and>
             coverage_context_is_empty envelope \<and>
             ev_coverage_flags envelope = [''reconcile_required'', ''sequence_gap''] \<and>
             ev_source_payload_hash envelope = ev_normalized_fields_sha256 envelope);
           open_fields = [''component'', ''kind'', ''severity'', ''opened_at'', ''affected_source_sequence_start'',
             ''affected_source_sequence_end'', ''reason_code'']
       in
       if common \<and> members_are (ev_normalized_fields envelope) open_fields \<and> cv_severity coverage = ''CRITICAL'' \<and>
          cv_reason_code coverage = ''reserved_sequence_not_published'' \<and> cv_closed_at coverage = None \<and>
          cv_reconcile_generation coverage = None \<and> ev_event_time envelope = cv_opened_at coverage \<and>
          ev_inventory_generation envelope = 0
       then
         rbind (timestamp_ns (cv_opened_at coverage)) (\<lambda>opened_at_ns.
           Inr (Some ((plain SequenceOpen)\<lparr>cl_scope := Some HostScope, cl_opened_at_ns := Some opened_at_ns\<rparr>)))
       else
         case (cv_closed_at coverage, cv_reconcile_generation coverage) of
           (Some closed_at, Some generation) \<Rightarrow>
             reject (\<not> (common \<and> members_are (ev_normalized_fields envelope) (open_fields @ [''closed_at'', ''reconcile_generation'']) \<and>
                 cv_severity coverage = ''INFO'' \<and> cv_reason_code coverage = ''reserved_sequence_reconciled'' \<and>
                 generation > 0 \<and> ev_event_time envelope = closed_at \<and> ev_inventory_generation envelope = generation))
               ''sequence-gap coverage form is invalid''
               (rbind (timestamp_ns (cv_opened_at coverage)) (\<lambda>opened_at_ns.
                rbind (timestamp_ns closed_at) (\<lambda>closed_at_ns.
                  reject (closed_at_ns < opened_at_ns) ''sequence-gap coverage form is invalid''
                    (Inr (Some ((plain SequenceClose)\<lparr>cl_scope := Some HostScope,
                      cl_opened_at_ns := Some opened_at_ns, cl_closed_at_ns := Some closed_at_ns\<rparr>))))))
         | _ \<Rightarrow> Inl (GrammarError ''sequence-gap coverage form is invalid''))"

definition FALCO_POINTS :: "(str \<times> str \<times> str \<times> coverage_action) list" where
  "FALCO_POINTS =
    [(''falco_adapter_start'', ''INFO'', ''adapter_started'', FalcoStart),
     (''falco_adapter_stop'', ''CRITICAL'', ''adapter_stopping'', FalcoStop),
     (''falco_heartbeat_lease'', ''INFO'', ''valid_heartbeat'', FalcoLease)]"

definition classify_falco_point :: "EventEnvelope \<Rightarrow> CoverageEvent \<Rightarrow> coverage_error + CoverageClassification option" where
  "classify_falco_point envelope coverage =
    (case map_of FALCO_POINTS (cv_kind coverage) of
       None \<Rightarrow> Inr None
     | Some (severity, reason, action) \<Rightarrow>
         reject (\<not> members_are (ev_normalized_fields envelope)
               [''component'', ''kind'', ''severity'', ''opened_at'', ''closed_at'', ''reason_code''] \<or>
             cv_component coverage \<noteq> ''falco-adapter'' \<or>
             (cv_severity coverage, cv_reason_code coverage) \<noteq> (severity, reason) \<or>
             cv_closed_at coverage \<noteq> Some (cv_opened_at coverage) \<or> ev_event_time envelope \<noteq> cv_opened_at coverage \<or>
             \<not> coverage_context_is_empty envelope \<or> ev_coverage_flags envelope \<noteq> [])
           ''Falco lifecycle coverage form is invalid''
           (rbind (timestamp_ns (cv_opened_at coverage)) (\<lambda>point_ns.
             Inr (Some ((plain action)\<lparr>cl_scope := Some ProcessScope, cl_opened_at_ns := Some point_ns,
               cl_closed_at_ns := Some point_ns\<rparr>)))))"

definition classify_falco_generic :: "EventEnvelope \<Rightarrow> CoverageEvent \<Rightarrow> coverage_error + CoverageClassification option" where
  "classify_falco_generic envelope coverage =
    (case map_of FALCO_OPEN_REASONS (cv_kind coverage) of
       None \<Rightarrow> Inr None
     | Some open_reasons \<Rightarrow>
         if cv_component coverage \<noteq> ''falco-adapter'' then Inr None
         else
           let counted = (cv_kind coverage \<in> set FALCO_COUNTED_KINDS);
               expected_fields = [''component'', ''kind'', ''severity'', ''opened_at'', ''reason_code''] @
                 (if counted then [''dropped_count''] else []) @
                 (case cv_closed_at coverage of None \<Rightarrow> [] | Some _ \<Rightarrow> [''closed_at'']);
               valid_counter = (case cv_dropped_count coverage of None \<Rightarrow> \<not> counted | Some n \<Rightarrow> counted \<and> n > 0);
               expected_reason = (case cv_closed_at coverage of
                   None \<Rightarrow> cv_reason_code coverage \<in> set open_reasons
                 | Some _ \<Rightarrow> Some (cv_reason_code coverage) = map_of FALCO_CLOSE_REASONS (cv_kind coverage));
               expected_flags = (case cv_closed_at coverage of None \<Rightarrow> [cv_kind coverage] | Some _ \<Rightarrow> []);
               expected_time = (case cv_closed_at coverage of None \<Rightarrow> cv_opened_at coverage | Some closed_at \<Rightarrow> closed_at)
           in
           reject (\<not> members_are (ev_normalized_fields envelope) expected_fields \<or> cv_severity coverage \<noteq> ''CRITICAL'' \<or>
               \<not> valid_counter \<or> \<not> expected_reason \<or> ev_event_time envelope \<noteq> expected_time \<or>
               \<not> coverage_context_is_empty envelope \<or> ev_coverage_flags envelope \<noteq> expected_flags)
             ''Falco adapter coverage form is invalid''
             (rbind (timestamp_ns (cv_opened_at coverage)) (\<lambda>opened_at_ns.
               case cv_closed_at coverage of
                 None \<Rightarrow>
                   Inr (Some ((plain GenericOpen)\<lparr>cl_scope := Some ProcessScope, cl_counter_required := counted,
                     cl_opened_at_ns := Some opened_at_ns\<rparr>))
               | Some closed_at \<Rightarrow>
                   rbind (timestamp_ns closed_at) (\<lambda>closed_at_ns.
                     reject (closed_at_ns < opened_at_ns) ''Falco adapter coverage form is invalid''
                       (Inr (Some ((plain GenericClose)\<lparr>cl_scope := Some ProcessScope, cl_counter_required := counted,
                         cl_opened_at_ns := Some opened_at_ns, cl_closed_at_ns := Some closed_at_ns\<rparr>)))))))"

text \<open>The tests common to the three observer forms of \<open>_classify_observer_specific\<close>.\<close>

definition observer_form :: "EventEnvelope \<Rightarrow> CoverageEvent \<Rightarrow> str list \<Rightarrow> str \<Rightarrow> str \<Rightarrow> str \<Rightarrow> bool" where
  "observer_form envelope coverage names severity reason flag \<longleftrightarrow>
    members_are (ev_normalized_fields envelope) names \<and> cv_component coverage = ''observer'' \<and>
    cv_severity coverage = severity \<and> cv_reason_code coverage = reason \<and> ev_event_time envelope = cv_opened_at coverage \<and>
    coverage_context_is_empty envelope \<and> ev_coverage_flags envelope = [flag] \<and>
    ev_source_payload_hash envelope = ev_normalized_fields_sha256 envelope"

definition classify_observer_specific :: "EventEnvelope \<Rightarrow> CoverageEvent \<Rightarrow> coverage_error + CoverageClassification option" where
  "classify_observer_specific envelope coverage =
    (if cv_kind coverage = ''observer_spool_drop'' then
       reject (\<not> observer_form envelope coverage
             [''component'', ''kind'', ''severity'', ''opened_at'', ''dropped_count'', ''reason_code'']
             ''CRITICAL'' ''routine_spool_quota'' ''storage_pressure'' \<or>
           cv_closed_at coverage \<noteq> None \<or> cv_dropped_count coverage \<noteq> Some 1 \<or> ev_inventory_generation envelope \<noteq> 0)
         ''observer spool-loss coverage form is invalid''
         (rbind (timestamp_ns (cv_opened_at coverage)) (\<lambda>opened_at_ns.
           Inr (Some ((plain GenericOpen)\<lparr>cl_scope := Some HostScope, cl_counter_required := True,
             cl_opened_at_ns := Some opened_at_ns\<rparr>))))
     else if cv_kind coverage = ''observer_spool_drop_recovered'' then
       reject (\<not> observer_form envelope coverage
             [''component'', ''kind'', ''severity'', ''opened_at'', ''closed_at'', ''dropped_count'', ''reason_code'']
             ''INFO'' ''routine_spool_recovered'' ''storage_pressure'' \<or>
           cv_closed_at coverage \<noteq> Some (cv_opened_at coverage) \<or>
           (case cv_dropped_count coverage of None \<Rightarrow> True | Some n \<Rightarrow> n \<le> 0) \<or> ev_inventory_generation envelope \<noteq> 0)
         ''observer spool recovery coverage form is invalid''
         (rbind (timestamp_ns (cv_opened_at coverage)) (\<lambda>point_ns.
           Inr (Some ((plain ObserverPressureRecovered)\<lparr>cl_scope := Some HostScope, cl_counter_required := True,
             cl_opened_at_ns := Some point_ns, cl_closed_at_ns := Some point_ns\<rparr>))))
     else if cv_kind coverage = ''docker_logging_visibility_degraded'' then
       reject (\<not> observer_form envelope coverage
             [''component'', ''kind'', ''severity'', ''opened_at'', ''reason_code'', ''reconcile_generation'']
             ''WARNING'' ''docker_logging_unavailable'' ''docker_logging_unavailable'' \<or>
           cv_closed_at coverage \<noteq> None \<or>
           (case cv_reconcile_generation coverage of None \<Rightarrow> True
            | Some generation \<Rightarrow> generation \<le> 0 \<or> ev_inventory_generation envelope \<noteq> generation))
         ''Docker logging coverage form is invalid''
         (rbind (timestamp_ns (cv_opened_at coverage)) (\<lambda>opened_at_ns.
           Inr (Some ((plain DockerLoggingDegraded)\<lparr>cl_scope := Some HostScope, cl_opened_at_ns := Some opened_at_ns\<rparr>))))
     else Inr None)"

text \<open>The loop over the classifiers: the first that returns a classification or raises decides.\<close>

fun first_classifier ::
    "(EventEnvelope \<Rightarrow> CoverageEvent \<Rightarrow> coverage_error + CoverageClassification option) list \<Rightarrow>
      EventEnvelope \<Rightarrow> CoverageEvent \<Rightarrow> coverage_error + CoverageClassification" where
  "first_classifier [] envelope coverage = Inl (GrammarError ''unsupported coverage form'')"
| "first_classifier (classifier # classifiers) envelope coverage =
    rbind (classifier envelope coverage) (\<lambda>selected.
      case selected of Some c \<Rightarrow> Inr c | None \<Rightarrow> first_classifier classifiers envelope coverage)"

definition classify_coverage_record ::
    "(bytes \<Rightarrow> bytes) \<Rightarrow> EventEnvelope \<Rightarrow> CoverageEvent option \<Rightarrow> coverage_error + CoverageClassification" where
  "classify_coverage_record H envelope coverage =
    rbind (classify_boot_or_start H envelope) (\<lambda>boundary.
      case boundary of
        Some b \<Rightarrow> reject (coverage \<noteq> None) ''non-coverage boundary carries coverage fields'' (Inr b)
      | None \<Rightarrow>
          if ev_event_type envelope \<noteq> ''coverage'' then
            reject (coverage \<noteq> None) ''non-coverage envelope carries coverage fields'' (Inr (plain Ignore))
          else
            case coverage of
              None \<Rightarrow> Inl (GrammarError ''coverage event has no exact typed fields'')
            | Some cv \<Rightarrow>
                reject (\<not> py_eq (JObj (coverage_dump cv)) (JObj (ev_normalized_fields envelope)))
                  ''typed coverage fields differ from their envelope''
                  (first_classifier
                    [classify_docker, classify_sequence, classify_falco_point, classify_falco_generic, classify_observer_specific]
                    envelope cv))"

section \<open>Properties\<close>

lemma timestamp_ns_Inr: "timestamp_ns s = Inr n \<longleftrightarrow> parse_rfc3339nano_utc_ns s = Inr n"
  by (cases "parse_rfc3339nano_utc_ns s") (auto simp: timestamp_ns_def)

lemma reject_Inr [result_simps]: "reject bad m next = Inr x \<longleftrightarrow> \<not> bad \<and> next = Inr x"
  by (simp add: reject_def)

lemma historical_window_Inr:
  assumes "historical_coverage_window trigger u decision = Inr w" and "parse_rfc3339nano_utc_ns trigger = Inr t"
    and "parse_rfc3339nano_utc_ns decision = Inr d"
  shows "window_end_ns w = d \<and>
    window_start_ns w = (if MIN_TIMESTAMP_NS \<le> t - u * 1000000 then Some (t - u * 1000000) else None) \<and>
    window_complete w = (MIN_TIMESTAMP_NS \<le> t - u * 1000000 \<and> t - u * 1000000 \<le> d)"
proof -
  have ns: "timestamp_ns trigger = Inr t" "timestamp_ns decision = Inr d" using assms(2,3) by (simp_all add: timestamp_ns_Inr)
  show ?thesis
  proof (cases "MIN_TIMESTAMP_NS \<le> t - u * 1000000")
    case True
    with assms(1) ns show ?thesis
      by (auto simp: historical_coverage_window_def Let_def result_simps split: if_splits)
  next
    case False
    with assms(1) ns show ?thesis
      by (auto simp: historical_coverage_window_def Let_def split: if_splits)
  qed
qed

text \<open>
  C40. A coverage interval intersects the historical window of a decision exactly when some instant lies
  in both: in the interval, which an absent end leaves unbounded, and between the trigger time less the
  clock uncertainty and the decision time. A window that would begin before year 1 intersects nothing.
\<close>

theorem window_intersection_is_overlap:
  assumes "historical_coverage_window trigger u decision = Inr w"
    and "parse_rfc3339nano_utc_ns trigger = Inr t" and "parse_rfc3339nano_utc_ns decision = Inr d"
    and "parse_rfc3339nano_utc_ns opened = Inr a"
    and "case closed of None \<Rightarrow> b = None | Some c \<Rightarrow> \<exists>e. parse_rfc3339nano_utc_ns c = Inr e \<and> a \<le> e \<and> b = Some e"
  shows "interval_intersects_window opened closed w =
    Inr (MIN_TIMESTAMP_NS \<le> t - u * 1000000 \<and>
      (\<exists>x. a \<le> x \<and> (\<forall>e. b = Some e \<longrightarrow> x \<le> e) \<and> t - u * 1000000 \<le> x \<and> x \<le> d))"
proof -
  note w = historical_window_Inr [OF assms(1-3)]
  let ?s = "t - u * 1000000"
  have ns: "timestamp_ns opened = Inr a" using assms(4) by (simp add: timestamp_ns_Inr)
  show ?thesis
  proof (cases "MIN_TIMESTAMP_NS \<le> ?s \<and> ?s \<le> d")
    case False
    then have "\<not> (MIN_TIMESTAMP_NS \<le> ?s \<and> (\<exists>x. a \<le> x \<and> (\<forall>e. b = Some e \<longrightarrow> x \<le> e) \<and> ?s \<le> x \<and> x \<le> d))" by auto
    moreover have "interval_intersects_window opened closed w = Inr False"
      using w False by (auto simp: interval_intersects_window_def split: option.splits)
    ultimately show ?thesis by simp
  next
    case True
    then have w': "window_start_ns w = Some ?s" "window_complete w" "window_end_ns w = d" using w by auto
    show ?thesis
    proof (cases closed)
      case None
      have "(\<exists>x. a \<le> x \<and> ?s \<le> x \<and> x \<le> d) \<longleftrightarrow> a \<le> d" using True by (auto intro: exI [of _ d])
      with None assms(5) ns w' True show ?thesis by (simp add: interval_intersects_window_def)
    next
      case (Some c)
      then obtain e where e: "timestamp_ns c = Inr e" "a \<le> e" "b = Some e" using assms(5) by (auto simp: timestamp_ns_Inr)
      have "(\<exists>x. a \<le> x \<and> x \<le> e \<and> ?s \<le> x \<and> x \<le> d) \<longleftrightarrow> a \<le> d \<and> e \<ge> ?s"
        using True e(2) by (auto intro: exI [of _ "max a ?s"])
      with Some e ns w' True show ?thesis by (simp add: interval_intersects_window_def)
    qed
  qed
qed

theorem window_intersection_is_overlap_witness:
  "\<exists>w. historical_coverage_window ''2026-01-01T00:00:10Z'' 2000 ''2026-01-01T00:00:20Z'' = Inr w \<and>
    interval_intersects_window ''2026-01-01T00:00:00Z'' (Some ''2026-01-01T00:00:08.5Z'') w = Inr True"
proof -
  define w where "w = \<lparr>window_start = Some ''2026-01-01T00:00:08Z'', window_end = ''2026-01-01T00:00:20Z'',
    window_start_ns = Some 1767225608000000000, window_end_ns = 1767225620000000000, window_complete = True\<rparr>"
  have p: "parse_rfc3339nano_utc_ns ''2026-01-01T00:00:10Z'' = Inr 1767225610000000000"
    "parse_rfc3339nano_utc_ns ''2026-01-01T00:00:20Z'' = Inr 1767225620000000000"
    "parse_rfc3339nano_utc_ns ''2026-01-01T00:00:00Z'' = Inr 1767225600000000000"
    "parse_rfc3339nano_utc_ns ''2026-01-01T00:00:08.5Z'' = Inr 1767225608500000000" by code_simp+
  have w: "historical_coverage_window ''2026-01-01T00:00:10Z'' 2000 ''2026-01-01T00:00:20Z'' = Inr w"
    unfolding w_def by code_simp
  have c: "case Some ''2026-01-01T00:00:08.5Z'' of None \<Rightarrow> Some 1767225608500000000 = None
    | Some c \<Rightarrow> \<exists>e. parse_rfc3339nano_utc_ns c = Inr e \<and> 1767225600000000000 \<le> e \<and> Some 1767225608500000000 = Some e"
    using p(4) by simp
  have "interval_intersects_window ''2026-01-01T00:00:00Z'' (Some ''2026-01-01T00:00:08.5Z'') w = Inr True"
    using window_intersection_is_overlap [OF w p(1,2,3) c] by (auto intro: exI [of _ 1767225608000000000])
  with w show ?thesis by blast
qed

definition example_coverage_envelope :: "str \<Rightarrow> document \<Rightarrow> int \<Rightarrow> str \<Rightarrow> int \<Rightarrow> str list \<Rightarrow> EventEnvelope" where
  "example_coverage_envelope event_type normalized sequence event_time generation flags = \<lparr>
    ev_event_id = ''evt_'', ev_event_type = event_type, ev_key_id = ''key'', ev_key_epoch = 1, ev_host_id = ''host'',
    ev_boot_id = ''boot'', ev_source_sequence = sequence, ev_event_time = event_time, ev_ingest_time = event_time,
    ev_container_id = None, ev_container_start_time = None, ev_release_id = None,
    ev_inventory_generation = generation, ev_inventory_revision = None, ev_normalized_fields = normalized,
    ev_normalized_fields_sha256 = ''sha'', ev_redaction_flags = [], ev_coverage_flags = flags,
    ev_source_payload_hash = ''sha''\<rparr>"

text \<open>
  Python's \<open>1 == True\<close> makes the form of \<open>observer_start\<close> one wider than the literal it is compared
  with: a record whose \<open>reconcile_required\<close> is the number 1 is classified too.
\<close>

lemma observer_start_accepts_number:
  "classify_coverage_record H (example_coverage_envelope ''observer_start''
      [(''kind'', JStr ''observer_start''), (''reconcile_required'', JInt 1)] 1 ''2026-01-01T00:00:00Z'' 0 [''reconcile_required'']) None =
    Inr (plain ObserverStart)"
  by (simp add: classify_coverage_record_def classify_boot_or_start_def example_coverage_envelope_def reject_def empty_security_context_def)

end
