(* ===== verification/CoverageForms.thy ===== *)
theory CoverageForms
  imports CoverageGrammar
begin

text \<open>
  The forms of the coverage grammar as one table, and the proof that \<open>_classify_coverage_record\<close> in
  \<open>core/agmind_immune/coverage/grammar.py\<close> accepts a record only in the form of the row for its kind.
\<close>

section \<open>The table of forms\<close>

text \<open>
  The coverage forms, one row for each kind that opens or closes something: what the record must say, and
  what it is classified as. The table is written out here on its own, without the lists of the code.
\<close>

datatype counter_rule = NoCounter | PositiveCounter | OneLoss
datatype generation_rule = NoGeneration | ZeroGeneration | ReconciledGeneration

record coverage_form =
  fm_action :: coverage_action
  fm_scope :: coverage_scope
  fm_component :: str
  fm_severity :: str
  fm_reasons :: "str list"
  fm_flags :: "str list"
  fm_members :: "str list"
  fm_counter :: counter_rule
  fm_generation :: generation_rule
  fm_range :: bool
  fm_point :: bool

abbreviation observer_row :: "coverage_action \<Rightarrow> str \<Rightarrow> str list \<Rightarrow> str list \<Rightarrow> str list \<Rightarrow> generation_rule \<Rightarrow> coverage_form" where
  "observer_row action severity reasons flags members generation \<equiv>
    \<lparr>fm_action = action, fm_scope = HostScope, fm_component = ''observer'', fm_severity = severity, fm_reasons = reasons, fm_flags = flags,
     fm_members = [''component'', ''kind'', ''severity'', ''opened_at'', ''reason_code''] @ members,
     fm_counter = NoCounter, fm_generation = generation, fm_range = False, fm_point = False\<rparr>"

abbreviation falco_row :: "coverage_action \<Rightarrow> str \<Rightarrow> str list \<Rightarrow> str list \<Rightarrow> str list \<Rightarrow> coverage_form" where
  "falco_row action severity reasons flags members \<equiv>
    \<lparr>fm_action = action, fm_scope = ProcessScope, fm_component = ''falco-adapter'', fm_severity = severity, fm_reasons = reasons, fm_flags = flags,
     fm_members = [''component'', ''kind'', ''severity'', ''opened_at'', ''reason_code''] @ members,
     fm_counter = NoCounter, fm_generation = NoGeneration, fm_range = False, fm_point = False\<rparr>"

definition COVERAGE_FORMS :: "((str \<times> bool) \<times> coverage_form) list" where
  "COVERAGE_FORMS =
    [((''docker_reconcile_gap'', False), observer_row DockerOpen ''CRITICAL''
        [''observer_startup'', ''docker_event_stream_error'', ''docker_event_reconcile_retry'', ''docker_inventory_event'']
        [''docker_event_gap'', ''reconcile_required''] [''reconcile_generation''] ReconciledGeneration),
     ((''docker_reconcile_recovered'', True), observer_row DockerClose ''INFO'' [''docker_full_reconcile_succeeded'']
        [''docker_event_gap'', ''reconcile_required''] [''closed_at'', ''reconcile_generation''] ReconciledGeneration),
     ((''observer_sequence_gap'', False), (observer_row SequenceOpen ''CRITICAL'' [''reserved_sequence_not_published'']
        [''reconcile_required'', ''sequence_gap''] [''affected_source_sequence_start'', ''affected_source_sequence_end''] ZeroGeneration)
        \<lparr>fm_range := True\<rparr>),
     ((''observer_sequence_gap'', True), (observer_row SequenceClose ''INFO'' [''reserved_sequence_reconciled'']
        [''reconcile_required'', ''sequence_gap'']
        [''affected_source_sequence_start'', ''affected_source_sequence_end'', ''closed_at'', ''reconcile_generation''] ReconciledGeneration)
        \<lparr>fm_range := True\<rparr>),
     ((''observer_spool_drop'', False), (observer_row GenericOpen ''CRITICAL'' [''routine_spool_quota''] [''storage_pressure'']
        [''dropped_count''] ZeroGeneration)\<lparr>fm_counter := OneLoss\<rparr>),
     ((''observer_spool_drop_recovered'', True), (observer_row ObserverPressureRecovered ''INFO'' [''routine_spool_recovered''] [''storage_pressure'']
        [''closed_at'', ''dropped_count''] ZeroGeneration)\<lparr>fm_counter := PositiveCounter, fm_point := True\<rparr>),
     ((''docker_logging_visibility_degraded'', False), observer_row DockerLoggingDegraded ''WARNING'' [''docker_logging_unavailable'']
        [''docker_logging_unavailable''] [''reconcile_generation''] ReconciledGeneration),
     ((''falco_adapter_start'', True), (falco_row FalcoStart ''INFO'' [''adapter_started''] [] [''closed_at''])\<lparr>fm_point := True\<rparr>),
     ((''falco_adapter_stop'', True), (falco_row FalcoStop ''CRITICAL'' [''adapter_stopping''] [] [''closed_at''])\<lparr>fm_point := True\<rparr>),
     ((''falco_heartbeat_lease'', True), (falco_row FalcoLease ''INFO'' [''valid_heartbeat''] [] [''closed_at''])\<lparr>fm_point := True\<rparr>),
     ((''falco_parse_rejection'', False), (falco_row GenericOpen ''CRITICAL'' [''invalid_falco_body''] [''falco_parse_rejection''] [''dropped_count''])
        \<lparr>fm_counter := PositiveCounter\<rparr>),
     ((''falco_parse_rejection'', True), (falco_row GenericClose ''CRITICAL'' [''valid_heartbeat_recovered''] [] [''closed_at'', ''dropped_count''])
        \<lparr>fm_counter := PositiveCounter\<rparr>),
     ((''falco_queue_drop'', False), (falco_row GenericOpen ''CRITICAL'' [''routine_capacity_exceeded''] [''falco_queue_drop''] [''dropped_count''])
        \<lparr>fm_counter := PositiveCounter\<rparr>),
     ((''falco_queue_drop'', True), (falco_row GenericClose ''CRITICAL'' [''routine_queue_recovered''] [] [''closed_at'', ''dropped_count''])
        \<lparr>fm_counter := PositiveCounter\<rparr>),
     ((''falco_delivery_failure'', False), falco_row GenericOpen ''CRITICAL'' [''observer_delivery_failed''] [''falco_delivery_failure''] []),
     ((''falco_delivery_failure'', True), falco_row GenericClose ''CRITICAL'' [''observer_delivery_recovered''] [] [''closed_at'']),
     ((''falco_heartbeat_gap'', False), falco_row GenericOpen ''CRITICAL'' [''awaiting_initial_heartbeat'', ''falco_heartbeat_timeout'']
        [''falco_heartbeat_gap''] []),
     ((''falco_heartbeat_gap'', True), falco_row GenericClose ''CRITICAL'' [''recovered''] [] [''closed_at'']),
     ((''falco_configuration_mismatch'', False), falco_row GenericOpen ''CRITICAL''
        [''falco_version_mismatch'', ''falco_engine_mismatch'', ''falco_config_hash_mismatch'', ''falco_rules_hash_mismatch'', ''falco_counter_rollback'']
        [''falco_configuration_mismatch''] []),
     ((''falco_configuration_mismatch'', True), falco_row GenericClose ''CRITICAL'' [''recovered''] [] [''closed_at'']),
     ((''falco_kernel_event_drop'', False), (falco_row GenericOpen ''CRITICAL'' [''falco_kernel_drop_counter_increase''] [''falco_kernel_event_drop'']
        [''dropped_count''])\<lparr>fm_counter := PositiveCounter\<rparr>),
     ((''falco_kernel_event_drop'', True), (falco_row GenericClose ''CRITICAL'' [''recovered''] [] [''closed_at'', ''dropped_count''])
        \<lparr>fm_counter := PositiveCounter\<rparr>),
     ((''falco_outputs_queue_drop'', False), (falco_row GenericOpen ''CRITICAL'' [''falco_outputs_queue_counter_increase''] [''falco_outputs_queue_drop'']
        [''dropped_count''])\<lparr>fm_counter := PositiveCounter\<rparr>),
     ((''falco_outputs_queue_drop'', True), (falco_row GenericClose ''CRITICAL'' [''recovered''] [] [''closed_at'', ''dropped_count''])
        \<lparr>fm_counter := PositiveCounter\<rparr>)]"

fun counter_holds :: "counter_rule \<Rightarrow> int option \<Rightarrow> bool" where
  "counter_holds NoCounter n \<longleftrightarrow> n = None"
| "counter_holds PositiveCounter n \<longleftrightarrow> (\<exists>k>0. n = Some k)"
| "counter_holds OneLoss n \<longleftrightarrow> n = Some 1"

fun generation_holds :: "generation_rule \<Rightarrow> int option \<Rightarrow> int \<Rightarrow> bool" where
  "generation_holds NoGeneration g inventory \<longleftrightarrow> g = None"
| "generation_holds ZeroGeneration g inventory \<longleftrightarrow> g = None \<and> inventory = 0"
| "generation_holds ReconciledGeneration g inventory \<longleftrightarrow> 0 < inventory \<and> g = Some inventory"

definition times_hold :: "bool \<Rightarrow> EventEnvelope \<Rightarrow> CoverageEvent \<Rightarrow> CoverageClassification \<Rightarrow> bool" where
  "times_hold point envelope cv c \<longleftrightarrow>
    (\<exists>a. parse_rfc3339nano_utc_ns (cv_opened_at cv) = Inr a \<and> cl_opened_at_ns c = Some a \<and>
      (case cv_closed_at cv of
         None \<Rightarrow> cl_closed_at_ns c = None \<and> ev_event_time envelope = cv_opened_at cv
       | Some t \<Rightarrow> ev_event_time envelope = t \<and> (point \<longrightarrow> t = cv_opened_at cv) \<and>
           (\<exists>b\<ge>a. parse_rfc3339nano_utc_ns t = Inr b \<and> cl_closed_at_ns c = Some b)))"

definition form_holds :: "coverage_form \<Rightarrow> EventEnvelope \<Rightarrow> CoverageEvent \<Rightarrow> CoverageClassification \<Rightarrow> bool" where
  "form_holds f envelope cv c \<longleftrightarrow>
    cl_action c = fm_action f \<and> cl_scope c = Some (fm_scope f) \<and> cl_counter_required c = (fm_counter f \<noteq> NoCounter) \<and>
    cv_component cv = fm_component f \<and> cv_severity cv = fm_severity f \<and> cv_reason_code cv \<in> set (fm_reasons f) \<and>
    ev_coverage_flags envelope = fm_flags f \<and> set (map fst (ev_normalized_fields envelope)) = set (fm_members f) \<and>
    counter_holds (fm_counter f) (cv_dropped_count cv) \<and>
    generation_holds (fm_generation f) (cv_reconcile_generation cv) (ev_inventory_generation envelope) \<and>
    (if fm_range f then \<exists>a b. 0 < a \<and> a \<le> b \<and> cv_affected_start cv = Some a \<and> cv_affected_end cv = Some b
     else cv_affected_start cv = None \<and> cv_affected_end cv = None) \<and>
    coverage_context_is_empty envelope \<and>
    (fm_component f = ''observer'' \<longrightarrow> ev_source_payload_hash envelope = ev_normalized_fields_sha256 envelope) \<and>
    times_hold (fm_point f) envelope cv c"

definition exact_form :: "EventEnvelope \<Rightarrow> CoverageEvent \<Rightarrow> CoverageClassification \<Rightarrow> bool" where
  "exact_form envelope cv c \<longleftrightarrow>
    (\<exists>f. map_of COVERAGE_FORMS (cv_kind cv, cv_closed_at cv \<noteq> None) = Some f \<and> form_holds f envelope cv c)"

text \<open>The typed fields that are present are the members of the envelope.\<close>

lemma coverage_dump_members:
  assumes "py_eq (JObj (coverage_dump cv)) (JObj normalized)"
  shows "set (map fst normalized) = set (map fst (coverage_dump cv))"
proof -
  have d: "distinct (map fst (coverage_dump cv))"
    by (simp add: coverage_dump_def opt_member_def split: option.splits)
  have l: "length normalized = length (coverage_dump cv)" and
    s: "set (map fst (coverage_dump cv)) \<subseteq> set (map fst normalized)"
    using assms by (auto simp: list_all_iff dest: map_of_SomeD split: option.splits) (metis fst_conv imageI map_of_SomeD)
  have "card (set (map fst normalized)) \<le> card (set (map fst (coverage_dump cv)))"
    using card_length [of "map fst normalized"] distinct_card [OF d] l by simp
  with s show ?thesis by (metis card_seteq finite_set)
qed

lemma opt_member_name: "k \<in> fst ` set (opt_member name f v) \<longleftrightarrow> k = name \<and> v \<noteq> None"
  by (cases v) (simp_all add: opt_member_def)

lemma coverage_dump_options:
  "''closed_at'' \<in> set (map fst (coverage_dump cv)) \<longleftrightarrow> cv_closed_at cv \<noteq> None"
  "''affected_source_sequence_start'' \<in> set (map fst (coverage_dump cv)) \<longleftrightarrow> cv_affected_start cv \<noteq> None"
  "''affected_source_sequence_end'' \<in> set (map fst (coverage_dump cv)) \<longleftrightarrow> cv_affected_end cv \<noteq> None"
  "''dropped_count'' \<in> set (map fst (coverage_dump cv)) \<longleftrightarrow> cv_dropped_count cv \<noteq> None"
  "''reconcile_generation'' \<in> set (map fst (coverage_dump cv)) \<longleftrightarrow> cv_reconcile_generation cv \<noteq> None"
  by (simp_all add: coverage_dump_def image_Un opt_member_name)

text \<open>A typed field is present exactly when its name is a member.\<close>

definition options_agree :: "str set \<Rightarrow> CoverageEvent \<Rightarrow> bool" where
  "options_agree members cv \<longleftrightarrow>
    (''closed_at'' \<in> members \<longleftrightarrow> cv_closed_at cv \<noteq> None) \<and>
    (''affected_source_sequence_start'' \<in> members \<longleftrightarrow> cv_affected_start cv \<noteq> None) \<and>
    (''affected_source_sequence_end'' \<in> members \<longleftrightarrow> cv_affected_end cv \<noteq> None) \<and>
    (''dropped_count'' \<in> members \<longleftrightarrow> cv_dropped_count cv \<noteq> None) \<and>
    (''reconcile_generation'' \<in> members \<longleftrightarrow> cv_reconcile_generation cv \<noteq> None)"

lemma members_agree:
  "py_eq (JObj (coverage_dump cv)) (JObj normalized) \<Longrightarrow> members_are normalized names \<Longrightarrow> options_agree (set names) cv"
  unfolding options_agree_def members_are_def coverage_dump_members [symmetric] using coverage_dump_members coverage_dump_options by blast

lemma form_holdsI:
  assumes "map_of COVERAGE_FORMS (cv_kind cv, cv_closed_at cv \<noteq> None) = Some f" and "members_are (ev_normalized_fields envelope) (fm_members f)"
    and "cl_action c = fm_action f" "cl_scope c = Some (fm_scope f)" "cl_counter_required c = (fm_counter f \<noteq> NoCounter)"
    and "cv_component cv = fm_component f" "cv_severity cv = fm_severity f" "cv_reason_code cv \<in> set (fm_reasons f)" "ev_coverage_flags envelope = fm_flags f"
    and "counter_holds (fm_counter f) (cv_dropped_count cv)"
    and "generation_holds (fm_generation f) (cv_reconcile_generation cv) (ev_inventory_generation envelope)"
    and "if fm_range f then \<exists>a b. 0 < a \<and> a \<le> b \<and> cv_affected_start cv = Some a \<and> cv_affected_end cv = Some b
      else cv_affected_start cv = None \<and> cv_affected_end cv = None"
    and "coverage_context_is_empty envelope" "fm_component f = ''observer'' \<longrightarrow> ev_source_payload_hash envelope = ev_normalized_fields_sha256 envelope"
    and "times_hold (fm_point f) envelope cv c"
  shows "exact_form envelope cv c"
  using assms unfolding exact_form_def form_holds_def members_are_def by blast

lemmas form_simps = members_are_def times_hold_def timestamp_ns_Inr options_agree_def

lemma docker_gap_form:
  assumes "classify_docker envelope cv = Inr (Some c)" and "py_eq (JObj (coverage_dump cv)) (JObj (ev_normalized_fields envelope))"
    and k: "cv_kind cv = ''docker_reconcile_gap''"
  shows "exact_form envelope cv c"
proof -
  let ?names = "[''component'', ''kind'', ''severity'', ''opened_at'', ''reason_code'', ''reconcile_generation'']"
  obtain a g where h: "cv_component cv = ''observer''" "cv_reconcile_generation cv = Some g" "0 < g" "ev_inventory_generation envelope = g"
    "coverage_context_is_empty envelope" "ev_coverage_flags envelope = [''docker_event_gap'', ''reconcile_required'']"
    "ev_source_payload_hash envelope = ev_normalized_fields_sha256 envelope" "members_are (ev_normalized_fields envelope) ?names"
    "cv_severity cv = ''CRITICAL''" "cv_reason_code cv \<in> set DOCKER_OPEN_REASONS" "ev_event_time envelope = cv_opened_at cv"
    "timestamp_ns (cv_opened_at cv) = Inr a" "c = (plain DockerOpen)\<lparr>cl_scope := Some HostScope, cl_opened_at_ns := Some a\<rparr>"
    and n: "cv_closed_at cv = None"
    using assms(1) unfolding classify_docker_def Let_def k by (auto simp: result_simps split: option.splits)
  show ?thesis
    by (rule form_holdsI, simp add: k n COVERAGE_FORMS_def)
      (use h n members_agree [OF assms(2) h(8)] in \<open>simp_all add: form_simps DOCKER_OPEN_REASONS_def\<close>)
qed

lemma docker_recovered_form:
  assumes "classify_docker envelope cv = Inr (Some c)" and "py_eq (JObj (coverage_dump cv)) (JObj (ev_normalized_fields envelope))"
    and k: "cv_kind cv = ''docker_reconcile_recovered''"
  shows "exact_form envelope cv c"
proof -
  let ?names = "[''component'', ''kind'', ''severity'', ''opened_at'', ''closed_at'', ''reason_code'', ''reconcile_generation'']"
  obtain t a b g where h: "cv_component cv = ''observer''" "cv_reconcile_generation cv = Some g" "0 < g" "ev_inventory_generation envelope = g"
    "coverage_context_is_empty envelope" "ev_coverage_flags envelope = [''docker_event_gap'', ''reconcile_required'']"
    "ev_source_payload_hash envelope = ev_normalized_fields_sha256 envelope" "members_are (ev_normalized_fields envelope) ?names"
    "cv_severity cv = ''INFO''" "cv_reason_code cv = ''docker_full_reconcile_succeeded''" "ev_event_time envelope = t"
    "timestamp_ns (cv_opened_at cv) = Inr a" "timestamp_ns t = Inr b" "\<not> b < a"
    "c = (plain DockerClose)\<lparr>cl_scope := Some HostScope, cl_opened_at_ns := Some a, cl_closed_at_ns := Some b\<rparr>"
    and n: "cv_closed_at cv = Some t"
    using assms(1) unfolding classify_docker_def Let_def k by (auto simp: result_simps split: option.splits)
  show ?thesis
    by (rule form_holdsI, simp add: k n COVERAGE_FORMS_def)
      (use h n members_agree [OF assms(2) h(8)] in \<open>simp_all add: form_simps insert_commute\<close>)
qed

lemma docker_form:
  assumes "classify_docker envelope cv = Inr (Some c)" and "py_eq (JObj (coverage_dump cv)) (JObj (ev_normalized_fields envelope))"
  shows "exact_form envelope cv c"
proof -
  have "cv_kind cv = ''docker_reconcile_gap'' \<or> cv_kind cv = ''docker_reconcile_recovered''"
    using assms(1) unfolding classify_docker_def by (cases "cv_kind cv \<in> {''docker_reconcile_gap'', ''docker_reconcile_recovered''}") simp_all
  with docker_gap_form [OF assms] docker_recovered_form [OF assms] show ?thesis by blast
qed

abbreviation sequence_names :: "str list" where
  "sequence_names \<equiv> [''component'', ''kind'', ''severity'', ''opened_at'', ''affected_source_sequence_start'',
    ''affected_source_sequence_end'', ''reason_code'']"

lemma sequence_cases:
  assumes "classify_sequence envelope cv = Inr (Some c)"
  obtains (common) lo hi where "cv_kind cv = ''observer_sequence_gap''" "cv_component cv = ''observer''"
    "cv_affected_start cv = Some lo" "cv_affected_end cv = Some hi" "0 < lo" "lo \<le> hi" "coverage_context_is_empty envelope"
    "ev_coverage_flags envelope = [''reconcile_required'', ''sequence_gap'']" "ev_source_payload_hash envelope = ev_normalized_fields_sha256 envelope"
    "(\<exists>a. members_are (ev_normalized_fields envelope) sequence_names \<and> cv_severity cv = ''CRITICAL'' \<and>
        cv_reason_code cv = ''reserved_sequence_not_published'' \<and> cv_closed_at cv = None \<and> cv_reconcile_generation cv = None \<and>
        ev_event_time envelope = cv_opened_at cv \<and> ev_inventory_generation envelope = 0 \<and> timestamp_ns (cv_opened_at cv) = Inr a \<and>
        c = (plain SequenceOpen)\<lparr>cl_scope := Some HostScope, cl_opened_at_ns := Some a\<rparr>) \<or>
      (\<exists>t g a b. members_are (ev_normalized_fields envelope) (sequence_names @ [''closed_at'', ''reconcile_generation'']) \<and>
        cv_severity cv = ''INFO'' \<and> cv_reason_code cv = ''reserved_sequence_reconciled'' \<and> cv_closed_at cv = Some t \<and>
        cv_reconcile_generation cv = Some g \<and> 0 < g \<and> ev_event_time envelope = t \<and> ev_inventory_generation envelope = g \<and>
        timestamp_ns (cv_opened_at cv) = Inr a \<and> timestamp_ns t = Inr b \<and> a \<le> b \<and>
        c = (plain SequenceClose)\<lparr>cl_scope := Some HostScope, cl_opened_at_ns := Some a, cl_closed_at_ns := Some b\<rparr>)"
  using assms unfolding classify_sequence_def Let_def
  by (auto simp: result_simps not_less split: if_splits option.splits)

lemma sequence_form:
  assumes "classify_sequence envelope cv = Inr (Some c)" and "py_eq (JObj (coverage_dump cv)) (JObj (ev_normalized_fields envelope))"
  shows "exact_form envelope cv c"
  using assms(1)
proof (cases rule: sequence_cases)
  case (common lo hi)
  note h = common(1-9)
  from common(10) show ?thesis
  proof (elim disjE exE conjE)
    fix a
    assume o: "members_are (ev_normalized_fields envelope) sequence_names" "cv_severity cv = ''CRITICAL''" "cv_reason_code cv = ''reserved_sequence_not_published''"
      "cv_closed_at cv = None" "cv_reconcile_generation cv = None" "ev_event_time envelope = cv_opened_at cv" "ev_inventory_generation envelope = 0"
      "timestamp_ns (cv_opened_at cv) = Inr a" "c = (plain SequenceOpen)\<lparr>cl_scope := Some HostScope, cl_opened_at_ns := Some a\<rparr>"
    show ?thesis
      by (rule form_holdsI, simp add: h(1) o(4) COVERAGE_FORMS_def)
        (use h o members_agree [OF assms(2) o(1)] in \<open>simp_all add: form_simps insert_commute\<close>)
  next
    fix t g a b
    assume o: "members_are (ev_normalized_fields envelope) (sequence_names @ [''closed_at'', ''reconcile_generation''])" "cv_severity cv = ''INFO''"
      "cv_reason_code cv = ''reserved_sequence_reconciled''" "cv_closed_at cv = Some t" "cv_reconcile_generation cv = Some g" "0 < g"
      "ev_event_time envelope = t" "ev_inventory_generation envelope = g" "timestamp_ns (cv_opened_at cv) = Inr a" "timestamp_ns t = Inr b" "a \<le> b"
      "c = (plain SequenceClose)\<lparr>cl_scope := Some HostScope, cl_opened_at_ns := Some a, cl_closed_at_ns := Some b\<rparr>"
    show ?thesis
      by (rule form_holdsI, simp add: h(1) o(4) COVERAGE_FORMS_def)
        (use h o members_agree [OF assms(2) o(1)] in \<open>simp_all add: form_simps insert_commute\<close>)
  qed
qed

text \<open>The tables of the code for the Falco adapter give the rows of the form table.\<close>

abbreviation point_names :: "str list" where
  "point_names \<equiv> [''component'', ''kind'', ''severity'', ''opened_at'', ''closed_at'', ''reason_code'']"

abbreviation generic_names :: "str \<Rightarrow> bool \<Rightarrow> str list" where
  "generic_names kind closing \<equiv> [''component'', ''kind'', ''severity'', ''opened_at'', ''reason_code''] @
    (if kind \<in> set FALCO_COUNTED_KINDS then [''dropped_count''] else []) @ (if closing then [''closed_at''] else [])"

fun falco_row_agrees :: "coverage_form option \<Rightarrow> coverage_action \<Rightarrow> str \<Rightarrow> str list \<Rightarrow> str list \<Rightarrow> str list \<Rightarrow> bool \<Rightarrow> bool \<Rightarrow> bool" where
  "falco_row_agrees None action severity reasons flags names is_counted point \<longleftrightarrow> False"
| "falco_row_agrees (Some f) action severity reasons flags names is_counted point \<longleftrightarrow>
    fm_action f = action \<and> fm_scope f = ProcessScope \<and> fm_component f = ''falco-adapter'' \<and> fm_severity f = severity \<and>
    set (fm_reasons f) = set reasons \<and> fm_flags f = flags \<and> set (fm_members f) = set names \<and>
    fm_counter f = (if is_counted then PositiveCounter else NoCounter) \<and> fm_generation f = NoGeneration \<and> \<not> fm_range f \<and> fm_point f = point"

lemma falco_tables_agree:
  "list_all (\<lambda>(kind, severity, reason, action).
    falco_row_agrees (map_of COVERAGE_FORMS (kind, True)) action severity [reason] [] point_names False True) FALCO_POINTS"
  "list_all (\<lambda>(kind, reasons). falco_row_agrees (map_of COVERAGE_FORMS (kind, False)) GenericOpen ''CRITICAL'' reasons [kind]
    (generic_names kind False) (kind \<in> set FALCO_COUNTED_KINDS) False) FALCO_OPEN_REASONS"
  "list_all (\<lambda>(kind, reason). falco_row_agrees (map_of COVERAGE_FORMS (kind, True)) GenericClose ''CRITICAL'' [reason] []
    (generic_names kind True) (kind \<in> set FALCO_COUNTED_KINDS) False) FALCO_CLOSE_REASONS"
  by code_simp+

lemma falco_row_form:
  assumes "falco_row_agrees (map_of COVERAGE_FORMS (cv_kind cv, cv_closed_at cv \<noteq> None)) action severity reasons flags names is_counted point"
    and "py_eq (JObj (coverage_dump cv)) (JObj (ev_normalized_fields envelope))" and "members_are (ev_normalized_fields envelope) names"
    and "''affected_source_sequence_start'' \<notin> set names" "''affected_source_sequence_end'' \<notin> set names" "''reconcile_generation'' \<notin> set names"
    and "cl_action c = action" "cl_scope c = Some ProcessScope" "cl_counter_required c = is_counted"
    and "cv_component cv = ''falco-adapter''" "cv_severity cv = severity" "cv_reason_code cv \<in> set reasons" "ev_coverage_flags envelope = flags"
    and "counter_holds (if is_counted then PositiveCounter else NoCounter) (cv_dropped_count cv)"
    and "coverage_context_is_empty envelope" "times_hold point envelope cv c"
  shows "exact_form envelope cv c"
proof -
  from assms(1) obtain f where f: "map_of COVERAGE_FORMS (cv_kind cv, cv_closed_at cv \<noteq> None) = Some f"
    "falco_row_agrees (Some f) action severity reasons flags names is_counted point"
    by (cases "map_of COVERAGE_FORMS (cv_kind cv, cv_closed_at cv \<noteq> None)") simp_all
  have o: "cv_affected_start cv = None" "cv_affected_end cv = None" "cv_reconcile_generation cv = None"
    using members_agree [OF assms(2,3)] assms(4-6) unfolding options_agree_def by (simp_all only: simp_thms)
  show ?thesis
    by (rule form_holdsI [OF f(1)]) (use f(2) assms(3,7-16) o in \<open>simp_all add: members_are_def\<close>)
qed

lemma falco_point_form:
  assumes "classify_falco_point envelope cv = Inr (Some c)" and "py_eq (JObj (coverage_dump cv)) (JObj (ev_normalized_fields envelope))"
  shows "exact_form envelope cv c"
proof -
  obtain severity reason action a where p: "map_of FALCO_POINTS (cv_kind cv) = Some (severity, reason, action)"
    and h: "members_are (ev_normalized_fields envelope) point_names" "cv_component cv = ''falco-adapter''" "cv_severity cv = severity"
      "cv_reason_code cv = reason" "cv_closed_at cv = Some (cv_opened_at cv)" "ev_event_time envelope = cv_opened_at cv"
      "coverage_context_is_empty envelope" "ev_coverage_flags envelope = []" "timestamp_ns (cv_opened_at cv) = Inr a"
      "c = (plain action)\<lparr>cl_scope := Some ProcessScope, cl_opened_at_ns := Some a, cl_closed_at_ns := Some a\<rparr>"
    using assms(1) unfolding classify_falco_point_def by (auto simp: result_simps split: option.splits)
  have r: "falco_row_agrees (map_of COVERAGE_FORMS (cv_kind cv, cv_closed_at cv \<noteq> None)) action severity [reason] [] point_names False True"
    using bspec [OF falco_tables_agree(1) [unfolded list_all_iff] map_of_SomeD [OF p]] unfolding h(5) by (simp only: prod.case option.distinct simp_thms)
  have "cv_dropped_count cv = None" using members_agree [OF assms(2) h(1)] by (simp add: options_agree_def)
  with h show ?thesis by (intro falco_row_form [OF r assms(2) h(1)]) (simp_all add: times_hold_def timestamp_ns_Inr)
qed

lemma falco_generic_form:
  assumes "classify_falco_generic envelope cv = Inr (Some c)" and "py_eq (JObj (coverage_dump cv)) (JObj (ev_normalized_fields envelope))"
  shows "exact_form envelope cv c"
proof -
  let ?counted = "cv_kind cv \<in> set FALCO_COUNTED_KINDS" and ?closing = "cv_closed_at cv \<noteq> None"
  obtain reasons a where p: "map_of FALCO_OPEN_REASONS (cv_kind cv) = Some reasons" and comp: "cv_component cv = ''falco-adapter''"
    and m: "members_are (ev_normalized_fields envelope) (generic_names (cv_kind cv) ?closing)" and sev: "cv_severity cv = ''CRITICAL''"
    and cnt: "counter_holds (if ?counted then PositiveCounter else NoCounter) (cv_dropped_count cv)"
    and ctx: "coverage_context_is_empty envelope" and a: "timestamp_ns (cv_opened_at cv) = Inr a"
    and rest: "(case cv_closed_at cv of
        None \<Rightarrow> cv_reason_code cv \<in> set reasons \<and> ev_event_time envelope = cv_opened_at cv \<and> ev_coverage_flags envelope = [cv_kind cv] \<and>
          c = (plain GenericOpen)\<lparr>cl_scope := Some ProcessScope, cl_counter_required := ?counted, cl_opened_at_ns := Some a\<rparr>
      | Some t \<Rightarrow> Some (cv_reason_code cv) = map_of FALCO_CLOSE_REASONS (cv_kind cv) \<and> ev_event_time envelope = t \<and> ev_coverage_flags envelope = [] \<and>
          (\<exists>b\<ge>a. timestamp_ns t = Inr b \<and> c = (plain GenericClose)\<lparr>cl_scope := Some ProcessScope, cl_counter_required := ?counted,
            cl_opened_at_ns := Some a, cl_closed_at_ns := Some b\<rparr>))"
    using assms(1) unfolding classify_falco_generic_def Let_def
    by (cases "cv_closed_at cv"; cases "cv_dropped_count cv"; cases ?counted) (auto simp: result_simps not_less split: option.splits if_splits)
  have n: "''affected_source_sequence_start'' \<notin> set (generic_names (cv_kind cv) ?closing)"
    "''affected_source_sequence_end'' \<notin> set (generic_names (cv_kind cv) ?closing)" "''reconcile_generation'' \<notin> set (generic_names (cv_kind cv) ?closing)"
    by simp_all
  show ?thesis
  proof (cases "cv_closed_at cv")
    case None
    have "falco_row_agrees (map_of COVERAGE_FORMS (cv_kind cv, ?closing)) GenericOpen ''CRITICAL'' reasons [cv_kind cv]
        (generic_names (cv_kind cv) ?closing) ?counted False"
      using bspec [OF falco_tables_agree(2) [unfolded list_all_iff] map_of_SomeD [OF p]] unfolding None by (simp only: prod.case option.distinct simp_thms)
    from falco_row_form [OF this assms(2) m n] show ?thesis
      using None rest comp sev cnt ctx a by (simp add: times_hold_def timestamp_ns_Inr)
  next
    case (Some t)
    then have q: "map_of FALCO_CLOSE_REASONS (cv_kind cv) = Some (cv_reason_code cv)" using rest by simp
    have "falco_row_agrees (map_of COVERAGE_FORMS (cv_kind cv, ?closing)) GenericClose ''CRITICAL'' [cv_reason_code cv] []
        (generic_names (cv_kind cv) ?closing) ?counted False"
      using bspec [OF falco_tables_agree(3) [unfolded list_all_iff] map_of_SomeD [OF q]] unfolding Some by (simp only: prod.case option.distinct simp_thms)
    from falco_row_form [OF this assms(2) m n] show ?thesis
      using Some rest comp sev cnt ctx a by (auto simp: times_hold_def timestamp_ns_Inr)
  qed
qed

lemma observer_form_facts:
  assumes "observer_form envelope cv names severity reason flag"
  shows "members_are (ev_normalized_fields envelope) names" "cv_component cv = ''observer''" "cv_severity cv = severity" "cv_reason_code cv = reason"
    "ev_event_time envelope = cv_opened_at cv" "coverage_context_is_empty envelope" "ev_coverage_flags envelope = [flag]"
    "ev_source_payload_hash envelope = ev_normalized_fields_sha256 envelope"
  using assms unfolding observer_form_def by blast+

lemma spool_drop_form:
  assumes "classify_observer_specific envelope cv = Inr (Some c)" and "py_eq (JObj (coverage_dump cv)) (JObj (ev_normalized_fields envelope))"
    and k: "cv_kind cv = ''observer_spool_drop''"
  shows "exact_form envelope cv c"
proof -
  obtain a where f: "observer_form envelope cv [''component'', ''kind'', ''severity'', ''opened_at'', ''dropped_count'', ''reason_code'']
      ''CRITICAL'' ''routine_spool_quota'' ''storage_pressure''"
    and h: "cv_closed_at cv = None" "cv_dropped_count cv = Some 1" "ev_inventory_generation envelope = 0" "timestamp_ns (cv_opened_at cv) = Inr a"
      "c = (plain GenericOpen)\<lparr>cl_scope := Some HostScope, cl_counter_required := True, cl_opened_at_ns := Some a\<rparr>"
    using assms(1) unfolding classify_observer_specific_def k by (auto simp: result_simps)
  note o = observer_form_facts [OF f]
  show ?thesis
    by (rule form_holdsI, simp add: k h(1) COVERAGE_FORMS_def)
      (use h o members_agree [OF assms(2) o(1)] in \<open>simp_all add: form_simps insert_commute\<close>)
qed

lemma spool_recovered_form:
  assumes "classify_observer_specific envelope cv = Inr (Some c)" and "py_eq (JObj (coverage_dump cv)) (JObj (ev_normalized_fields envelope))"
    and k: "cv_kind cv = ''observer_spool_drop_recovered''"
  shows "exact_form envelope cv c"
proof -
  obtain a n where f: "observer_form envelope cv [''component'', ''kind'', ''severity'', ''opened_at'', ''closed_at'', ''dropped_count'', ''reason_code'']
      ''INFO'' ''routine_spool_recovered'' ''storage_pressure''"
    and h: "cv_closed_at cv = Some (cv_opened_at cv)" "cv_dropped_count cv = Some n" "0 < n" "ev_inventory_generation envelope = 0"
      "timestamp_ns (cv_opened_at cv) = Inr a"
      "c = (plain ObserverPressureRecovered)\<lparr>cl_scope := Some HostScope, cl_counter_required := True, cl_opened_at_ns := Some a, cl_closed_at_ns := Some a\<rparr>"
    using assms(1) unfolding classify_observer_specific_def k by (auto simp: result_simps split: option.splits)
  note o = observer_form_facts [OF f]
  show ?thesis
    by (rule form_holdsI, simp add: k h(1) COVERAGE_FORMS_def)
      (use h o members_agree [OF assms(2) o(1)] in \<open>simp_all add: form_simps insert_commute\<close>)
qed

lemma logging_degraded_form:
  assumes "classify_observer_specific envelope cv = Inr (Some c)" and "py_eq (JObj (coverage_dump cv)) (JObj (ev_normalized_fields envelope))"
    and k: "cv_kind cv = ''docker_logging_visibility_degraded''"
  shows "exact_form envelope cv c"
proof -
  obtain a g where f: "observer_form envelope cv [''component'', ''kind'', ''severity'', ''opened_at'', ''reason_code'', ''reconcile_generation'']
      ''WARNING'' ''docker_logging_unavailable'' ''docker_logging_unavailable''"
    and h: "cv_closed_at cv = None" "cv_reconcile_generation cv = Some g" "0 < g" "ev_inventory_generation envelope = g"
      "timestamp_ns (cv_opened_at cv) = Inr a"
      "c = (plain DockerLoggingDegraded)\<lparr>cl_scope := Some HostScope, cl_opened_at_ns := Some a\<rparr>"
    using assms(1) unfolding classify_observer_specific_def k by (auto simp: result_simps split: option.splits)
  note o = observer_form_facts [OF f]
  show ?thesis
    by (rule form_holdsI, simp add: k h(1) COVERAGE_FORMS_def)
      (use h o members_agree [OF assms(2) o(1)] in \<open>simp_all add: form_simps insert_commute\<close>)
qed

lemma observer_specific_form:
  assumes "classify_observer_specific envelope cv = Inr (Some c)" and "py_eq (JObj (coverage_dump cv)) (JObj (ev_normalized_fields envelope))"
  shows "exact_form envelope cv c"
proof -
  have "cv_kind cv = ''observer_spool_drop'' \<or> cv_kind cv = ''observer_spool_drop_recovered'' \<or> cv_kind cv = ''docker_logging_visibility_degraded''"
    using assms(1) unfolding classify_observer_specific_def by (simp split: if_splits)
  then show ?thesis using spool_drop_form [OF assms] spool_recovered_form [OF assms] logging_degraded_form [OF assms] by (elim disjE)
qed

lemmas classifier_forms = docker_form sequence_form falco_point_form falco_generic_form observer_specific_form

text \<open>What a record without coverage fields must say to be a boundary.\<close>

definition boundary_form :: "(bytes \<Rightarrow> bytes) \<Rightarrow> EventEnvelope \<Rightarrow> coverage_action \<Rightarrow> bool" where
  "boundary_form H envelope action \<longleftrightarrow>
    (let normalized = ev_normalized_fields envelope; flags = ev_coverage_flags envelope; kind = ev_event_type envelope in
     empty_security_context envelope \<and>
     (case action of
        BootBoundary \<Rightarrow> kind = ''observer_boot_boundary'' \<and> is_ok (valid_ObserverBootBoundaryV1 normalized) \<and>
          flags = [''boot_transition'', ''reconcile_required'']
      | KeyTransition \<Rightarrow> flags \<in> {[''key_rotation''], [''boot_transition'', ''key_rotation'']} \<and>
          (kind = ''observer_key_transition'' \<and> is_ok (valid_KeyTransitionV1 H normalized) \<or>
           kind = ''observer_key_epoch_start'' \<and> set (map fst normalized) = {''kind'', ''key_id'', ''key_epoch''} \<and>
             py_eq (doc_get normalized ''key_id'') (JStr (ev_key_id envelope)) \<and> py_eq (doc_get normalized ''key_epoch'') (JInt (ev_key_epoch envelope)))
      | ObserverStart \<Rightarrow> kind = ''observer_start'' \<and> flags = [''reconcile_required''] \<and>
          py_eq (JObj normalized) (JObj [(''kind'', JStr ''observer_start''), (''reconcile_required'', JBool True)])
      | _ \<Rightarrow> False))"

lemma boundary_not_coverage:
  assumes "classify_boot_or_start H envelope = Inr (Some b)"
  shows "ev_event_type envelope \<noteq> ''coverage''" "\<exists>action. b = plain action \<and> boundary_form H envelope action"
proof -
  consider (boot) "ev_event_type envelope = ''observer_boot_boundary''" | (key) "ev_event_type envelope = ''observer_key_transition''"
    | (epoch) "ev_event_type envelope = ''observer_key_epoch_start''" | (start) "ev_event_type envelope = ''observer_start''"
    using assms unfolding classify_boot_or_start_def Let_def by (simp split: if_splits)
  then have "ev_event_type envelope \<noteq> ''coverage'' \<and> (\<exists>action. b = plain action \<and> boundary_form H envelope action)"
  proof cases
    case boot
    with assms show ?thesis unfolding classify_boot_or_start_def Let_def by (auto simp: result_simps boundary_form_def Let_def)
  next
    case key
    with assms show ?thesis unfolding classify_boot_or_start_def Let_def by (auto simp: result_simps boundary_form_def Let_def)
  next
    case epoch
    with assms have "b = plain KeyTransition" "boundary_form H envelope KeyTransition"
      unfolding classify_boot_or_start_def Let_def members_are_def by (simp_all add: result_simps boundary_form_def del: py_eq.simps)
    with epoch show ?thesis by simp
  next
    case start
    with assms have "b = plain ObserverStart" "boundary_form H envelope ObserverStart"
      unfolding classify_boot_or_start_def Let_def by (simp_all add: result_simps boundary_form_def del: py_eq.simps)
    with start show ?thesis by simp
  qed
  then show "ev_event_type envelope \<noteq> ''coverage''" "\<exists>action. b = plain action \<and> boundary_form H envelope action" by blast+
qed

lemma boundary_absent:
  "classify_boot_or_start H envelope = Inr None \<Longrightarrow>
    ev_event_type envelope \<notin> {''observer_boot_boundary'', ''observer_key_transition'', ''observer_key_epoch_start'', ''observer_start''}"
  unfolding classify_boot_or_start_def Let_def by (simp add: result_simps split: if_splits)

text \<open>
  C12. The grammar accepts only exact forms. A record that carries coverage fields and is classified is a
  coverage event whose typed fields are its normalized fields, and it agrees with the row of its kind in
  the table above in component, severity, reason, flags, members, counter, generation, affected range,
  payload hash and times, and is classified as that row says. A record without them is one of the
  boundaries in its exact form, or neither a boundary nor a coverage event and ignored.
\<close>

theorem accepted_coverage_form_is_exact:
  assumes "classify_coverage_record H envelope coverage = Inr c"
  shows "case coverage of
      None \<Rightarrow> ev_event_type envelope \<noteq> ''coverage'' \<and>
        ((\<exists>action. c = plain action \<and> boundary_form H envelope action) \<or>
         c = plain Ignore \<and> ev_event_type envelope \<notin>
           {''observer_boot_boundary'', ''observer_key_transition'', ''observer_key_epoch_start'', ''observer_start''})
    | Some cv \<Rightarrow> ev_event_type envelope = ''coverage'' \<and>
        py_eq (JObj (coverage_dump cv)) (JObj (ev_normalized_fields envelope)) \<and> exact_form envelope cv c"
proof -
  obtain boundary where b: "classify_boot_or_start H envelope = Inr boundary"
    using assms by (auto simp: classify_coverage_record_def result_simps)
  show ?thesis
  proof (cases boundary)
    case (Some x)
    with assms b have "coverage = None" "c = x" by (simp_all add: classify_coverage_record_def result_simps)
    with boundary_not_coverage [OF b [unfolded Some]] show ?thesis by simp
  next
    case None
    note absent = boundary_absent [OF b [unfolded None]]
    show ?thesis
    proof (cases coverage)
      case n: None
      with assms b None have "ev_event_type envelope \<noteq> ''coverage''" "c = plain Ignore"
        by (simp_all add: classify_coverage_record_def result_simps reject_def split: if_splits)
      with absent n show ?thesis by (simp only: option.case simp_thms)
    next
      case cv: (Some cv)
      with assms b None have e: "ev_event_type envelope = ''coverage''"
        and p: "py_eq (JObj (coverage_dump cv)) (JObj (ev_normalized_fields envelope))"
        and f: "first_classifier [classify_docker, classify_sequence, classify_falco_point, classify_falco_generic, classify_observer_specific]
          envelope cv = Inr c"
        by (simp_all add: classify_coverage_record_def result_simps reject_def del: first_classifier.simps split: if_splits)
      have "exact_form envelope cv c"
        using f by (auto simp: result_simps intro: classifier_forms [OF _ p] split: option.splits)
      with e p cv show ?thesis by simp
    qed
  qed
qed

definition example_docker_open :: CoverageEvent where
  "example_docker_open = \<lparr>cv_component = ''observer'', cv_kind = ''docker_reconcile_gap'', cv_severity = ''CRITICAL'',
    cv_opened_at = ''2026-01-01T00:00:00Z'', cv_closed_at = None, cv_affected_start = None, cv_affected_end = None,
    cv_dropped_count = None, cv_reason_code = ''observer_startup'', cv_reconcile_generation = Some 7\<rparr>"

abbreviation example_docker_envelope :: EventEnvelope where
  "example_docker_envelope \<equiv> example_coverage_envelope ''coverage'' (coverage_dump example_docker_open) 3 ''2026-01-01T00:00:00Z'' 7
    [''docker_event_gap'', ''reconcile_required'']"

theorem accepted_coverage_form_is_exact_witness:
  "\<exists>c. classify_coverage_record (\<lambda>_. replicate 32 nul) example_docker_envelope (Some example_docker_open) = Inr c \<and>
    cl_action c = DockerOpen \<and> exact_form example_docker_envelope example_docker_open c"
proof -
  let ?c = "(plain DockerOpen)\<lparr>cl_scope := Some HostScope, cl_opened_at_ns := Some 1767225600000000000\<rparr>"
  have c: "classify_coverage_record (\<lambda>_. replicate 32 nul) example_docker_envelope (Some example_docker_open) = Inr ?c"
    by code_simp
  from accepted_coverage_form_is_exact [OF c] have "exact_form example_docker_envelope example_docker_open ?c" by simp
  with c show ?thesis by auto
qed

end
