(* ===== verification/EvidenceStore.thy ===== *)
theory EvidenceStore
  imports EvidenceRefs
begin

text \<open>
  The in-memory index of \<open>SegmentStore\<close> in \<open>core/agmind_immune/evidence/segments.py\<close> and the calls the
  coverage reducer makes on it: adding scanned records, resolving a reference, iterating the
  authenticated records, and the ownership of the one coverage reducer. The segment files, manifests
  and verifier recovery behind it are not modelled; the verifier's accepted references, last sequence
  and host are components of the state. Shown here: the index invariant and that adding records keeps
  it, that references resolve to exactly the stored records, and that the record the reducer is given
  is the next one.
\<close>

section \<open>Definitions\<close>

text \<open>
  \<open>EvidenceStoreError\<close> and the subclasses of it raised here, a \<open>ValueError\<close>, and a \<open>KeyError\<close>, which no
  handler of the package catches.
\<close>

datatype store_error =
    EvidenceStoreError str
  | EvidenceSealError str
  | EvidenceStoreBusy str
  | EvidenceCorrupt str
  | AckAuthorityError str
  | StoreValueError str
  | StoreKeyError

text \<open>
  Objects are compared by identity where the source does so: the store, its lifecycle, the owner and
  the tokens are numbers. \<open>ss_ready\<close> says that a verifier is bound and the authority state is ready.
\<close>

record SegmentStore =
  ss_self :: nat
  ss_lifecycle_identity :: nat
  ss_closed :: bool
  ss_ready :: bool
  ss_host_id :: str
  ss_last_sequence :: int
  ss_accepted :: "int \<Rightarrow> EvidenceRef option"
  ss_records :: "StoredEvidenceRecord list"
  ss_index :: "str \<times> int \<Rightarrow> (bytes \<times> EvidenceRef) option"
  ss_record_positions :: "str \<times> int \<Rightarrow> nat option"
  ss_sequences_by_host :: "str \<Rightarrow> int list"
  ss_last_sequence_by_host :: "str \<Rightarrow> int"
  ss_coverage_state_owner :: "nat option"

text \<open>\<open>record.envelope["host_id"]\<close>; the stored envelopes are validated, so it is a text.\<close>

definition rec_host :: "StoredEvidenceRecord \<Rightarrow> str" where
  "rec_host record = get_str (rec_envelope record) ''host_id''"

definition rec_sequence :: "StoredEvidenceRecord \<Rightarrow> int" where
  "rec_sequence record = ref_source_sequence (rec_ref record)"

text \<open>
  \<open>_add_records\<close> changes the store record by record: at an error the records before it stay added. The
  result is the store and the error, if any.
\<close>

fun add_records :: "SegmentStore \<Rightarrow> StoredEvidenceRecord list \<Rightarrow> SegmentStore \<times> store_error option" where
  "add_records store [] = (store, None)"
| "add_records store (record # records) =
    (let host = rec_host record; key = (host, rec_sequence record) in
     case ss_index store key of
       Some prior \<Rightarrow>
         if fst prior \<noteq> canonical_envelope record then (store, Some (EvidenceCorrupt ''stored same-sequence evidence conflict''))
         else (store, Some (EvidenceCorrupt ''stored duplicate evidence frame''))
     | None \<Rightarrow>
         if rec_sequence record \<le> ss_last_sequence_by_host store host then
           (store, Some (EvidenceCorrupt ''stored evidence is not in host-global sequence order''))
         else
           add_records (store\<lparr>
             ss_record_positions := (ss_record_positions store)(key := Some (length (ss_records store))),
             ss_sequences_by_host := (ss_sequences_by_host store)(host := ss_sequences_by_host store host @ [rec_sequence record]),
             ss_index := (ss_index store)(key := Some (canonical_envelope record, rec_ref record)),
             ss_last_sequence_by_host := (ss_last_sequence_by_host store)(host := rec_sequence record),
             ss_records := ss_records store @ [record]\<rparr>) records)"

definition require_authenticated_recovered :: "SegmentStore \<Rightarrow> store_error + unit" where
  "require_authenticated_recovered store =
    (if ss_closed store then Inl (EvidenceStoreError ''evidence store is closed'')
     else if \<not> ss_ready store then Inl (EvidenceSealError ''authenticated evidence is unavailable before verifier recovery'')
     else Inr ())"

definition resolve_authenticated_ref :: "SegmentStore \<Rightarrow> EvidenceRef \<Rightarrow> store_error + StoredEvidenceRecord" where
  "resolve_authenticated_ref store ref =
    rbind (require_authenticated_recovered store) (\<lambda>_.
      let key = (ss_host_id store, ref_source_sequence ref) in
      if map_option snd (ss_index store key) \<noteq> Some ref \<or> ss_accepted store (ref_source_sequence ref) \<noteq> Some ref then
        Inl (AckAuthorityError ''ACK ref does not match one complete authenticated evidence ref'')
      else
        case ss_record_positions store key of
          None \<Rightarrow> Inl (EvidenceCorrupt ''authenticated evidence index has no record position'')
        | Some position \<Rightarrow>
            let record = ss_records store ! position in
            if rec_ref record \<noteq> ref then Inl (EvidenceCorrupt ''authenticated evidence position changed'')
            else Inr record)"

text \<open>\<open>bisect_right(sequences, a)\<close>\<close>

function bisect_loop :: "int list \<Rightarrow> int \<Rightarrow> nat \<Rightarrow> nat \<Rightarrow> nat" where
  "bisect_loop xs a lo hi =
    (if lo < hi then
       let mid = (lo + hi) div 2 in
       if a < xs ! mid then bisect_loop xs a lo mid else bisect_loop xs a (mid + 1) hi
     else lo)"
  by pat_completeness auto

termination by (relation "measure (\<lambda>(xs, a, lo, hi). hi - lo)") auto

declare bisect_loop.simps [simp del]

definition bisect_right :: "int list \<Rightarrow> int \<Rightarrow> nat" where
  "bisect_right xs a = bisect_loop xs a 0 (length xs)"

definition resolve_sequence :: "SegmentStore \<Rightarrow> int \<Rightarrow> store_error + StoredEvidenceRecord" where
  "resolve_sequence store sequence =
    (case ss_index store (ss_host_id store, sequence) of
       None \<Rightarrow> Inl (EvidenceCorrupt ''authenticated evidence sequence index changed'')
     | Some indexed \<Rightarrow> resolve_authenticated_ref store (snd indexed))"

text \<open>
  The generator \<open>iter_authenticated_records\<close>, as the list of what its steps yield or raise; a consumer
  stops at the first error. Without an upper bound it runs to the end.
\<close>

definition iter_authenticated_records :: "SegmentStore \<Rightarrow> int \<Rightarrow> int option \<Rightarrow> (store_error + StoredEvidenceRecord) list" where
  "iter_authenticated_records store after through =
    (case require_authenticated_recovered store of
       Inl e \<Rightarrow> [Inl e]
     | Inr _ \<Rightarrow>
         if \<not> (0 \<le> after \<and> after \<le> MAX_UINT64) then [Inl (StoreValueError ''authenticated evidence lower bound is invalid'')]
         else if (case through of None \<Rightarrow> False | Some t \<Rightarrow> \<not> (0 \<le> t \<and> t \<le> MAX_UINT64)) then
           [Inl (StoreValueError ''authenticated evidence upper bound is invalid'')]
         else
           let sequences = ss_sequences_by_host store (ss_host_id store);
               start = bisect_right sequences after;
               stop = (case through of None \<Rightarrow> length sequences | Some t \<Rightarrow> bisect_right sequences t)
           in map (resolve_sequence store) (drop start (take stop sequences)))"

subsection \<open>The coverage reducer's ownership\<close>

definition acquire_coverage_state :: "SegmentStore \<Rightarrow> nat \<Rightarrow> store_error + nat \<times> SegmentStore" where
  "acquire_coverage_state store owner =
    rbind (require_authenticated_recovered store) (\<lambda>_.
      if ss_coverage_state_owner store \<noteq> None then Inl (EvidenceStoreBusy ''evidence root already has one coverage-state owner'')
      else Inr (ss_lifecycle_identity store, store\<lparr>ss_coverage_state_owner := Some owner\<rparr>))"

definition release_coverage_state :: "SegmentStore \<Rightarrow> nat \<Rightarrow> nat \<Rightarrow> store_error + SegmentStore" where
  "release_coverage_state store owner lifecycle_identity =
    (if Some owner \<noteq> ss_coverage_state_owner store \<or> lifecycle_identity \<noteq> ss_lifecycle_identity store then
       Inl (EvidenceSealError ''coverage state release has the wrong lifecycle'')
     else Inr (store\<lparr>ss_coverage_state_owner := None\<rparr>))"

text \<open>\<open>_exact_coverage_record_key\<close>: the canonical octets, priority, acceptance time and reference.\<close>

definition exact_coverage_record_key ::
    "StoredEvidenceRecord \<Rightarrow> coverage_error + bytes \<times> EvidencePriority \<times> str \<times> EvidenceRef" where
  "exact_coverage_record_key record =
    (case canonical_json (JObj (rec_envelope record)) of
       Inl _ \<Rightarrow> Inl (GrammarError ''coverage record envelope is not canonicalizable'')
     | Inr encoded \<Rightarrow>
         reject (encoded \<noteq> canonical_envelope record) ''coverage record envelope differs from its canonical bytes''
         (rbind (exact_coverage_ref_key (rec_ref record)) (\<lambda>ref.
           Inr (canonical_envelope record, priority record, accepted_at record, ref))))"

definition same_exact_coverage_record :: "StoredEvidenceRecord \<Rightarrow> StoredEvidenceRecord \<Rightarrow> coverage_error + bool" where
  "same_exact_coverage_record left right =
    rbind (exact_coverage_record_key left) (\<lambda>a. rbind (exact_coverage_record_key right) (\<lambda>b. Inr (a = b)))"

text \<open>\<open>except ValueError as error: raise ... from error\<close>\<close>

definition or_raise :: "store_error \<Rightarrow> coverage_error + 'a \<Rightarrow> store_error + 'a" where
  "or_raise e = map_err (\<lambda>_. e)"

definition resolve_next_coverage_record ::
    "SegmentStore \<Rightarrow> nat \<Rightarrow> nat \<Rightarrow> StoredEvidenceRecord \<Rightarrow> EvidenceRef option \<Rightarrow> store_error + StoredEvidenceRecord" where
  "resolve_next_coverage_record store owner lifecycle_identity record after_ref =
    rbind (require_authenticated_recovered store) (\<lambda>_.
    if Some owner \<noteq> ss_coverage_state_owner store \<or> lifecycle_identity \<noteq> ss_lifecycle_identity store then
      Inl (EvidenceSealError ''coverage state is outside this evidence lifecycle'')
    else
      rbind (or_raise (EvidenceSealError ''coverage apply record is not exact'') (exact_coverage_record_key record)) (\<lambda>_.
      rbind (case after_ref of
          None \<Rightarrow> Inr ()
        | Some ref \<Rightarrow> rbind (or_raise (EvidenceSealError ''coverage apply record is not exact'') (exact_coverage_ref_key ref)) (\<lambda>_. Inr ())) (\<lambda>_.
      let sequences = ss_sequences_by_host store (ss_host_id store) in
      rbind (case after_ref of
          None \<Rightarrow> Inr 0
        | Some ref \<Rightarrow> rbind (resolve_authenticated_ref store ref) (\<lambda>_. Inr (bisect_right sequences (ref_source_sequence ref)))) (\<lambda>position.
      if position \<ge> length sequences then
        Inl (EvidenceSealError ''coverage apply has no next authenticated real evidence ref'')
      else
        case ss_index store (ss_host_id store, sequences ! position) of
          None \<Rightarrow> Inl StoreKeyError
        | Some indexed \<Rightarrow>
            let next_ref = snd indexed in
            rbind (or_raise (EvidenceCorrupt ''next authenticated coverage ref is invalid'') (exact_coverage_ref_key next_ref)) (\<lambda>_.
            rbind (or_raise (StoreValueError ''ref'') (same_exact_coverage_ref (rec_ref record) next_ref)) (\<lambda>same_ref.
            if \<not> same_ref then Inl (EvidenceSealError ''coverage apply skipped the next authenticated real evidence ref'')
            else
              rbind (resolve_authenticated_ref store next_ref) (\<lambda>resolved.
              rbind (or_raise (EvidenceCorrupt ''resolved authenticated coverage record is invalid'')
                  (same_exact_coverage_record resolved record)) (\<lambda>same_record.
                if \<not> same_record then Inl (EvidenceSealError ''coverage apply record differs from authenticated evidence'')
                else Inr resolved))))))))"

definition validate_coverage_state_owner ::
    "SegmentStore \<Rightarrow> nat \<Rightarrow> nat \<Rightarrow> EvidenceRef option \<Rightarrow> store_error + EvidenceRef option" where
  "validate_coverage_state_owner store owner lifecycle_identity reducer_head =
    rbind (require_authenticated_recovered store) (\<lambda>_.
    if Some owner \<noteq> ss_coverage_state_owner store \<or> lifecycle_identity \<noteq> ss_lifecycle_identity store then
      Inl (EvidenceSealError ''coverage state is outside this evidence lifecycle'')
    else
      rbind (case reducer_head of
          None \<Rightarrow> Inr ()
        | Some ref \<Rightarrow> rbind (or_raise (EvidenceSealError ''coverage reducer head is invalid'') (exact_coverage_ref_key ref)) (\<lambda>_. Inr ())) (\<lambda>_.
      rbind (if ss_last_sequence store = 0 then Inr None
        else case ss_accepted store (ss_last_sequence store) of
          None \<Rightarrow> Inl (EvidenceCorrupt ''authenticated evidence head has no exact ref'')
        | Some ref \<Rightarrow>
            rbind (or_raise (EvidenceCorrupt ''authenticated evidence head has no exact ref'') (exact_coverage_ref_key ref)) (\<lambda>_.
            rbind (resolve_authenticated_ref store ref) (\<lambda>_. Inr (Some ref)))) (\<lambda>authenticated_head.
        if authenticated_head \<noteq> reducer_head then
          Inl (EvidenceSealError ''coverage reducer head differs from authenticated evidence head'')
        else Inr authenticated_head)))"

section \<open>Binary search\<close>

lemma bisect_loop_sorted:
  assumes "sorted xs" and "lo \<le> hi" "hi \<le> length xs" and "\<forall>i<lo. xs ! i \<le> a" and "\<forall>i. hi \<le> i \<and> i < length xs \<longrightarrow> a < xs ! i"
  shows "bisect_loop xs a lo hi \<le> length xs \<and> (\<forall>i<bisect_loop xs a lo hi. xs ! i \<le> a) \<and>
    (\<forall>i. bisect_loop xs a lo hi \<le> i \<and> i < length xs \<longrightarrow> a < xs ! i)"
  using assms
proof (induction xs a lo hi rule: bisect_loop.induct)
  case (1 xs a lo hi)
  let ?mid = "(lo + hi) div 2"
  show ?case
  proof (cases "lo < hi")
    case False
    with 1(3-7) show ?thesis by (subst (1 2 3) bisect_loop.simps) simp
  next
    case True
    show ?thesis
    proof (cases "a < xs ! ?mid")
      case lt: True
      have "\<forall>i. ?mid \<le> i \<and> i < length xs \<longrightarrow> a < xs ! i"
        using lt sorted_nth_mono [OF 1(3), of ?mid] by (meson less_le_trans)
      with 1(1) [OF True refl lt] 1(3-6) True show ?thesis by (subst (1 2 3) bisect_loop.simps) (simp add: lt)
    next
      case ge: False
      have "\<forall>i<?mid + 1. xs ! i \<le> a"
      proof (intro allI impI)
        fix i assume "i < ?mid + 1"
        moreover have "?mid < length xs" using True 1(5) by linarith
        ultimately have "xs ! i \<le> xs ! ?mid" using 1(3) by (intro sorted_nth_mono) simp_all
        with ge show "xs ! i \<le> a" by linarith
      qed
      with 1(2) [OF True refl ge] 1(3,5,7) True show ?thesis by (subst (1 2 3) bisect_loop.simps) (simp add: ge)
    qed
  qed
qed

lemma bisect_right_split:
  assumes "sorted xs" and "xs = ys @ zs" and "\<forall>y\<in>set ys. y \<le> a" and "\<forall>z\<in>set zs. a < z"
  shows "bisect_right xs a = length ys"
proof -
  let ?n = "bisect_right xs a"
  have n: "?n \<le> length xs" "\<forall>i<?n. xs ! i \<le> a" "\<forall>i. ?n \<le> i \<and> i < length xs \<longrightarrow> a < xs ! i"
    using bisect_loop_sorted [OF assms(1), of 0 "length xs" a] by (simp_all add: bisect_right_def)
  have "\<not> length ys < ?n"
  proof
    assume l: "length ys < ?n"
    then have "xs ! length ys \<in> set zs" using n(1) assms(2) by (cases zs) (simp_all add: nth_append)
    with l n(2) assms(4) show False using leD by blast
  qed
  moreover have "\<not> ?n < length ys"
  proof
    assume l: "?n < length ys"
    then have "xs ! ?n \<in> set ys" using assms(2) by (simp add: nth_append)
    with l n(3) assms(2,3) show False by fastforce
  qed
  ultimately show ?thesis by simp
qed

section \<open>The index invariant\<close>

definition host_records :: "SegmentStore \<Rightarrow> str \<Rightarrow> StoredEvidenceRecord list" where
  "host_records store host = filter (\<lambda>record. rec_host record = host) (ss_records store)"

text \<open>
  The three dictionaries describe the list of records: positions and contents by host and sequence,
  and the sequences of each host, which increase strictly from 1.
\<close>

definition store_wf :: "SegmentStore \<Rightarrow> bool" where
  "store_wf store \<longleftrightarrow>
    (\<forall>host. ss_sequences_by_host store host = map rec_sequence (host_records store host)) \<and>
    (\<forall>host. sorted_wrt (<) (0 # ss_sequences_by_host store host)) \<and>
    (\<forall>host. ss_last_sequence_by_host store host = last (0 # ss_sequences_by_host store host)) \<and>
    (\<forall>host sequence i. ss_record_positions store (host, sequence) = Some i \<longleftrightarrow>
      i < length (ss_records store) \<and> rec_host (ss_records store ! i) = host \<and> rec_sequence (ss_records store ! i) = sequence) \<and>
    (\<forall>key. ss_index store key =
      map_option (\<lambda>i. (canonical_envelope (ss_records store ! i), rec_ref (ss_records store ! i))) (ss_record_positions store key))"

lemma store_wf_index_None:
  assumes "store_wf store"
  shows "ss_index store (host, sequence) = None \<longleftrightarrow> (\<forall>record\<in>set (host_records store host). rec_sequence record \<noteq> sequence)"
proof -
  have "ss_record_positions store (host, sequence) = None \<longleftrightarrow>
      (\<forall>i<length (ss_records store). rec_host (ss_records store ! i) = host \<longrightarrow> rec_sequence (ss_records store ! i) \<noteq> sequence)"
  proof -
    have p: "ss_record_positions store (host, sequence) = Some i \<longleftrightarrow>
        i < length (ss_records store) \<and> rec_host (ss_records store ! i) = host \<and> rec_sequence (ss_records store ! i) = sequence" for i
      using assms by (simp add: store_wf_def)
    have "ss_record_positions store (host, sequence) = None \<longleftrightarrow> (\<forall>i. ss_record_positions store (host, sequence) \<noteq> Some i)" by simp
    also have "\<dots> \<longleftrightarrow> (\<forall>i<length (ss_records store). rec_host (ss_records store ! i) = host \<longrightarrow> rec_sequence (ss_records store ! i) \<noteq> sequence)"
      unfolding p by blast
    finally show ?thesis .
  qed
  moreover have "ss_index store (host, sequence) = None \<longleftrightarrow> ss_record_positions store (host, sequence) = None"
    using assms unfolding store_wf_def by (metis map_option_is_None)
  moreover have "(\<forall>record\<in>set (host_records store host). rec_sequence record \<noteq> sequence) \<longleftrightarrow>
      (\<forall>i<length (ss_records store). rec_host (ss_records store ! i) = host \<longrightarrow> rec_sequence (ss_records store ! i) \<noteq> sequence)"
    by (auto simp: host_records_def in_set_conv_nth)
  ultimately show ?thesis by argo
qed

lemma sorted_wrt_last:
  fixes xs :: "int list"
  assumes "sorted_wrt (<) (0 # xs)" and "last (0 # xs) < x"
  shows "sorted_wrt (<) (0 # xs @ [x])"
proof -
  have "y \<le> last (0 # xs)" if "y \<in> set (0 # xs)" for y
    using assms(1) that by (induction xs rule: rev_induct) (fastforce simp: sorted_wrt_append)+
  with assms show ?thesis by (fastforce simp: sorted_wrt_append)
qed


definition add_one :: "SegmentStore \<Rightarrow> StoredEvidenceRecord \<Rightarrow> SegmentStore" where
  "add_one store record = store\<lparr>
     ss_record_positions := (ss_record_positions store)((rec_host record, rec_sequence record) := Some (length (ss_records store))),
     ss_sequences_by_host := (ss_sequences_by_host store)(rec_host record := ss_sequences_by_host store (rec_host record) @ [rec_sequence record]),
     ss_index := (ss_index store)((rec_host record, rec_sequence record) := Some (canonical_envelope record, rec_ref record)),
     ss_last_sequence_by_host := (ss_last_sequence_by_host store)(rec_host record := rec_sequence record),
     ss_records := ss_records store @ [record]\<rparr>"

lemma add_records_Cons:
  assumes "add_records store (record # records) = (store', e)"
  obtains (stop) "store' = store" "e \<noteq> None"
  | (add) "ss_index store (rec_host record, rec_sequence record) = None"
    "ss_last_sequence_by_host store (rec_host record) < rec_sequence record" "add_records (add_one store record) records = (store', e)"
  using assms by (auto simp: add_one_def Let_def split: option.splits if_splits)

lemma add_one_wf:
  assumes wf: "store_wf store" and fresh: "ss_index store (rec_host record, rec_sequence record) = None"
    and later: "ss_last_sequence_by_host store (rec_host record) < rec_sequence record"
  shows "store_wf (add_one store record)"
proof -
  note w = wf [unfolded store_wf_def]
  have seqs: "ss_sequences_by_host store host = map rec_sequence (host_records store host)"
    and sorted: "sorted_wrt (<) (0 # ss_sequences_by_host store host)"
    and last: "ss_last_sequence_by_host store host = last (0 # ss_sequences_by_host store host)" for host
    using w by blast+
  have pos: "ss_record_positions store (host, sequence) = Some i \<longleftrightarrow>
      i < length (ss_records store) \<and> rec_host (ss_records store ! i) = host \<and> rec_sequence (ss_records store ! i) = sequence"
    for host sequence i using w by blast
  have index: "ss_index store key =
      map_option (\<lambda>i. (canonical_envelope (ss_records store ! i), rec_ref (ss_records store ! i))) (ss_record_positions store key)" for key
    using w by blast
  have none: "ss_record_positions store (rec_host record, rec_sequence record) = None" using fresh index by simp
  have hr: "host_records (add_one store record) host =
      host_records store host @ (if rec_host record = host then [record] else [])" for host
    by (simp add: host_records_def add_one_def)
  show ?thesis unfolding store_wf_def
  proof (intro conjI allI)
    fix host
    show "ss_sequences_by_host (add_one store record) host = map rec_sequence (host_records (add_one store record) host)"
      by (simp add: hr seqs) (simp add: add_one_def seqs)
    show "sorted_wrt (<) (0 # ss_sequences_by_host (add_one store record) host)"
    proof (cases "host = rec_host record")
      case True
      have "sorted_wrt (<) (0 # ss_sequences_by_host store (rec_host record) @ [rec_sequence record])"
        by (rule sorted_wrt_last [OF sorted]) (use last later in simp)
      with True show ?thesis by (simp add: add_one_def)
    next
      case False
      with sorted [of host] show ?thesis by (simp add: add_one_def)
    qed
    show "ss_last_sequence_by_host (add_one store record) host = last (0 # ss_sequences_by_host (add_one store record) host)"
      using last [of host] by (simp add: add_one_def)
  next
    fix host sequence i
    show "ss_record_positions (add_one store record) (host, sequence) = Some i \<longleftrightarrow>
        i < length (ss_records (add_one store record)) \<and> rec_host (ss_records (add_one store record) ! i) = host \<and>
        rec_sequence (ss_records (add_one store record) ! i) = sequence"
    proof (cases "(host, sequence) = (rec_host record, rec_sequence record)")
      case True
      have "\<not> (i < length (ss_records store) \<and> rec_host (ss_records store ! i) = host \<and> rec_sequence (ss_records store ! i) = sequence)"
        using pos [of host sequence i] none True by simp
      with True show ?thesis by (auto simp: add_one_def nth_append less_Suc_eq)
    next
      case False
      then show ?thesis using pos [of host sequence i] by (auto simp: add_one_def nth_append less_Suc_eq)
    qed
  next
    fix key
    have "i < length (ss_records store)" if "ss_record_positions store key = Some i" for i
      using pos [of "fst key" "snd key" i] that by simp
    then show "ss_index (add_one store record) key =
        map_option (\<lambda>i. (canonical_envelope (ss_records (add_one store record) ! i), rec_ref (ss_records (add_one store record) ! i)))
          (ss_record_positions (add_one store record) key)"
      using index [of key] by (cases "ss_record_positions store key") (auto simp: add_one_def nth_append)
  qed
qed

lemma add_records_wf:
  assumes "store_wf store" and "add_records store records = (store', e)"
  shows "store_wf store' \<and> (\<exists>n. ss_records store' = ss_records store @ take n records \<and> (e = None \<longrightarrow> take n records = records))"
  using assms
proof (induction records arbitrary: store)
  case (Cons r rs)
  from Cons.prems(2) show ?case
  proof (cases rule: add_records_Cons)
    case stop
    with Cons.prems(1) show ?thesis by (auto intro: exI [of _ 0])
  next
    case add
    from Cons.IH [OF add_one_wf [OF Cons.prems(1) add(1,2)] add(3)] obtain n where
      n: "store_wf store'" "ss_records store' = ss_records (add_one store r) @ take n rs" "e = None \<longrightarrow> take n rs = rs" by blast
    have "ss_records (add_one store r) = ss_records store @ [r]" by (simp add: add_one_def)
    with n show ?thesis by (intro conjI exI [of _ "Suc n"]) simp_all
  qed
qed simp

lemma add_records_all:
  "store_wf store \<Longrightarrow> add_records store records = (store', None) \<Longrightarrow> store_wf store' \<and> ss_records store' = ss_records store @ records"
  using add_records_wf by fastforce

section \<open>Resolving references\<close>

lemma store_wf_positions:
  "store_wf store \<Longrightarrow> ss_record_positions store (host, sequence) = Some i \<longleftrightarrow>
    i < length (ss_records store) \<and> rec_host (ss_records store ! i) = host \<and> rec_sequence (ss_records store ! i) = sequence"
  unfolding store_wf_def by blast

lemma store_wf_index:
  "store_wf store \<Longrightarrow> ss_index store key =
    map_option (\<lambda>i. (canonical_envelope (ss_records store ! i), rec_ref (ss_records store ! i))) (ss_record_positions store key)"
  unfolding store_wf_def by blast

text \<open>The verifier has accepted exactly the references of the stored records of its host.\<close>

definition store_authenticated :: "SegmentStore \<Rightarrow> bool" where
  "store_authenticated store \<longleftrightarrow> store_wf store \<and>
    (\<forall>record\<in>set (host_records store (ss_host_id store)). ss_accepted store (rec_sequence record) = Some (rec_ref record))"

lemma resolve_Inr:
  assumes "store_wf store" and "resolve_authenticated_ref store ref = Inr r"
  shows "r \<in> set (host_records store (ss_host_id store))" and "rec_ref r = ref"
proof -
  let ?key = "(ss_host_id store, ref_source_sequence ref)"
  from assms(2) obtain i where i: "ss_record_positions store ?key = Some i" "r = ss_records store ! i" "rec_ref r = ref"
    by (auto simp: resolve_authenticated_ref_def result_simps Let_def split: option.splits if_splits)
  have "i < length (ss_records store) \<and> rec_host (ss_records store ! i) = ss_host_id store"
    using assms(1) i(1) unfolding store_wf_def by blast
  with i show "r \<in> set (host_records store (ss_host_id store))" "rec_ref r = ref" by (auto simp: host_records_def)
qed

lemma resolve_stored:
  assumes "store_authenticated store" and "require_authenticated_recovered store = Inr ()"
    and "r \<in> set (host_records store (ss_host_id store))"
  shows "resolve_authenticated_ref store (rec_ref r) = Inr r" and "ss_index store (ss_host_id store, rec_sequence r) = Some (canonical_envelope r, rec_ref r)"
proof -
  let ?key = "(ss_host_id store, rec_sequence r)"
  have wf: "store_wf store" using assms(1) by (simp add: store_authenticated_def)
  obtain i where i: "i < length (ss_records store)" "ss_records store ! i = r" "rec_host r = ss_host_id store"
    using assms(3) by (auto simp: host_records_def in_set_conv_nth)
  have p: "ss_record_positions store ?key = Some i" using wf i unfolding store_wf_def by blast
  have x: "ss_index store ?key = Some (canonical_envelope r, rec_ref r)"
    using store_wf_index [OF wf] p i(2) by simp
  then show "ss_index store ?key = Some (canonical_envelope r, rec_ref r)" .
  have a: "ss_accepted store (rec_sequence r) = Some (rec_ref r)" using assms(1,3) by (simp add: store_authenticated_def)
  show "resolve_authenticated_ref store (rec_ref r) = Inr r"
    using assms(2) p x a i(2) by (simp add: resolve_authenticated_ref_def rec_sequence_def Let_def)
qed

lemma host_sequences:
  assumes "store_wf store"
  shows "ss_sequences_by_host store host = map rec_sequence (host_records store host)"
    and "sorted_wrt (<) (map rec_sequence (host_records store host))" and "\<forall>r\<in>set (host_records store host). 0 < rec_sequence r"
proof -
  show s: "ss_sequences_by_host store host = map rec_sequence (host_records store host)"
    using assms unfolding store_wf_def by blast
  have "sorted_wrt (<) (0 # ss_sequences_by_host store host)" using assms unfolding store_wf_def by blast
  then show "sorted_wrt (<) (map rec_sequence (host_records store host))" "\<forall>r\<in>set (host_records store host). 0 < rec_sequence r"
    by (simp_all add: s)
qed

lemma bisect_right_records:
  assumes "store_wf store" and "host_records store host = xs @ ys"
    and "\<forall>x\<in>set xs. rec_sequence x \<le> a" and "\<forall>y\<in>set ys. a < rec_sequence y"
  shows "bisect_right (ss_sequences_by_host store host) a = length xs"
proof -
  have "sorted (map rec_sequence (host_records store host))" using host_sequences(2) [OF assms(1)] strict_sorted_iff by blast
  with bisect_right_split [of "map rec_sequence (host_records store host)" "map rec_sequence xs" "map rec_sequence ys" a] assms(2-4)
  show ?thesis by (simp add: host_sequences(1) [OF assms(1)])
qed

lemma iter_all:
  assumes "store_authenticated store" and "require_authenticated_recovered store = Inr ()"
  shows "iter_authenticated_records store 0 None = map Inr (host_records store (ss_host_id store))"
proof -
  have wf: "store_wf store" using assms(1) by (simp add: store_authenticated_def)
  have "bisect_right (ss_sequences_by_host store (ss_host_id store)) 0 = 0"
    using bisect_right_records [OF wf, of "ss_host_id store" "[]" _ 0] host_sequences(3) [OF wf] by simp
  then have "iter_authenticated_records store 0 None =
      map (resolve_sequence store) (map rec_sequence (host_records store (ss_host_id store)))"
    using assms(2) host_sequences(1) [OF wf] by (simp add: iter_authenticated_records_def)
  also have "\<dots> = map Inr (host_records store (ss_host_id store))"
    using resolve_stored [OF assms] by (simp add: resolve_sequence_def)
  finally show ?thesis .
qed

text \<open>
  The records a reducer with the given head has already seen: none before the first, and those up to
  the head's sequence otherwise.
\<close>

definition seen_through :: "EvidenceRef option \<Rightarrow> StoredEvidenceRecord list \<Rightarrow> bool" where
  "seen_through after xs \<longleftrightarrow> (case after of None \<Rightarrow> xs = [] | Some ref \<Rightarrow> xs \<noteq> [] \<and> rec_ref (last xs) = ref)"

lemma sorted_wrt_split_at:
  fixes f :: "'a \<Rightarrow> int"
  assumes "sorted_wrt (<) (map f l)" and "x \<in> set l"
  obtains xs ys where "l = xs @ x # ys" "\<forall>y\<in>set xs. f y \<le> f x" "\<forall>y\<in>set ys. f x < f y"
proof -
  obtain xs ys where l: "l = xs @ x # ys" using assms(2) by (meson split_list)
  show thesis by (rule that [OF l]) (use assms(1) l in \<open>auto simp: sorted_wrt_append order_less_imp_le\<close>)
qed

lemma same_exact_record_Inr:
  "same_exact_coverage_record a b = Inr True \<Longrightarrow>
    canonical_envelope a = canonical_envelope b \<and> priority a = priority b \<and> accepted_at a = accepted_at b \<and> rec_ref a = rec_ref b"
  by (auto simp: same_exact_coverage_record_def exact_coverage_record_key_def exact_coverage_ref_key_def result_simps Let_def
      split: sum.splits option.splits)

lemma resolve_next_Inr:
  assumes "store_wf store" and "resolve_next_coverage_record store owner lifecycle r after = Inr r'"
  shows "\<exists>xs ys. host_records store (ss_host_id store) = xs @ r' # ys \<and> seen_through after xs"
    and "rec_ref r' = rec_ref r" and "canonical_envelope r' = canonical_envelope r"
    and "Some owner = ss_coverage_state_owner store" and "require_authenticated_recovered store = Inr ()"
proof -
  let ?host = "ss_host_id store"
  let ?seqs = "ss_sequences_by_host store ?host"
  from assms(2) obtain pos ix where
    req: "require_authenticated_recovered store = Inr ()" and own: "Some owner = ss_coverage_state_owner store"
    and pos: "(case after of None \<Rightarrow> Inr 0
        | Some ref \<Rightarrow> rbind (resolve_authenticated_ref store ref) (\<lambda>_. Inr (bisect_right ?seqs (ref_source_sequence ref)))) = Inr pos"
      "pos < length ?seqs"
    and ix: "ss_index store (?host, ?seqs ! pos) = Some ix" and res: "resolve_authenticated_ref store (snd ix) = Inr r'"
    and same: "same_exact_coverage_record r' r = Inr True"
    unfolding resolve_next_coverage_record_def
    by (auto simp: result_simps or_raise_def Let_def split: option.splits if_splits)
  show "Some owner = ss_coverage_state_owner store" "require_authenticated_recovered store = Inr ()" by (fact own, fact req)
  show "rec_ref r' = rec_ref r" "canonical_envelope r' = canonical_envelope r" using same_exact_record_Inr [OF same] by simp_all
  note hs = host_sequences [OF assms(1), of ?host]
  let ?rs = "host_records store ?host"
  have plen: "pos < length ?rs" using pos(2) hs(1) by simp
  have at: "rec_sequence r' = rec_sequence (?rs ! pos)"
  proof -
    have "snd ix = rec_ref r'" using resolve_Inr [OF assms(1) res] by simp
    moreover obtain i where "ss_record_positions store (?host, ?seqs ! pos) = Some i" "snd ix = rec_ref (ss_records store ! i)"
      using ix store_wf_index [OF assms(1)] by auto
    moreover then have "rec_sequence (ss_records store ! i) = ?seqs ! pos" using store_wf_positions [OF assms(1)] by blast
    ultimately show ?thesis using plen hs(1) by (simp add: rec_sequence_def)
  qed
  have "r' = ?rs ! pos"
  proof -
    have "distinct (map rec_sequence ?rs)" using hs(2) strict_sorted_iff by blast
    then show ?thesis using at plen resolve_Inr(1) [OF assms(1) res] by (auto simp: distinct_map dest: inj_onD)
  qed
  then have split: "?rs = take pos ?rs @ r' # drop (Suc pos) ?rs" using plen by (simp add: id_take_nth_drop)
  have "seen_through after (take pos ?rs)"
  proof (cases after)
    case None
    with pos(1) show ?thesis by (simp add: seen_through_def)
  next
    case (Some ref)
    with pos(1) obtain h where h: "resolve_authenticated_ref store ref = Inr h" and p: "pos = bisect_right ?seqs (ref_source_sequence ref)"
      by (auto simp: result_simps)
    have hm: "h \<in> set ?rs" "rec_ref h = ref" using resolve_Inr [OF assms(1) h] by blast+
    obtain xs ys where l: "?rs = xs @ h # ys" "\<forall>y\<in>set xs. rec_sequence y \<le> rec_sequence h" "\<forall>y\<in>set ys. rec_sequence h < rec_sequence y"
      using sorted_wrt_split_at [OF hs(2) hm(1)] by metis
    have "pos = length (xs @ [h])"
      unfolding p by (rule bisect_right_records [OF assms(1)]) (use l hm(2) in \<open>auto simp: rec_sequence_def\<close>)
    then have "take pos ?rs = xs @ [h]" using l(1) by simp
    with Some hm(2) show ?thesis by (simp add: seen_through_def)
  qed
  with split show "\<exists>xs ys. ?rs = xs @ r' # ys \<and> seen_through after xs" by blast
qed

definition empty_store :: "str \<Rightarrow> (int \<Rightarrow> EvidenceRef option) \<Rightarrow> int \<Rightarrow> SegmentStore" where
  "empty_store host accepted last_sequence = \<lparr>ss_self = 1, ss_lifecycle_identity = 2, ss_closed = False, ss_ready = True, ss_host_id = host,
    ss_last_sequence = last_sequence, ss_accepted = accepted, ss_records = [], ss_index = (\<lambda>_. None),
    ss_record_positions = (\<lambda>_. None), ss_sequences_by_host = (\<lambda>_. []), ss_last_sequence_by_host = (\<lambda>_. 0),
    ss_coverage_state_owner = None\<rparr>"

lemma empty_store_wf: "store_wf (empty_store host accepted last_sequence)"
  by (simp add: store_wf_def empty_store_def host_records_def)

lemma add_records_keeps:
  assumes "add_records store records = (store', e)"
  shows "ss_host_id store' = ss_host_id store \<and> ss_accepted store' = ss_accepted store \<and>
    require_authenticated_recovered store' = require_authenticated_recovered store"
  using assms
proof (induction records arbitrary: store)
  case (Cons r rs)
  from Cons.prems show ?case
  proof (cases rule: add_records_Cons)
    case add
    from Cons.IH [OF add(3)] show ?thesis by (simp add: add_one_def require_authenticated_recovered_def)
  qed simp
qed simp

section \<open>Properties\<close>

text \<open>
  C24. Insert and look up: after records are added to a well-formed index whose verifier has accepted the
  references of its host, every record of that host resolves from its reference to itself, and the
  iteration yields exactly the host's records, old and new, in strictly increasing sequence.
\<close>

theorem stored_evidence_round_trip:
  assumes "store_wf store" and "add_records store records = (store', None)" and "require_authenticated_recovered store = Inr ()"
    and "\<forall>r\<in>set (ss_records store @ records). rec_host r = ss_host_id store \<longrightarrow> ss_accepted store (rec_sequence r) = Some (rec_ref r)"
  shows "store_wf store' \<and>
    (\<forall>r\<in>set records. rec_host r = ss_host_id store \<longrightarrow> resolve_authenticated_ref store' (rec_ref r) = Inr r) \<and>
    iter_authenticated_records store' 0 None = map Inr (filter (\<lambda>r. rec_host r = ss_host_id store) (ss_records store @ records)) \<and>
    sorted_wrt (<) (map rec_sequence (filter (\<lambda>r. rec_host r = ss_host_id store) (ss_records store @ records)))"
proof -
  note k = add_records_keeps [OF assms(2)]
  note w = add_records_all [OF assms(1,2)]
  have hr: "host_records store' (ss_host_id store') = filter (\<lambda>r. rec_host r = ss_host_id store) (ss_records store @ records)"
    using w k by (simp add: host_records_def)
  have a: "store_authenticated store'" unfolding store_authenticated_def hr using w k assms(4) by auto
  have r: "require_authenticated_recovered store' = Inr ()" using k assms(3) by simp
  have "\<forall>r\<in>set records. rec_host r = ss_host_id store \<longrightarrow> resolve_authenticated_ref store' (rec_ref r) = Inr r"
    using resolve_stored(1) [OF a r] hr by simp
  moreover have "sorted_wrt (<) (map rec_sequence (host_records store' (ss_host_id store')))" using host_sequences(2) w by blast
  ultimately show ?thesis using w iter_all [OF a r] hr by simp
qed

definition example_record :: "int \<Rightarrow> StoredEvidenceRecord" where
  "example_record n = \<lparr>rec_envelope = [(''host_id'', JStr ''host'')], canonical_envelope = [], priority = ROUTINE,
    accepted_at = ''2026-01-01T00:00:00Z'',
    rec_ref = \<lparr>segment_id = ''s'', segment_relative_path = ''p'', frame_offset = 0, frame_size = 100, frame_sha256 = [],
      ref_event_id = [], ref_source_sequence = n, content_sha256 = []\<rparr>\<rparr>"

theorem stored_evidence_round_trip_witness:
  "\<exists>store'. add_records (empty_store ''host'' (\<lambda>n. Some (rec_ref (example_record n))) 7) [example_record 3, example_record 7] = (store', None) \<and>
    resolve_authenticated_ref store' (rec_ref (example_record 7)) = Inr (example_record 7) \<and>
    iter_authenticated_records store' 0 None = [Inr (example_record 3), Inr (example_record 7)]"
proof -
  let ?store = "empty_store ''host'' (\<lambda>n. Some (rec_ref (example_record n))) 7"
  let ?rs = "[example_record 3, example_record 7]"
  have h: "rec_host (example_record n) = ''host''" "rec_sequence (example_record n) = n" for n
    by (simp_all add: example_record_def rec_host_def rec_sequence_def get_str_def doc_get_def)
  obtain store' where s: "add_records ?store ?rs = (store', None)" by (simp add: empty_store_def h Let_def)
  have "require_authenticated_recovered ?store = Inr ()" by (simp add: empty_store_def require_authenticated_recovered_def)
  from stored_evidence_round_trip [OF empty_store_wf s this] show ?thesis using s h by (simp add: empty_store_def)
qed

end
