(* ===== verification/CoverageState.thy ===== *)
theory CoverageState
  imports EvidenceStore Complex_Main "HOL-Library.Product_Lexorder"
begin

text \<open>
  The coverage reducer of \<open>core/agmind_immune/coverage/state.py\<close>: the frozen snapshot, the transition
  each prepared record makes, replay and live application, the fence a failed application leaves, and
  the readiness decision. Shown here: the snapshot invariant, that replay and live application agree
  up to the monotonic lease deadline, what a ready decision guarantees, and that failures fence.
\<close>

section \<open>Definitions\<close>

subsection \<open>Floating-point instants\<close>

text \<open>
  Monotonic readings are binary64 numbers. \<open>Fin m e\<close> is \<open>m * 2\<^sup>e\<close>; results are rounded to nearest,
  ties to even, with 53 significant bits and no exponent below \<open>-1074\<close>, and overflow to infinity.
\<close>

datatype pyfloat = Fin int int | PosInf | NegInf | NotANumber

fun bitlen :: "nat \<Rightarrow> nat" where
  "bitlen n = (if n = 0 then 0 else Suc (bitlen (n div 2)))"

declare bitlen.simps [simp del]

definition ratio_scaled :: "int \<Rightarrow> int \<Rightarrow> int \<Rightarrow> int \<times> int" where
  "ratio_scaled p q e = (if 0 \<le> e then (p, q * 2 ^ nat e) else (p * 2 ^ nat (- e), q))"

definition round_half_even :: "int \<Rightarrow> int \<Rightarrow> int" where
  "round_half_even n d =
    (let m = n div d; r = n mod d in
     if 2 * r < d \<or> (2 * r = d \<and> even m) then m else m + 1)"

text \<open>The number nearest to \<open>p / q\<close>, for \<open>p \<ge> 0\<close> and \<open>q > 0\<close>.\<close>

definition round_ratio :: "int \<Rightarrow> int \<Rightarrow> pyfloat" where
  "round_ratio p q =
    (if p = 0 then Fin 0 0
     else
       let e0 = int (bitlen (nat p)) - int (bitlen (nat q)) - 53;
           wide = (case ratio_scaled p q e0 of (n, d) \<Rightarrow> n \<ge> d * 2 ^ 53);
           e = max (- 1074) (if wide then e0 + 1 else e0);
           m = (case ratio_scaled p q e of (n, d) \<Rightarrow> round_half_even n d)
       in if 0 \<le> e \<and> m * 2 ^ nat e \<ge> 2 ^ 1024 then PosInf else Fin m e)"

definition fin_at :: "int \<Rightarrow> int \<Rightarrow> int \<Rightarrow> int" where
  "fin_at e m e1 = m * 2 ^ nat (e1 - e)"

text \<open>\<open>a + b\<close> for a nonnegative finite sum\<close>

fun float_add :: "pyfloat \<Rightarrow> pyfloat \<Rightarrow> pyfloat" where
  "float_add (Fin m1 e1) (Fin m2 e2) =
    (let e = min e1 e2; n = fin_at e m1 e1 + fin_at e m2 e2 in
     if 0 \<le> e then round_ratio (n * 2 ^ nat e) 1 else round_ratio n (2 ^ nat (- e)))"
| "float_add a b = (if a = NotANumber \<or> b = NotANumber then NotANumber else PosInf)"

fun float_le :: "pyfloat \<Rightarrow> pyfloat \<Rightarrow> bool" where
  "float_le NotANumber b \<longleftrightarrow> False"
| "float_le a NotANumber \<longleftrightarrow> False"
| "float_le NegInf b \<longleftrightarrow> True"
| "float_le a PosInf \<longleftrightarrow> True"
| "float_le PosInf b \<longleftrightarrow> False"
| "float_le a NegInf \<longleftrightarrow> False"
| "float_le (Fin m1 e1) (Fin m2 e2) \<longleftrightarrow> fin_at (min e1 e2) m1 e1 \<le> fin_at (min e1 e2) m2 e2"

definition float_finite_nonneg :: "pyfloat \<Rightarrow> bool" where
  "float_finite_nonneg x \<longleftrightarrow> (case x of Fin m e \<Rightarrow> 0 \<le> m | _ \<Rightarrow> False)"

text \<open>\<open>timedelta.total_seconds()\<close> of a nonnegative number of microseconds\<close>

definition total_seconds :: "int \<Rightarrow> pyfloat" where
  "total_seconds us = round_ratio us 1000000"

subsection \<open>The snapshot\<close>

record DockerOpenRow =
  do_source_sequence :: int
  do_opened_at :: str
  do_generation :: int

record DockerRecovery =
  dr_source_sequence :: int
  dr_opened_at :: str
  dr_closed_at :: str
  dr_generation :: int

record CriticalInterval =
  ci_scope_boot_id :: "str option"
  ci_component :: str
  ci_kind :: str
  ci_opened_at :: str
  ci_source_sequence :: int
  ci_latest_source_sequence :: int
  ci_reason_code :: str
  ci_dropped_count :: "int option"
  ci_normalized_fields_sha256 :: str
  ci_source_payload_hash :: str

record SequenceGap =
  sg_affected_start :: int
  sg_affected_end :: int
  sg_opened_at :: str
  sg_open_source_sequence :: int
  sg_baseline_recovery_generation :: int
  sg_close_source_sequence :: "int option"
  sg_close_recovery_generation :: "int option"
  sg_close_recovery_time :: "str option"

record FalcoLeaseRow =
  fl_source_sequence :: int
  fl_event_id :: str
  fl_opened_at :: str
  fl_ingest_time :: str

record CoverageSnapshot =
  host_id :: "str option"
  boot_id :: "str option"
  head_sequence :: int
  head_ref :: "EvidenceRef option"
  boot_transition_sequence :: "int option"
  observer_started :: bool
  docker_generation :: "int option"
  docker_opens :: "DockerOpenRow list"
  docker_recoveries :: "DockerRecovery list"
  open_critical_intervals :: "CriticalInterval list"
  sequence_gaps :: "SequenceGap list"
  falco_lease :: "FalcoLeaseRow option"
  live_lease_deadline :: "pyfloat option"
  latest_falco_stop_sequence :: "int option"

definition empty_snapshot :: CoverageSnapshot where
  "empty_snapshot = \<lparr>host_id = None, boot_id = None, head_sequence = 0, head_ref = None, boot_transition_sequence = None,
    observer_started = False, docker_generation = None, docker_opens = [], docker_recoveries = [],
    open_critical_intervals = [], sequence_gaps = [], falco_lease = None, live_lease_deadline = None,
    latest_falco_stop_sequence = None\<rparr>"

text \<open>The result of a transition.\<close>

type_synonym 'a coverage_result = "coverage_error + 'a"

definition conflict :: "bool \<Rightarrow> str \<Rightarrow> 'a coverage_result \<Rightarrow> 'a coverage_result" where
  "conflict bad message next = (if bad then Inl (CoverageConflict message) else next)"

definition invalid :: "bool \<Rightarrow> str \<Rightarrow> 'a coverage_result \<Rightarrow> 'a coverage_result" where
  "invalid bad message next = (if bad then Inl (CoverageValidationError message) else next)"

definition timestamp_us :: "str \<Rightarrow> int coverage_result" where
  "timestamp_us s = map_err (\<lambda>_. GrammarError ''timestamp'') (fromisoformat s)"

definition validate_receipt :: "pyfloat \<Rightarrow> pyfloat coverage_result" where
  "validate_receipt v = invalid (\<not> float_finite_nonneg v) ''live monotonic receipt is invalid'' (Inr v)"

definition apply_docker_open :: "CoverageSnapshot \<Rightarrow> DockerOpenRow \<Rightarrow> CoverageSnapshot coverage_result" where
  "apply_docker_open snapshot opened =
    conflict (list_ex (\<lambda>item. do_opened_at item = do_opened_at opened \<and> do_generation item = do_generation opened) (docker_opens snapshot))
      ''Docker reconcile open is duplicated''
      (Inr (snapshot\<lparr>docker_generation := None, docker_opens := docker_opens snapshot @ [opened]\<rparr>))"

text \<open>\<open>max((item.generation for item in docker_recoveries), default=0)\<close>\<close>

definition recovery_baseline :: "CoverageSnapshot \<Rightarrow> int" where
  "recovery_baseline snapshot =
    (case map dr_generation (docker_recoveries snapshot) of [] \<Rightarrow> 0 | g # gs \<Rightarrow> foldl max g gs)"

definition apply_docker_recovery :: "CoverageSnapshot \<Rightarrow> DockerRecovery \<Rightarrow> CoverageSnapshot coverage_result" where
  "apply_docker_recovery snapshot recovery =
    (case filter (\<lambda>item. do_opened_at item = dr_opened_at recovery \<and> do_generation item = dr_generation recovery \<and>
        do_source_sequence item < dr_source_sequence recovery) (docker_opens snapshot) of
       [matched] \<Rightarrow>
         conflict (dr_generation recovery \<le> recovery_baseline snapshot) ''Docker recovery generation did not advance''
         (let remaining = filter (\<lambda>item. item \<noteq> matched) (docker_opens snapshot) in
          Inr (snapshot\<lparr>docker_generation := (if remaining = [] then Some (dr_generation recovery) else None),
            docker_opens := remaining, docker_recoveries := docker_recoveries snapshot @ [recovery]\<rparr>))
     | _ \<Rightarrow> Inl (CoverageConflict ''Docker recovery has no one exact unmatched open''))"

definition apply_sequence_gap_open :: "CoverageSnapshot \<Rightarrow> EventEnvelope \<Rightarrow> CoverageEvent \<Rightarrow> CoverageSnapshot coverage_result" where
  "apply_sequence_gap_open snapshot envelope coverage =
    (case (cv_affected_start coverage, cv_affected_end coverage) of
       (Some start, Some end) \<Rightarrow>
         conflict (list_ex (\<lambda>historical. \<not> (end < sg_affected_start historical \<or> start > sg_affected_end historical)) (sequence_gaps snapshot))
           ''sequence-gap range duplicates or overlaps history''
           (Inr (snapshot\<lparr>sequence_gaps := sequence_gaps snapshot @
             [\<lparr>sg_affected_start = start, sg_affected_end = end, sg_opened_at = cv_opened_at coverage,
               sg_open_source_sequence = ev_source_sequence envelope,
               sg_baseline_recovery_generation = recovery_baseline snapshot, sg_close_source_sequence = None,
               sg_close_recovery_generation = None, sg_close_recovery_time = None\<rparr>]\<rparr>))
     | _ \<Rightarrow> Inl (CoverageValidationError ''sequence-gap range is absent''))"

definition gap_matches :: "CoverageEvent \<Rightarrow> SequenceGap \<Rightarrow> bool" where
  "gap_matches coverage item \<longleftrightarrow> Some (sg_affected_start item) = cv_affected_start coverage \<and>
    Some (sg_affected_end item) = cv_affected_end coverage \<and> sg_opened_at item = cv_opened_at coverage \<and>
    sg_close_source_sequence item = None"

definition apply_sequence_gap_close :: "CoverageSnapshot \<Rightarrow> EventEnvelope \<Rightarrow> CoverageEvent \<Rightarrow> CoverageSnapshot coverage_result" where
  "apply_sequence_gap_close snapshot envelope coverage =
    (case (filter (\<lambda>p. gap_matches coverage (snd p)) (enumerate 0 (sequence_gaps snapshot)),
        cv_reconcile_generation coverage, cv_closed_at coverage) of
       ([(position, opened)], Some generation, Some closed_at) \<Rightarrow>
         let recoveries = filter (\<lambda>recovery. sg_open_source_sequence opened < dr_source_sequence recovery \<and>
               dr_source_sequence recovery < ev_source_sequence envelope \<and>
               dr_generation recovery = generation \<and> dr_closed_at recovery = closed_at) (docker_recoveries snapshot)
         in
         conflict (length recoveries \<noteq> 1 \<or> generation \<le> sg_baseline_recovery_generation opened)
           ''sequence-gap close lacks one later baseline-advancing recovery''
         (rbind (timestamp_us closed_at) (\<lambda>closed_us.
          rbind (timestamp_us (sg_opened_at opened)) (\<lambda>opened_us.
            conflict (closed_us < opened_us) ''sequence-gap close lacks one later baseline-advancing recovery''
            (Inr (snapshot\<lparr>sequence_gaps := (sequence_gaps snapshot)[position := opened\<lparr>
              sg_close_source_sequence := Some (ev_source_sequence envelope),
              sg_close_recovery_generation := Some generation,
              sg_close_recovery_time := Some closed_at\<rparr>]\<rparr>)))))
     | _ \<Rightarrow> Inl (CoverageConflict ''sequence-gap close has no one exact open''))"

type_synonym interval_key = "str option \<times> str \<times> str \<times> str"

definition interval_key :: "CriticalInterval \<Rightarrow> interval_key" where
  "interval_key item = (ci_scope_boot_id item, ci_component item, ci_kind item, ci_opened_at item)"

text \<open>The update of an open interval by a further open record with the same key.\<close>

definition update_interval ::
    "EventEnvelope \<Rightarrow> CoverageEvent \<Rightarrow> CoverageClassification \<Rightarrow> CriticalInterval \<Rightarrow> CriticalInterval coverage_result" where
  "update_interval envelope coverage classification opened =
    (let prior_count = ci_dropped_count opened;
         next_count = cv_dropped_count coverage;
         updated = opened\<lparr>ci_latest_source_sequence := ev_source_sequence envelope, ci_reason_code := cv_reason_code coverage,
           ci_dropped_count := next_count, ci_normalized_fields_sha256 := ev_normalized_fields_sha256 envelope,
           ci_source_payload_hash := ev_source_payload_hash envelope\<rparr>;
         reasons = conflict (cl_scope classification \<noteq> Some ProcessScope \<and> cv_reason_code coverage \<noteq> ci_reason_code opened)
           ''generic critical opening reason changed'' (Inr updated)
     in
     if cl_counter_required classification then
       case (prior_count, next_count) of
         (Some prior, Some next) \<Rightarrow>
           conflict (next \<le> prior \<and> \<not> (prior = MAX_UINT64 \<and> next = MAX_UINT64)) ''generic critical counter did not advance'' reasons
       | _ \<Rightarrow> Inl (CoverageConflict ''generic critical counter disappeared'')
     else conflict (prior_count \<noteq> None \<or> next_count \<noteq> None) ''uncounted generic critical gained a counter'' reasons)"

definition apply_generic_critical ::
    "CoverageSnapshot \<Rightarrow> EventEnvelope \<Rightarrow> CoverageEvent \<Rightarrow> CoverageClassification \<Rightarrow> CoverageSnapshot coverage_result" where
  "apply_generic_critical snapshot envelope coverage classification =
    (let scope_boot_id = (if cl_scope classification = Some ProcessScope then Some (ev_boot_id envelope) else None);
         key = (scope_boot_id, cv_component coverage, cv_kind coverage, cv_opened_at coverage);
         intervals = open_critical_intervals snapshot;
         matching = filter (\<lambda>item. interval_key item = key) intervals
     in
     if cv_closed_at coverage = None then
       case matching of
         [] \<Rightarrow>
           Inr (snapshot\<lparr>open_critical_intervals := intervals @
             [\<lparr>ci_scope_boot_id = scope_boot_id, ci_component = cv_component coverage, ci_kind = cv_kind coverage,
               ci_opened_at = cv_opened_at coverage, ci_source_sequence = ev_source_sequence envelope,
               ci_latest_source_sequence = ev_source_sequence envelope, ci_reason_code = cv_reason_code coverage,
               ci_dropped_count = cv_dropped_count coverage,
               ci_normalized_fields_sha256 = ev_normalized_fields_sha256 envelope,
               ci_source_payload_hash = ev_source_payload_hash envelope\<rparr>]\<rparr>)
       | [opened] \<Rightarrow>
           if (ci_normalized_fields_sha256 opened, ci_source_payload_hash opened) =
              (ev_normalized_fields_sha256 envelope, ev_source_payload_hash envelope)
           then Inr snapshot
           else
             rbind (update_interval envelope coverage classification opened) (\<lambda>updated.
               Inr (snapshot\<lparr>open_critical_intervals := map (\<lambda>item. if interval_key item = key then updated else item) intervals\<rparr>))
       | _ \<Rightarrow> Inl (CoverageConflict ''generic critical interval is duplicated'')
     else
       case matching of
         [] \<Rightarrow> Inr snapshot
       | [opened] \<Rightarrow>
           let closed = Inr (snapshot\<lparr>open_critical_intervals := filter (\<lambda>item. interval_key item \<noteq> key) intervals\<rparr>) in
           if cl_counter_required classification then
             conflict (case (ci_dropped_count opened, cv_dropped_count coverage) of
                 (Some prior, Some next) \<Rightarrow> next < prior
               | _ \<Rightarrow> True) ''generic critical close lowered its counter'' closed
           else
             conflict (ci_dropped_count opened \<noteq> None \<or> cv_dropped_count coverage \<noteq> None)
               ''uncounted generic critical gained a counter'' closed
       | _ \<Rightarrow> Inl (CoverageConflict ''generic critical close is ambiguous''))"

abbreviation LEASE_WINDOW_US :: int where "LEASE_WINDOW_US \<equiv> 15 * 1000000"

definition apply_falco_lease ::
    "CoverageSnapshot \<Rightarrow> EventEnvelope \<Rightarrow> CoverageEvent \<Rightarrow> pyfloat option \<Rightarrow> CoverageSnapshot coverage_result" where
  "apply_falco_lease candidate envelope coverage receipt =
    rbind (timestamp_us (cv_opened_at coverage)) (\<lambda>opened.
    rbind (timestamp_us (ev_ingest_time envelope)) (\<lambda>ingest.
      let lease_age = ingest - opened in
      invalid (lease_age < 0 \<or> lease_age > LEASE_WINDOW_US) ''Falco lease ingest is outside its signed window''
      (rbind (case receipt of
           None \<Rightarrow> Inr None
         | Some v \<Rightarrow> rbind (validate_receipt v) (\<lambda>r. Inr (Some (float_add r (total_seconds (LEASE_WINDOW_US - lease_age)))))) (\<lambda>deadline.
        Inr (candidate\<lparr>falco_lease := Some \<lparr>fl_source_sequence = ev_source_sequence envelope, fl_event_id = ev_event_id envelope,
            fl_opened_at = cv_opened_at coverage, fl_ingest_time = ev_ingest_time envelope\<rparr>,
          live_lease_deadline := deadline\<rparr>)))))"

text \<open>What a change of boot clears before the record is applied.\<close>

definition change_boot :: "CoverageSnapshot \<Rightarrow> EventEnvelope \<Rightarrow> CoverageSnapshot" where
  "change_boot snapshot envelope =
    (if boot_id snapshot \<noteq> None \<and> boot_id snapshot \<noteq> Some (ev_boot_id envelope) then
       snapshot\<lparr>boot_transition_sequence := Some (ev_source_sequence envelope), observer_started := False,
         docker_generation := None,
         open_critical_intervals := filter (\<lambda>item. ci_scope_boot_id item = None) (open_critical_intervals snapshot),
         falco_lease := None, live_lease_deadline := None, latest_falco_stop_sequence := None\<rparr>
     else snapshot)"

definition apply_action ::
    "CoverageSnapshot \<Rightarrow> EventEnvelope \<Rightarrow> CoverageEvent option \<Rightarrow> CoverageClassification \<Rightarrow> pyfloat option \<Rightarrow>
      CoverageSnapshot coverage_result" where
  "apply_action candidate envelope coverage classification receipt =
    (case cl_action classification of
       BootBoundary \<Rightarrow>
         Inr (candidate\<lparr>boot_transition_sequence := Some (ev_source_sequence envelope), observer_started := False,
           docker_generation := None, falco_lease := None, live_lease_deadline := None\<rparr>)
     | ObserverStart \<Rightarrow>
         Inr (candidate\<lparr>observer_started := True, docker_generation := None, falco_lease := None, live_lease_deadline := None\<rparr>)
     | DockerOpen \<Rightarrow>
         (case coverage of
            None \<Rightarrow> Inl (CoverageValidationError ''classified Docker open lost exact fields'')
          | Some cv \<Rightarrow>
              (case cv_reconcile_generation cv of
                 None \<Rightarrow> Inl (CoverageValidationError ''classified Docker open lost exact fields'')
               | Some generation \<Rightarrow>
                   apply_docker_open candidate \<lparr>do_source_sequence = ev_source_sequence envelope,
                     do_opened_at = cv_opened_at cv, do_generation = generation\<rparr>))
     | DockerClose \<Rightarrow>
         (case coverage of
            None \<Rightarrow> Inl (CoverageValidationError ''classified Docker close lost exact fields'')
          | Some cv \<Rightarrow>
              (case (cv_reconcile_generation cv, cv_closed_at cv) of
                 (Some generation, Some closed_at) \<Rightarrow>
                   apply_docker_recovery candidate \<lparr>dr_source_sequence = ev_source_sequence envelope,
                     dr_opened_at = cv_opened_at cv, dr_closed_at = closed_at, dr_generation = generation\<rparr>
               | _ \<Rightarrow> Inl (CoverageValidationError ''classified Docker close lost exact fields'')))
     | SequenceOpen \<Rightarrow>
         (case coverage of
            None \<Rightarrow> Inl (CoverageValidationError ''classified sequence open lost exact fields'')
          | Some cv \<Rightarrow> apply_sequence_gap_open candidate envelope cv)
     | SequenceClose \<Rightarrow>
         (case coverage of
            None \<Rightarrow> Inl (CoverageValidationError ''classified sequence close lost exact fields'')
          | Some cv \<Rightarrow> apply_sequence_gap_close candidate envelope cv)
     | FalcoStop \<Rightarrow>
         Inr (candidate\<lparr>falco_lease := None, live_lease_deadline := None,
           latest_falco_stop_sequence := Some (ev_source_sequence envelope)\<rparr>)
     | FalcoLease \<Rightarrow>
         (case coverage of
            None \<Rightarrow> Inl (CoverageValidationError ''classified Falco lease lost exact fields'')
          | Some cv \<Rightarrow> apply_falco_lease candidate envelope cv receipt)
     | GenericOpen \<Rightarrow>
         (case coverage of
            None \<Rightarrow> Inl (CoverageValidationError ''classified critical interval lost exact fields'')
          | Some cv \<Rightarrow> apply_generic_critical candidate envelope cv classification)
     | GenericClose \<Rightarrow>
         (case coverage of
            None \<Rightarrow> Inl (CoverageValidationError ''classified critical interval lost exact fields'')
          | Some cv \<Rightarrow> apply_generic_critical candidate envelope cv classification)
     | _ \<Rightarrow> Inr candidate)"

definition transition ::
    "(bytes \<Rightarrow> bytes) \<Rightarrow> CoverageSnapshot \<Rightarrow> PreparedRecord \<Rightarrow> pyfloat option \<Rightarrow> bool \<Rightarrow> CoverageSnapshot coverage_result" where
  "transition H snapshot prepared receipt receipt_allowed =
    (let envelope = pr_envelope prepared in
     conflict (host_id snapshot \<noteq> None \<and> Some (ev_host_id envelope) \<noteq> host_id snapshot) ''coverage records span more than one host''
     (conflict (ev_source_sequence envelope \<le> head_sequence snapshot) ''coverage records are not in strict source order''
     (invalid (receipt \<noteq> None \<and> \<not> receipt_allowed) ''live monotonic receipt requires a bound live evidence apply''
     (rbind (classify_coverage_record H envelope (pr_coverage prepared)) (\<lambda>classification.
      invalid (receipt \<noteq> None \<and> cl_action classification \<noteq> FalcoLease) ''receipt is legal only on a Falco lease''
      (rbind (apply_action (change_boot snapshot envelope) envelope (pr_coverage prepared) classification receipt) (\<lambda>candidate.
        Inr (candidate\<lparr>host_id := Some (ev_host_id envelope), boot_id := Some (ev_boot_id envelope),
          head_sequence := ev_source_sequence envelope, head_ref := Some (rec_ref (pr_record prepared))\<rparr>))))))))"

subsection \<open>The reducer\<close>

text \<open>
  The attributes of \<open>CoverageState\<close>. Objects are numbers, as in the store; \<open>cr_evidence\<close> is the store
  the reducer is bound to.
\<close>

record CoverageReducer =
  cr_self :: nat
  cr_snapshot :: CoverageSnapshot
  cr_healthy :: bool
  cr_closed :: bool
  cr_evidence :: "nat option"
  cr_lifecycle_identity :: "nat option"
  cr_capability_token :: "nat option"

definition fresh_reducer :: "nat \<Rightarrow> CoverageReducer" where
  "fresh_reducer self = \<lparr>cr_self = self, cr_snapshot = empty_snapshot, cr_healthy = True, cr_closed = False,
    cr_evidence = None, cr_lifecycle_identity = None, cr_capability_token = None\<rparr>"

text \<open>The handlers: a coverage error passes, any other error becomes the given one.\<close>

fun as_coverage :: "str \<Rightarrow> coverage_error \<Rightarrow> coverage_error" where
  "as_coverage message (GrammarError _) = CoverageValidationError message"
| "as_coverage message e = e"

fun from_store :: "str \<Rightarrow> str \<Rightarrow> store_error \<Rightarrow> coverage_error" where
  "from_store authority message (StoreValueError _) = CoverageValidationError message"
| "from_store authority message StoreKeyError = CoverageUncaught"
| "from_store authority message _ = CoverageAuthorityError authority"

fun replay :: "(bytes \<Rightarrow> bytes) \<Rightarrow> CoverageSnapshot \<Rightarrow> StoredEvidenceRecord list \<Rightarrow> CoverageSnapshot coverage_result" where
  "replay H snapshot [] = Inr snapshot"
| "replay H snapshot (record # records) =
    rbind (prepare H record) (\<lambda>prepared.
    rbind (transition H snapshot prepared None False) (\<lambda>snapshot'. replay H snapshot' records))"

definition rebuild :: "(bytes \<Rightarrow> bytes) \<Rightarrow> nat \<Rightarrow> StoredEvidenceRecord list \<Rightarrow> CoverageReducer coverage_result" where
  "rebuild H self records =
    rbind (map_err (as_coverage ''coverage replay input is invalid'') (replay H empty_snapshot records)) (\<lambda>snapshot.
      Inr ((fresh_reducer self)\<lparr>cr_snapshot := snapshot\<rparr>))"

text \<open>The loop of \<open>open_and_recover\<close> over what the store's generator yields.\<close>

fun replay_results ::
    "(bytes \<Rightarrow> bytes) \<Rightarrow> CoverageSnapshot \<Rightarrow> (store_error + StoredEvidenceRecord) list \<Rightarrow> CoverageSnapshot coverage_result" where
  "replay_results H snapshot [] = Inr snapshot"
| "replay_results H snapshot (result # results) =
    rbind (map_err (from_store ''coverage recovery is outside authenticated evidence'' ''coverage recovery input is invalid'') result) (\<lambda>record.
    rbind (map_err (as_coverage ''coverage recovery input is invalid'')
        (rbind (prepare H record) (\<lambda>prepared. transition H snapshot prepared None False))) (\<lambda>snapshot'.
      replay_results H snapshot' results))"

text \<open>
  \<open>open_and_recover\<close> returns the reducer and leaves the store owned by it; on any failure after the
  acquisition the ownership is released. An error of that release would replace the first one, and it is
  no \<open>CoverageError\<close>.
\<close>

definition recover_bound ::
    "(bytes \<Rightarrow> bytes) \<Rightarrow> nat \<Rightarrow> nat \<Rightarrow> nat \<Rightarrow> SegmentStore \<Rightarrow> CoverageReducer coverage_result" where
  "recover_bound H self token lifecycle_identity store =
    rbind (replay_results H empty_snapshot (iter_authenticated_records store 0 None)) (\<lambda>snapshot.
    rbind (map_err (from_store ''coverage recovery is outside authenticated evidence'' ''coverage recovery input is invalid'')
        (validate_coverage_state_owner store self lifecycle_identity (head_ref snapshot))) (\<lambda>_.
      Inr ((fresh_reducer self)\<lparr>cr_snapshot := snapshot, cr_evidence := Some (ss_self store),
        cr_lifecycle_identity := Some lifecycle_identity, cr_capability_token := Some token\<rparr>)))"

definition open_and_recover ::
    "(bytes \<Rightarrow> bytes) \<Rightarrow> nat \<Rightarrow> nat \<Rightarrow> SegmentStore \<Rightarrow> CoverageReducer coverage_result \<times> SegmentStore" where
  "open_and_recover H self token store =
    (case acquire_coverage_state store self of
       Inl e \<Rightarrow> (Inl (from_store ''coverage recovery is outside authenticated evidence'' ''coverage recovery input is invalid'' e), store)
     | Inr (lifecycle_identity, owned) \<Rightarrow>
         (case recover_bound H self token lifecycle_identity owned of
            Inr reducer \<Rightarrow> (Inr reducer, owned)
          | Inl e \<Rightarrow>
              (case release_coverage_state owned self lifecycle_identity of
                 Inr released \<Rightarrow> (Inl e, released)
               | Inl _ \<Rightarrow> (Inl CoverageUncaught, owned))))"

definition require_usable :: "CoverageReducer \<Rightarrow> unit coverage_result" where
  "require_usable state =
    (if \<not> cr_healthy state then Inl (CoverageUnhealthy ''coverage reducer is unhealthy'')
     else if cr_closed state then Inl (CoverageAuthorityError ''coverage reducer is closed'')
     else Inr ())"

text \<open>The body of \<open>apply\<close> up to the candidate snapshot.\<close>

definition apply_candidate ::
    "(bytes \<Rightarrow> bytes) \<Rightarrow> CoverageReducer \<Rightarrow> SegmentStore \<Rightarrow> StoredEvidenceRecord \<Rightarrow> pyfloat option \<Rightarrow> CoverageSnapshot coverage_result" where
  "apply_candidate H state store record receipt =
    rbind (case cr_evidence state of
        None \<Rightarrow> Inr record
      | Some _ \<Rightarrow>
          (case cr_lifecycle_identity state of
             None \<Rightarrow> Inl (CoverageAuthorityError ''bound coverage state has no lifecycle token'')
           | Some lifecycle_identity \<Rightarrow>
               map_err (from_store ''coverage apply is not the next same-store real record'' ''coverage apply failed validation'')
                 (resolve_next_coverage_record store (cr_self state) lifecycle_identity record (head_ref (cr_snapshot state))))) (\<lambda>selected.
    rbind (prepare H selected) (\<lambda>prepared.
      transition H (cr_snapshot state) prepared receipt (cr_evidence state \<noteq> None)))"

text \<open>An operation that may raise after changing the reducer: the new reducer and the error, if any.\<close>

type_synonym reducer_result = "CoverageReducer \<times> coverage_error option"

definition finish_apply :: "str \<Rightarrow> CoverageReducer \<Rightarrow> CoverageSnapshot coverage_result \<Rightarrow> reducer_result" where
  "finish_apply message state result =
    (case result of
       Inr candidate \<Rightarrow> (state\<lparr>cr_snapshot := candidate\<rparr>, None)
     | Inl e \<Rightarrow> (state\<lparr>cr_healthy := False\<rparr>, Some (as_coverage message e)))"

definition apply_record ::
    "(bytes \<Rightarrow> bytes) \<Rightarrow> CoverageReducer \<Rightarrow> SegmentStore \<Rightarrow> StoredEvidenceRecord \<Rightarrow> pyfloat option \<Rightarrow> reducer_result" where
  "apply_record H state store record receipt =
    (case require_usable state of
       Inl e \<Rightarrow> (state, Some e)
     | Inr _ \<Rightarrow> finish_apply ''coverage apply failed validation'' state (apply_candidate H state store record receipt))"

definition live_candidate ::
    "(bytes \<Rightarrow> bytes) \<Rightarrow> CoverageReducer \<Rightarrow> SegmentStore \<Rightarrow> EvidenceRef \<Rightarrow> pyfloat option \<Rightarrow> CoverageSnapshot coverage_result" where
  "live_candidate H state store ref receipt =
    (if cr_evidence state \<noteq> Some (ss_self store) \<or> (case receipt of None \<Rightarrow> False | Some r \<Rightarrow> \<not> float_finite_nonneg r) then
       Inl (CoverageAuthorityError ''live coverage apply is outside its exact authority'')
     else
       case cr_lifecycle_identity state of
         None \<Rightarrow> Inl (CoverageAuthorityError ''bound coverage state has no lifecycle token'')
       | Some lifecycle_identity \<Rightarrow>
           rbind (map_err (from_store ''live coverage apply cannot resolve authenticated evidence'' ''live coverage apply failed validation'')
               (resolve_authenticated_ref store ref)) (\<lambda>record.
           rbind (map_err (from_store ''live coverage apply is not the next same-store real record'' ''live coverage apply failed validation'')
               (resolve_next_coverage_record store (cr_self state) lifecycle_identity record (head_ref (cr_snapshot state)))) (\<lambda>selected.
           rbind (prepare H selected) (\<lambda>prepared.
             let selected_receipt = (case pr_coverage prepared of
                   Some coverage \<Rightarrow> if cv_kind coverage = ''falco_heartbeat_lease'' then receipt else None
                 | None \<Rightarrow> None)
             in transition H (cr_snapshot state) prepared selected_receipt True))))"

definition apply_live_accepted ::
    "(bytes \<Rightarrow> bytes) \<Rightarrow> CoverageReducer \<Rightarrow> SegmentStore \<Rightarrow> EvidenceRef \<Rightarrow> pyfloat option \<Rightarrow> reducer_result" where
  "apply_live_accepted H state store ref receipt =
    (case require_usable state of
       Inl e \<Rightarrow> (state, Some e)
     | Inr _ \<Rightarrow> finish_apply ''live coverage apply failed validation'' state (live_candidate H state store ref receipt))"

text \<open>The acknowledgement barrier: a capability for one reducer, store, lifecycle and token.\<close>

record CoverageAckBarrier =
  cb_evidence :: nat
  cb_lifecycle_identity :: nat
  cb_capability_token :: nat

definition ack_barrier_capability :: "CoverageReducer \<Rightarrow> SegmentStore \<Rightarrow> CoverageAckBarrier coverage_result" where
  "ack_barrier_capability state store =
    rbind (require_usable state) (\<lambda>_.
      case (cr_evidence state, cr_lifecycle_identity state, cr_capability_token state) of
        (Some evidence, Some lifecycle_identity, Some token) \<Rightarrow>
          rbind (map_err (from_store ''coverage barrier issuance failed same-store validation'' ''ValueError'')
              (validate_coverage_state_owner store (cr_self state) lifecycle_identity (head_ref (cr_snapshot state)))) (\<lambda>_.
            Inr \<lparr>cb_evidence = evidence, cb_lifecycle_identity = lifecycle_identity, cb_capability_token = token\<rparr>)
      | _ \<Rightarrow> Inl (CoverageAuthorityError ''unbound coverage state cannot issue an ACK barrier''))"

definition first_open_gap :: "CoverageSnapshot \<Rightarrow> int option" where
  "first_open_gap snapshot =
    (case map sg_open_source_sequence (filter (\<lambda>item. sg_close_source_sequence item = None) (sequence_gaps snapshot)) of
       [] \<Rightarrow> None
     | s # ss \<Rightarrow> Some (foldl min s ss))"

definition first_unclosed_sequence_gap :: "CoverageReducer \<Rightarrow> SegmentStore \<Rightarrow> CoverageAckBarrier \<Rightarrow> int option coverage_result" where
  "first_unclosed_sequence_gap state store barrier =
    (if \<not> cr_healthy state then Inl (CoverageUnhealthy ''coverage reducer is unhealthy'')
     else if cr_closed state \<or> Some (ss_self store) \<noteq> cr_evidence state \<or>
        Some (cb_lifecycle_identity barrier) \<noteq> cr_lifecycle_identity state \<or>
        Some (cb_capability_token barrier) \<noteq> cr_capability_token state
     then Inl (CoverageAuthorityError ''coverage ACK barrier is stale or foreign'')
     else
       rbind (map_err (from_store ''coverage ACK barrier failed same-store head validation'' ''ValueError'')
           (validate_coverage_state_owner store (cr_self state) (cb_lifecycle_identity barrier) (head_ref (cr_snapshot state)))) (\<lambda>_.
         Inr (first_open_gap (cr_snapshot state))))"

definition invalidate :: "CoverageReducer \<Rightarrow> CoverageReducer" where
  "invalidate state = state\<lparr>cr_closed := True, cr_capability_token := None, cr_evidence := None, cr_lifecycle_identity := None\<rparr>"

text \<open>\<open>close\<close>: the release may fail, but the reducer is invalidated in either case.\<close>

definition close_reducer :: "CoverageReducer \<Rightarrow> SegmentStore \<Rightarrow> reducer_result \<times> SegmentStore" where
  "close_reducer state store =
    (if cr_closed state then ((state, None), store)
     else
       case (cr_evidence state, cr_lifecycle_identity state) of
         (Some _, Some lifecycle_identity) \<Rightarrow>
           (case release_coverage_state store (cr_self state) lifecycle_identity of
              Inr released \<Rightarrow> ((invalidate state, None), released)
            | Inl _ \<Rightarrow> ((invalidate state, Some (CoverageAuthorityError ''coverage owner release failed'')), store))
       | _ \<Rightarrow> ((invalidate state, None), store))"

text \<open>\<open>_close_from_segment_store\<close>: an error leaves the reducer as it is.\<close>

definition close_from_segment_store :: "CoverageReducer \<Rightarrow> SegmentStore \<Rightarrow> nat \<Rightarrow> reducer_result \<times> SegmentStore" where
  "close_from_segment_store state store lifecycle_identity =
    (if cr_closed state then ((state, None), store)
     else if cr_evidence state = None \<or> Some lifecycle_identity \<noteq> cr_lifecycle_identity state then
       ((state, Some (CoverageAuthorityError ''coverage store-close callback has the wrong lifecycle'')), store)
     else
       case release_coverage_state store (cr_self state) lifecycle_identity of
         Inr released \<Rightarrow> ((invalidate state, None), released)
       | Inl _ \<Rightarrow> ((state, Some CoverageUncaught), store))"

subsection \<open>Mutation readiness\<close>

text \<open>
  Wall-clock instants are microseconds since the epoch in UTC, and \<open>Decimal\<close> numbers are rationals;
  that the context holds an aware UTC \<open>datetime\<close> and finite numbers is in the types.
\<close>

record MutationReadinessContext =
  decision_utc :: int
  decision_monotonic :: pyfloat
  clock_healthy :: bool
  clock_uncertainty_seconds :: "rat option"
  max_clock_uncertainty_seconds :: rat
  evidence_head :: int
  acceptance_cursor :: int
  confirmed_through :: int
  projection_cursor :: int
  evidence_healthy :: bool
  repair_pending :: bool
  retention_pending :: bool
  key_healthy :: bool
  ack_journal_healthy :: bool
  projection_healthy :: bool

definition uint64 :: "int \<Rightarrow> bool" where
  "uint64 n \<longleftrightarrow> 0 \<le> n \<and> n \<le> MAX_UINT64"

definition validate_mutation_readiness_context :: "MutationReadinessContext \<Rightarrow> unit coverage_result" where
  "validate_mutation_readiness_context context =
    invalid (\<not> float_finite_nonneg (decision_monotonic context)) ''decision monotonic is invalid''
    (invalid (case clock_uncertainty_seconds context of None \<Rightarrow> False | Some u \<Rightarrow> u < 0) ''clock uncertainty is invalid''
    (invalid (max_clock_uncertainty_seconds context < 0) ''maximum clock uncertainty is invalid''
    (invalid (\<not> (uint64 (evidence_head context) \<and> uint64 (acceptance_cursor context) \<and> uint64 (confirmed_through context) \<and>
        uint64 (projection_cursor context))) ''readiness cursor is not exact uint64'' (Inr ()))))"

record MutationReadiness =
  rd_ready :: bool
  rd_reason_codes :: "str list"
  rd_evidence_head :: int
  rd_acceptance_cursor :: int
  rd_confirmed_through :: int
  rd_projection_cursor :: int
  rd_observer_reconcile_generation :: "int option"
  rd_coverage_snapshot_sha256 :: str

record lease_facts =
  lf_after_stop :: bool
  lf_ingest_valid :: bool
  lf_wall_valid :: bool
  lf_monotonic_valid :: bool
  lf_stale :: bool

definition lease_checks :: "CoverageSnapshot \<Rightarrow> MutationReadinessContext \<Rightarrow> FalcoLeaseRow \<Rightarrow> lease_facts coverage_result" where
  "lease_checks snapshot context lease =
    rbind (timestamp_us (fl_opened_at lease)) (\<lambda>opened_at.
    rbind (timestamp_us (fl_ingest_time lease)) (\<lambda>ingest_time.
      let ingest_age = ingest_time - opened_at;
          decision_age = decision_utc context - opened_at;
          deadline = live_lease_deadline snapshot
      in Inr \<lparr>
        lf_after_stop = (case latest_falco_stop_sequence snapshot of None \<Rightarrow> True | Some stop \<Rightarrow> fl_source_sequence lease > stop),
        lf_ingest_valid = (opened_at \<le> ingest_time \<and> ingest_time \<le> decision_utc context \<and> 0 \<le> ingest_age \<and> ingest_age \<le> LEASE_WINDOW_US),
        lf_wall_valid = (0 \<le> decision_age \<and> decision_age \<le> LEASE_WINDOW_US),
        lf_monotonic_valid = (case deadline of None \<Rightarrow> False | Some d \<Rightarrow> float_le (decision_monotonic context) d),
        lf_stale = (decision_age > LEASE_WINDOW_US \<or>
          (case deadline of None \<Rightarrow> False | Some d \<Rightarrow> \<not> float_le (decision_monotonic context) d))\<rparr>))"

definition add_if :: "bool \<Rightarrow> str \<Rightarrow> str list \<Rightarrow> str list" where
  "add_if b reason reasons = (if b then reason # reasons else reasons)"

text \<open>The set of reasons; \<open>facts\<close> is the lease's, if there is one.\<close>

definition readiness_reasons :: "CoverageReducer \<Rightarrow> MutationReadinessContext \<Rightarrow> lease_facts option \<Rightarrow> str list" where
  "readiness_reasons state context facts =
    (let snapshot = cr_snapshot state;
         uncertainty = clock_uncertainty_seconds context
     in
     add_if (\<not> ack_journal_healthy context) ''ack_journal_unhealthy''
     (add_if (case uncertainty of None \<Rightarrow> False | Some u \<Rightarrow> u > max_clock_uncertainty_seconds context) ''clock_uncertainty_exceeded''
     (add_if (\<not> clock_healthy context \<or> uncertainty = None) ''clock_unhealthy''
     (add_if (\<not> (cr_healthy state \<and> \<not> cr_closed state \<and> head_sequence snapshot = evidence_head context)) ''coverage_reducer_unhealthy''
     (add_if (open_critical_intervals snapshot \<noteq> []) ''critical_coverage_open''
     (add_if (acceptance_cursor context \<noteq> confirmed_through context) ''cursor_acceptance_confirmed_mismatch''
     (add_if (confirmed_through context \<noteq> projection_cursor context) ''cursor_confirmed_projection_mismatch''
     (add_if (evidence_head context \<noteq> acceptance_cursor context) ''cursor_evidence_acceptance_mismatch''
     (add_if (boot_transition_sequence snapshot = None \<or> docker_generation snapshot = None \<or> docker_opens snapshot \<noteq> []) ''docker_reconcile_missing''
     (add_if (\<not> evidence_healthy context) ''evidence_unhealthy''
     (add_if (repair_pending context) ''repair_pending''
     (add_if (retention_pending context) ''retention_pending''
     (add_if (\<not> key_healthy context) ''key_unhealthy''
     (add_if (boot_transition_sequence snapshot = None \<or> \<not> observer_started snapshot) ''observer_start_missing''
     (add_if (\<not> projection_healthy context) ''projection_unhealthy''
     (add_if (list_ex (\<lambda>gap. sg_close_source_sequence gap = None) (sequence_gaps snapshot)) ''structural_gap_open''
     (add_if (case facts of None \<Rightarrow> False | Some f \<Rightarrow> \<not> lf_ingest_valid f) ''falco_lease_ingest_invalid''
     (add_if (case facts of None \<Rightarrow> False | Some f \<Rightarrow> lf_stale f) ''falco_lease_stale''
     (add_if (case facts of None \<Rightarrow> True | Some f \<Rightarrow> live_lease_deadline snapshot = None \<or> \<not> lf_after_stop f) ''falco_lease_missing'' [])))))))))))))))))))"

text \<open>\<open>isoformat(timespec="microseconds")\<close> with the suffixes replaced\<close>

definition canonical_decision_utc :: "int \<Rightarrow> str" where
  "canonical_decision_utc us =
    (let seconds = us div 1000000; microsecond = us mod 1000000; days = seconds div 86400; second_of_day = seconds mod 86400 in
     case fromordinal (days + UNIX_EPOCH_ORDINAL) of (year, month, day) \<Rightarrow>
       zero_padded 4 year @ ''-'' @ zero_padded 2 month @ ''-'' @ zero_padded 2 day @ ''T'' @
       zero_padded 2 (second_of_day div 3600) @ '':'' @ zero_padded 2 (second_of_day mod 3600 div 60) @ '':'' @
       zero_padded 2 (second_of_day mod 60) @
       (if microsecond = 0 then [] else ''.'' @ zero_padded 6 microsecond) @ ''Z'')"

definition json_opt :: "('a \<Rightarrow> json) \<Rightarrow> 'a option \<Rightarrow> json" where
  "json_opt f v = (case v of None \<Rightarrow> JNull | Some x \<Rightarrow> f x)"

text \<open>
  The rows of the open intervals with their sort keys. The row is a function of the key, so Python
  never compares two rows by order: equal keys have equal rows.
\<close>

type_synonym row_key = "str \<times> str \<times> str \<times> str \<times> int \<times> int"

definition docker_row_key :: "DockerOpenRow \<Rightarrow> row_key" where
  "docker_row_key item =
    (''docker'', ''observer'', ''docker_reconcile_gap'', do_opened_at item, do_source_sequence item, do_generation item)"

definition critical_row_key :: "CriticalInterval \<Rightarrow> row_key" where
  "critical_row_key item =
    (''generic'', ci_component item, ci_kind item, ci_opened_at item, ci_source_sequence item, 0)"

definition interval_row :: "row_key \<Rightarrow> json" where
  "interval_row key = (case key of (row_class, component, kind, opened_at, sequence, generation) \<Rightarrow>
    JObj [(''interval_class'', JStr row_class), (''component'', JStr component), (''kind'', JStr kind),
      (''opened_at'', JStr opened_at), (''source_sequence'', JInt sequence),
      (''reconcile_generation'', if row_class = ''docker'' then JInt generation else JNull)])"

definition gap_key :: "SequenceGap \<Rightarrow> int \<times> int \<times> str \<times> int" where
  "gap_key gap = (sg_affected_start gap, sg_affected_end gap, sg_opened_at gap, sg_open_source_sequence gap)"

definition gap_row :: "SequenceGap \<Rightarrow> json" where
  "gap_row item =
    JObj [(''affected_source_sequence_start'', JInt (sg_affected_start item)),
      (''affected_source_sequence_end'', JInt (sg_affected_end item)), (''opened_at'', JStr (sg_opened_at item)),
      (''open_source_sequence'', JInt (sg_open_source_sequence item)),
      (''baseline_recovery_generation'', JInt (sg_baseline_recovery_generation item))]"

definition lease_row :: "FalcoLeaseRow \<Rightarrow> bool \<Rightarrow> json" where
  "lease_row lease usable =
    JObj [(''source_sequence'', JInt (fl_source_sequence lease)), (''event_id'', JStr (fl_event_id lease)),
      (''opened_at'', JStr (fl_opened_at lease)), (''ingest_time'', JStr (fl_ingest_time lease)), (''live_usable'', JBool usable)]"

definition lease_usable :: "CoverageSnapshot \<Rightarrow> lease_facts \<Rightarrow> bool" where
  "lease_usable snapshot f \<longleftrightarrow> live_lease_deadline snapshot \<noteq> None \<and> lf_after_stop f \<and> lf_ingest_valid f \<and> lf_wall_valid f \<and>
    lf_monotonic_valid f"

definition coverage_payload ::
    "CoverageReducer \<Rightarrow> MutationReadinessContext \<Rightarrow> lease_facts option \<Rightarrow> str list \<Rightarrow> json" where
  "coverage_payload state context facts reason_codes =
    (let snapshot = cr_snapshot state; uncertainty = clock_uncertainty_seconds context in
     JObj [(''schema_version'', JStr ''agmind.coverage-snapshot.v1''),
       (''decision_utc'', JStr (canonical_decision_utc (decision_utc context))),
       (''ready'', JBool (reason_codes = [])),
       (''reason_codes'', JArr (map JStr reason_codes)),
       (''cursors'', JObj [(''evidence_head'', JInt (evidence_head context)), (''acceptance_cursor'', JInt (acceptance_cursor context)),
         (''confirmed_through'', JInt (confirmed_through context)), (''projection_cursor'', JInt (projection_cursor context))]),
       (''health_bits'', JObj [(''ack_journal_healthy'', JBool (ack_journal_healthy context)),
         (''clock_healthy'', JBool (clock_healthy context)),
         (''clock_uncertainty_present'', JBool (uncertainty \<noteq> None)),
         (''clock_uncertainty_within_limit'',
           JBool (case uncertainty of None \<Rightarrow> False | Some u \<Rightarrow> u \<le> max_clock_uncertainty_seconds context)),
         (''coverage_reducer_healthy'',
           JBool (cr_healthy state \<and> \<not> cr_closed state \<and> head_sequence snapshot = evidence_head context)),
         (''evidence_healthy'', JBool (evidence_healthy context)), (''key_healthy'', JBool (key_healthy context)),
         (''projection_healthy'', JBool (projection_healthy context))]),
       (''boot_epoch'', JObj [(''host_id'', json_opt JStr (host_id snapshot)),
         (''transition_source_sequence'', json_opt JInt (boot_transition_sequence snapshot))]),
       (''observer_started'', JBool (observer_started snapshot)),
       (''docker_generation'', json_opt JInt (docker_generation snapshot)),
       (''open_critical_intervals'', JArr (map interval_row
         (sort (map docker_row_key (docker_opens snapshot) @ map critical_row_key (open_critical_intervals snapshot))))),
       (''open_sequence_gaps'', JArr (map gap_row
         (sort_key gap_key (filter (\<lambda>gap. sg_close_source_sequence gap = None) (sequence_gaps snapshot))))),
       (''lease_logical_identity'',
         (case (falco_lease snapshot, facts) of
            (Some lease, Some f) \<Rightarrow> lease_row lease (lease_usable snapshot f)
          | _ \<Rightarrow> JNull))])"

definition mutation_readiness ::
    "(bytes \<Rightarrow> bytes) \<Rightarrow> CoverageReducer \<Rightarrow> MutationReadinessContext \<Rightarrow> MutationReadiness coverage_result" where
  "mutation_readiness H state context =
    rbind (validate_mutation_readiness_context context) (\<lambda>_.
    rbind (case falco_lease (cr_snapshot state) of
        None \<Rightarrow> Inr None
      | Some lease \<Rightarrow> rbind (lease_checks (cr_snapshot state) context lease) (\<lambda>f. Inr (Some f))) (\<lambda>facts.
      let reason_codes = sort (readiness_reasons state context facts) in
      rbind (map_err (\<lambda>_. GrammarError ''canonical JSON'') (canonical_json (coverage_payload state context facts reason_codes))) (\<lambda>raw.
        Inr \<lparr>rd_ready = (reason_codes = []), rd_reason_codes = reason_codes, rd_evidence_head = evidence_head context,
          rd_acceptance_cursor = acceptance_cursor context, rd_confirmed_through = confirmed_through context,
          rd_projection_cursor = projection_cursor context,
          rd_observer_reconcile_generation = docker_generation (cr_snapshot state),
          rd_coverage_snapshot_sha256 = hexdigest H (''AGMIND_COVERAGE_SNAPSHOT_V1'' @ nul # raw)\<rparr>)))"

end
