(* ===== verification/CoverageProps.thy ===== *)
theory CoverageProps
  imports CoverageState
begin

text \<open>
  What the coverage reducer guarantees: the snapshot invariant and that every transition keeps it, that
  live application and replay agree, what a ready decision means, and that a failed application fences
  the reducer.
\<close>

section \<open>The snapshot invariant\<close>

lemma conflict_Inr [result_simps]: "conflict bad m next = Inr x \<longleftrightarrow> \<not> bad \<and> next = Inr x"
  by (simp add: conflict_def)

lemma invalid_Inr [result_simps]: "invalid bad m next = Inr x \<longleftrightarrow> \<not> bad \<and> next = Inr x"
  by (simp add: invalid_def)

text \<open>
  Docker reconciliation up to sequence \<open>n\<close>: open rows are in source order with distinct keys, recovery
  generations and sequences increase, and a current generation means that nothing is open and that it is
  the latest recovery's.
\<close>

definition docker_inv :: "int \<Rightarrow> CoverageSnapshot \<Rightarrow> bool" where
  "docker_inv n s \<longleftrightarrow>
    sorted_wrt (<) (map do_source_sequence (docker_opens s) @ [n + 1]) \<and>
    distinct (map (\<lambda>item. (do_opened_at item, do_generation item)) (docker_opens s)) \<and>
    sorted_wrt (<) (0 # map dr_generation (docker_recoveries s)) \<and>
    sorted_wrt (<) (map dr_source_sequence (docker_recoveries s) @ [n + 1]) \<and>
    (\<forall>g. docker_generation s = Some g \<longrightarrow>
      docker_opens s = [] \<and> docker_recoveries s \<noteq> [] \<and> g = dr_generation (last (docker_recoveries s)))"

text \<open>
  Sequence gaps: ranges are disjoint, opens are in source order, and a closed gap was closed after a
  recorded recovery that came after the open and advanced the generation past the gap's baseline.
\<close>

definition gap_justified :: "int \<Rightarrow> CoverageSnapshot \<Rightarrow> SequenceGap \<Rightarrow> bool" where
  "gap_justified n s gap \<longleftrightarrow> (case sg_close_source_sequence gap of
     None \<Rightarrow> True
   | Some c \<Rightarrow> c \<le> n \<and> (\<exists>r\<in>set (docker_recoveries s). sg_open_source_sequence gap < dr_source_sequence r \<and> dr_source_sequence r < c \<and>
       sg_baseline_recovery_generation gap < dr_generation r \<and>
       sg_close_recovery_generation gap = Some (dr_generation r) \<and> sg_close_recovery_time gap = Some (dr_closed_at r)))"

definition gaps_disjoint :: "SequenceGap \<Rightarrow> SequenceGap \<Rightarrow> bool" where
  "gaps_disjoint a b \<longleftrightarrow> sg_affected_end b < sg_affected_start a \<or> sg_affected_end a < sg_affected_start b"

definition gap_inv :: "int \<Rightarrow> CoverageSnapshot \<Rightarrow> bool" where
  "gap_inv n s \<longleftrightarrow> sorted_wrt gaps_disjoint (sequence_gaps s) \<and>
    sorted_wrt (<) (map sg_open_source_sequence (sequence_gaps s) @ [n + 1]) \<and> (\<forall>gap\<in>set (sequence_gaps s). gap_justified n s gap)"

text \<open>
  Critical intervals: distinct keys, in source order, of the host or the current boot, and updated no
  later than the head.
\<close>

definition interval_inv :: "int \<Rightarrow> str option \<Rightarrow> CoverageSnapshot \<Rightarrow> bool" where
  "interval_inv n boot s \<longleftrightarrow> distinct (map interval_key (open_critical_intervals s)) \<and>
    sorted_wrt (<) (map ci_source_sequence (open_critical_intervals s) @ [n + 1]) \<and>
    (\<forall>i\<in>set (open_critical_intervals s). ci_scope_boot_id i \<in> {None, boot} \<and>
      ci_source_sequence i \<le> ci_latest_source_sequence i \<and> ci_latest_source_sequence i \<le> n)"

text \<open>
  The lease: a deadline belongs to a lease, a lease is later than the last stop of its boot and was
  taken in within its window.
\<close>

definition lease_inv :: "int \<Rightarrow> CoverageSnapshot \<Rightarrow> bool" where
  "lease_inv n s \<longleftrightarrow> (live_lease_deadline s \<noteq> None \<longrightarrow> falco_lease s \<noteq> None) \<and>
    (\<forall>k. latest_falco_stop_sequence s = Some k \<longrightarrow> k \<le> n) \<and>
    (\<forall>l. falco_lease s = Some l \<longrightarrow> fl_source_sequence l \<le> n \<and>
      (\<forall>k. latest_falco_stop_sequence s = Some k \<longrightarrow> k < fl_source_sequence l) \<and>
      (\<exists>a b. fromisoformat (fl_opened_at l) = Inr a \<and> fromisoformat (fl_ingest_time l) = Inr b \<and> a \<le> b \<and> b - a \<le> LEASE_WINDOW_US))"

definition inv_upto :: "int \<Rightarrow> str option \<Rightarrow> CoverageSnapshot \<Rightarrow> bool" where
  "inv_upto n boot s \<longleftrightarrow> docker_inv n s \<and> gap_inv n s \<and> interval_inv n boot s \<and> lease_inv n s"

definition coverage_inv :: "CoverageSnapshot \<Rightarrow> bool" where
  "coverage_inv s \<longleftrightarrow> 0 \<le> head_sequence s \<and> (\<forall>k. boot_transition_sequence s = Some k \<longrightarrow> k \<le> head_sequence s) \<and>
    inv_upto (head_sequence s) (boot_id s) s"

lemmas inv_defs = inv_upto_def docker_inv_def gap_inv_def interval_inv_def lease_inv_def

lemma sorted_upto_mono: "sorted_wrt (<) (xs @ [n + 1]) \<Longrightarrow> n \<le> m \<Longrightarrow> sorted_wrt (<) (xs @ [m + 1 :: int])"
  by (fastforce simp: sorted_wrt_append)

lemma sorted_upto_snoc: "sorted_wrt (<) (xs @ [n + 1]) \<Longrightarrow> n < m \<Longrightarrow> sorted_wrt (<) (xs @ [m, m + 1 :: int])"
  by (fastforce simp: sorted_wrt_append)

lemma gap_justified_mono: "gap_justified n s gap \<Longrightarrow> n \<le> m \<Longrightarrow> gap_justified m s gap"
  by (fastforce simp: gap_justified_def split: option.splits)

lemma inv_mono:
  assumes "inv_upto n boot s" and "n \<le> m"
  shows "inv_upto m boot s"
  using assms sorted_upto_mono [OF _ assms(2)] gap_justified_mono [OF _ assms(2)] unfolding inv_defs by fastforce

lemma empty_inv: "coverage_inv empty_snapshot"
  by (simp add: coverage_inv_def empty_snapshot_def inv_defs)

lemma sorted_upto_filter:
  "sorted_wrt (<) (map f xs @ [n :: int]) \<Longrightarrow> sorted_wrt (<) (map f (filter P xs) @ [n])"
  by (auto simp: sorted_wrt_append sorted_wrt_map intro: sorted_wrt_filter)

text \<open>Operations that touch only one part of the snapshot keep the invariants of the others.\<close>

lemma docker_inv_cong:
  "docker_opens s' = docker_opens s \<Longrightarrow> docker_recoveries s' = docker_recoveries s \<Longrightarrow>
    docker_generation s' = docker_generation s \<or> docker_generation s' = None \<Longrightarrow> docker_inv n s \<Longrightarrow> docker_inv n s'"
  by (auto simp: docker_inv_def)

lemma gap_inv_cong:
  "sequence_gaps s' = sequence_gaps s \<Longrightarrow> set (docker_recoveries s) \<subseteq> set (docker_recoveries s') \<Longrightarrow> gap_inv n s \<Longrightarrow> gap_inv n s'"
  by (fastforce simp: gap_inv_def gap_justified_def split: option.splits)

lemma interval_inv_cong: "open_critical_intervals s' = open_critical_intervals s \<Longrightarrow> interval_inv n b s \<Longrightarrow> interval_inv n b s'"
  by (simp add: interval_inv_def)

lemma lease_inv_cong:
  "falco_lease s' = falco_lease s \<Longrightarrow> live_lease_deadline s' = live_lease_deadline s \<Longrightarrow>
    latest_falco_stop_sequence s' = latest_falco_stop_sequence s \<Longrightarrow> lease_inv n s \<Longrightarrow> lease_inv n s'"
  by (simp add: lease_inv_def)

lemma inv_change_boot:
  assumes "inv_upto n (boot_id s) s"
  shows "inv_upto n (Some (ev_boot_id e)) (change_boot s e)"
proof (cases "boot_id s \<noteq> None \<and> boot_id s \<noteq> Some (ev_boot_id e)")
  case True
  let ?is = "filter (\<lambda>item. ci_scope_boot_id item = None) (open_critical_intervals s)"
  have "interval_inv n (boot_id s) s" using assms by (simp add: inv_upto_def)
  then have "distinct (map interval_key ?is)" "sorted_wrt (<) (map ci_source_sequence ?is @ [n + 1])"
    by (simp_all add: interval_inv_def distinct_map_filter sorted_upto_filter)
  moreover have "docker_inv n (change_boot s e)" "gap_inv n (change_boot s e)"
    using assms by (auto simp: inv_upto_def change_boot_def intro: docker_inv_cong gap_inv_cong)
  ultimately show ?thesis using True assms by (auto simp: inv_upto_def interval_inv_def lease_inv_def change_boot_def)
next
  case False
  then have "change_boot s e = s" by (auto simp: change_boot_def)
  with False assms show ?thesis by (auto simp: inv_upto_def interval_inv_def)
qed

lemma inv_docker_open:
  assumes "inv_upto n boot s" and "n < do_source_sequence opened" and "apply_docker_open s opened = Inr s'"
  shows "inv_upto (do_source_sequence opened) boot s'"
proof -
  let ?m = "do_source_sequence opened"
  have s': "s' = s\<lparr>docker_generation := None, docker_opens := docker_opens s @ [opened]\<rparr>"
    and new: "\<forall>item\<in>set (docker_opens s). \<not> (do_opened_at item = do_opened_at opened \<and> do_generation item = do_generation opened)"
    using assms(3) by (auto simp: apply_docker_open_def result_simps list_ex_iff)
  have old: "inv_upto ?m boot s" using inv_mono [OF assms(1)] assms(2) by simp
  have "docker_inv ?m s'"
    using assms(1) old new sorted_upto_snoc [OF _ assms(2)] unfolding s' inv_upto_def docker_inv_def by auto
  with old s' show ?thesis
    by (auto simp: inv_upto_def intro: gap_inv_cong interval_inv_cong lease_inv_cong)
qed

lemma sorted_wrt_foldl_max:
  "sorted_wrt (<) (g # gs) \<Longrightarrow> foldl max g gs = last (g # gs)" for g :: int
  by (induction gs arbitrary: g) (auto simp: max_def)

lemma recovery_baseline_last:
  assumes "docker_inv n s"
  shows "recovery_baseline s = last (0 # map dr_generation (docker_recoveries s))"
  using assms unfolding docker_inv_def recovery_baseline_def
  by (cases "docker_recoveries s") (simp_all add: sorted_wrt_foldl_max [simplified])

lemma inv_docker_recovery:
  assumes "inv_upto n boot s" and "n < dr_source_sequence r" and "apply_docker_recovery s r = Inr s'"
  shows "inv_upto (dr_source_sequence r) boot s'"
proof -
  let ?m = "dr_source_sequence r"
  obtain matched where
    s': "s' = s\<lparr>docker_generation := (if filter (\<lambda>item. item \<noteq> matched) (docker_opens s) = [] then Some (dr_generation r) else None),
      docker_opens := filter (\<lambda>item. item \<noteq> matched) (docker_opens s), docker_recoveries := docker_recoveries s @ [r]\<rparr>"
    and g: "recovery_baseline s < dr_generation r"
    using assms(3) by (auto simp: apply_docker_recovery_def result_simps Let_def split: list.splits)
  have old: "inv_upto ?m boot s" using inv_mono [OF assms(1)] assms(2) by simp
  have d: "docker_inv n s" "docker_inv ?m s" using assms(1) old by (simp_all add: inv_upto_def)
  have "sorted_wrt (<) (0 # map dr_generation (docker_recoveries s) @ [dr_generation r])"
    using sorted_wrt_last [of "map dr_generation (docker_recoveries s)" "dr_generation r"] d(1) g recovery_baseline_last [OF d(1)]
    by (simp add: docker_inv_def)
  moreover have "sorted_wrt (<) (map dr_source_sequence (docker_recoveries s) @ [?m, ?m + 1])"
    using d(1) sorted_upto_snoc [OF _ assms(2)] by (simp add: docker_inv_def)
  moreover have "sorted_wrt (<) (map do_source_sequence (filter (\<lambda>item. item \<noteq> matched) (docker_opens s)) @ [?m + 1])"
    using d(2) by (simp add: docker_inv_def sorted_upto_filter)
  ultimately have "docker_inv ?m s'" using d(2) by (auto simp: docker_inv_def s' distinct_map_filter)
  with old s' show ?thesis
    by (auto simp: inv_upto_def intro: gap_inv_cong interval_inv_cong lease_inv_cong)
qed

lemma sorted_wrt_snocI: "sorted_wrt P xs \<Longrightarrow> \<forall>x\<in>set xs. P x y \<Longrightarrow> sorted_wrt P (xs @ [y])"
  by (simp add: sorted_wrt_append)

lemma gap_justified_cong: "docker_recoveries s' = docker_recoveries s \<Longrightarrow> gap_justified n s' = gap_justified n s"
  by (auto simp: gap_justified_def fun_eq_iff split: option.splits)

lemma inv_gap_open:
  assumes "inv_upto n boot s" and "n < ev_source_sequence e" and "apply_sequence_gap_open s e cv = Inr s'"
  shows "inv_upto (ev_source_sequence e) boot s'"
proof -
  let ?m = "ev_source_sequence e"
  obtain gap where s': "s' = s\<lparr>sequence_gaps := sequence_gaps s @ [gap]\<rparr>"
    and new: "\<forall>h\<in>set (sequence_gaps s). gaps_disjoint h gap" "sg_open_source_sequence gap = ?m" "sg_close_source_sequence gap = None"
    using assms(3) by (auto simp: apply_sequence_gap_open_def result_simps list_ex_iff gaps_disjoint_def split: option.splits)
  have old: "inv_upto ?m boot s" using inv_mono [OF assms(1)] assms(2) by simp
  have "sorted_wrt gaps_disjoint (sequence_gaps s @ [gap])"
    using old new(1) by (intro sorted_wrt_snocI) (simp_all add: inv_upto_def gap_inv_def)
  moreover have "sorted_wrt (<) (map sg_open_source_sequence (sequence_gaps s @ [gap]) @ [?m + 1])"
    using assms(1) new(2) sorted_upto_snoc [OF _ assms(2)] by (simp add: inv_upto_def gap_inv_def)
  ultimately have "gap_inv ?m s'"
    using old new(3) gap_justified_cong [of s' s] unfolding s' inv_upto_def gap_inv_def by (auto simp: gap_justified_def [of _ _ gap])
  with old s' show ?thesis by (auto simp: inv_upto_def intro: docker_inv_cong interval_inv_cong lease_inv_cong)
qed

lemma sorted_wrt_list_update:
  assumes "sorted_wrt P xs" and "\<And>x. P x y \<longleftrightarrow> P x (xs ! i)" and "\<And>x. P y x \<longleftrightarrow> P (xs ! i) x"
  shows "sorted_wrt P (xs[i := y])"
proof (cases "i < length xs")
  case True
  have "P (xs[i := y] ! a) (xs[i := y] ! b)" if "a < b" "b < length xs" for a b
    using assms sorted_wrt_nth_less [OF assms(1)] that True by (cases "a = i"; cases "b = i") auto
  then show ?thesis by (simp add: sorted_wrt_iff_nth_less)
qed (use assms(1) in \<open>simp add: list_update_beyond\<close>)

lemma filter_enumerate_single:
  assumes "filter (\<lambda>p. P (snd p)) (enumerate 0 xs) = [(i, x)]"
  shows "i < length xs \<and> xs ! i = x \<and> P x"
proof -
  have "(i, x) \<in> set (filter (\<lambda>p. P (snd p)) (enumerate 0 xs))" using assms by simp
  then show ?thesis by (auto simp: in_set_enumerate_eq)
qed

lemma filter_one: "length (filter P xs) = 1 \<Longrightarrow> \<exists>x\<in>set xs. P x"
  by (induction xs) (auto split: if_splits)

lemma inv_gap_close:
  assumes "inv_upto n boot s" and "n < ev_source_sequence e" and "apply_sequence_gap_close s e cv = Inr s'"
  shows "inv_upto (ev_source_sequence e) boot s'"
proof -
  let ?m = "ev_source_sequence e"
  obtain i opened generation closed_at where
    f: "filter (\<lambda>p. gap_matches cv (snd p)) (enumerate 0 (sequence_gaps s)) = [(i, opened)]"
    and one: "length (filter (\<lambda>r. sg_open_source_sequence opened < dr_source_sequence r \<and> dr_source_sequence r < ?m \<and>
        dr_generation r = generation \<and> dr_closed_at r = closed_at) (docker_recoveries s)) = 1"
    and base: "sg_baseline_recovery_generation opened < generation"
    and s': "s' = s\<lparr>sequence_gaps := (sequence_gaps s)[i := opened\<lparr>sg_close_source_sequence := Some ?m,
        sg_close_recovery_generation := Some generation, sg_close_recovery_time := Some closed_at\<rparr>]\<rparr>"
    using assms(3)
    by (auto simp: apply_sequence_gap_close_def result_simps Let_def split: list.splits option.splits prod.splits)
  let ?gap = "opened\<lparr>sg_close_source_sequence := Some ?m, sg_close_recovery_generation := Some generation, sg_close_recovery_time := Some closed_at\<rparr>"
  have i: "i < length (sequence_gaps s)" "sequence_gaps s ! i = opened" using filter_enumerate_single [OF f] by simp_all
  have old: "inv_upto ?m boot s" using inv_mono [OF assms(1)] assms(2) by simp
  obtain r where r: "r \<in> set (docker_recoveries s)" "sg_open_source_sequence opened < dr_source_sequence r" "dr_source_sequence r < ?m"
      "dr_generation r = generation" "dr_closed_at r = closed_at"
    using filter_one [OF one] by blast
  then have j: "gap_justified ?m s ?gap" using base by (auto simp: gap_justified_def)
  have "sorted_wrt gaps_disjoint ((sequence_gaps s)[i := ?gap])"
    using old i by (intro sorted_wrt_list_update) (simp_all add: inv_upto_def gap_inv_def gaps_disjoint_def)
  moreover have "map sg_open_source_sequence ((sequence_gaps s)[i := ?gap]) = map sg_open_source_sequence (sequence_gaps s)"
    using i by (simp add: map_update list_update_same_conv)
  moreover have "\<forall>gap\<in>set ((sequence_gaps s)[i := ?gap]). gap_justified ?m s gap"
    using old j set_update_subset_insert [of "sequence_gaps s" i ?gap] by (auto simp: inv_upto_def gap_inv_def)
  ultimately have "gap_inv ?m s'" using old gap_justified_cong [of s' s] by (simp add: s' inv_upto_def gap_inv_def)
  with old s' show ?thesis by (auto simp: inv_upto_def intro: docker_inv_cong interval_inv_cong lease_inv_cong)
qed

lemma update_interval_Inr:
  assumes "update_interval e cv c opened = Inr updated"
  shows "interval_key updated = interval_key opened" "ci_source_sequence updated = ci_source_sequence opened"
    "ci_latest_source_sequence updated = ev_source_sequence e" "ci_scope_boot_id updated = ci_scope_boot_id opened"
    "\<forall>p. ci_dropped_count opened = Some p \<longrightarrow> (\<exists>q. ci_dropped_count updated = Some q \<and> p \<le> q)"
    "ci_dropped_count opened = None \<longrightarrow> ci_dropped_count updated = None"
  using assms by (auto simp: update_interval_def interval_key_def result_simps Let_def split: if_splits option.splits)

lemma distinct_key_single:
  assumes "distinct (map f xs)" and "filter (\<lambda>x. f x = k) xs = [y]"
  shows "\<forall>x\<in>set xs. f x = k \<longleftrightarrow> x = y" and "y \<in> set xs" and "f y = k"
proof -
  have "set (filter (\<lambda>x. f x = k) xs) = {y}" using assms(2) by simp
  then show "\<forall>x\<in>set xs. f x = k \<longleftrightarrow> x = y" "y \<in> set xs" "f y = k" by auto
qed

text \<open>What a generic critical record does to the open intervals.\<close>

definition generic_key :: "EventEnvelope \<Rightarrow> CoverageEvent \<Rightarrow> CoverageClassification \<Rightarrow> interval_key" where
  "generic_key e cv c = (if cl_scope c = Some ProcessScope then Some (ev_boot_id e) else None, cv_component cv, cv_kind cv, cv_opened_at cv)"

inductive generic_effect ::
    "EventEnvelope \<Rightarrow> CoverageEvent \<Rightarrow> CoverageClassification \<Rightarrow> CriticalInterval list \<Rightarrow> CriticalInterval list \<Rightarrow> bool" for e cv c where
  ge_same: "generic_effect e cv c is is"
| ge_add: "cv_closed_at cv = None \<Longrightarrow> filter (\<lambda>i. interval_key i = generic_key e cv c) is = [] \<Longrightarrow> interval_key new = generic_key e cv c \<Longrightarrow>
    ci_source_sequence new = ev_source_sequence e \<Longrightarrow> ci_latest_source_sequence new = ev_source_sequence e \<Longrightarrow>
    ci_dropped_count new = cv_dropped_count cv \<Longrightarrow> generic_effect e cv c is (is @ [new])"
| ge_update: "cv_closed_at cv = None \<Longrightarrow> filter (\<lambda>i. interval_key i = generic_key e cv c) is = [opened] \<Longrightarrow> update_interval e cv c opened = Inr updated \<Longrightarrow>
    generic_effect e cv c is (map (\<lambda>i. if interval_key i = generic_key e cv c then updated else i) is)"
| ge_remove: "cv_closed_at cv = Some closed_at \<Longrightarrow> filter (\<lambda>i. interval_key i = generic_key e cv c) is = [opened] \<Longrightarrow>
    \<forall>p. ci_dropped_count opened = Some p \<longrightarrow> (\<exists>q. cv_dropped_count cv = Some q \<and> p \<le> q) \<Longrightarrow>
    generic_effect e cv c is (filter (\<lambda>i. interval_key i \<noteq> generic_key e cv c) is)"

lemma generic_effect:
  assumes "apply_generic_critical s e cv c = Inr s'"
  shows "\<exists>is. s' = s\<lparr>open_critical_intervals := is\<rparr> \<and> generic_effect e cv c (open_critical_intervals s) is"
proof -
  let ?is = "open_critical_intervals s"
  let ?match = "filter (\<lambda>i. interval_key i = generic_key e cv c) ?is"
  have same: "\<exists>is. s = s\<lparr>open_critical_intervals := is\<rparr> \<and> generic_effect e cv c ?is is"
    by (rule exI [of _ ?is]) (simp add: ge_same)
  note a = assms [unfolded apply_generic_critical_def Let_def, folded generic_key_def]
  show ?thesis
  proof (cases "cv_closed_at cv")
    case None
    consider (nil) "?match = []" | (one) opened where "?match = [opened]" | (many) x y zs where "?match = x # y # zs"
      by (metis list.exhaust)
    then show ?thesis
    proof cases
      case nil
      obtain new where s': "s' = s\<lparr>open_critical_intervals := ?is @ [new]\<rparr>" and "interval_key new = generic_key e cv c"
        "ci_source_sequence new = ev_source_sequence e" "ci_latest_source_sequence new = ev_source_sequence e"
        "ci_dropped_count new = cv_dropped_count cv"
        using a None nil by (auto simp: interval_key_def generic_key_def)
      then show ?thesis using ge_add [OF None nil, of new] by blast
    next
      case one
      then show ?thesis
      proof (cases "s' = s")
        case False
        then obtain updated where u: "update_interval e cv c opened = Inr updated"
          "s' = s\<lparr>open_critical_intervals := map (\<lambda>i. if interval_key i = generic_key e cv c then updated else i) ?is\<rparr>"
          using a None one by (auto simp: result_simps split: if_splits)
        then show ?thesis using ge_update [OF None one u(1)] by blast
      qed (use same in simp)
    qed (use a None in simp)
  next
    case (Some closed_at)
    consider (nil) "?match = []" | (one) opened where "?match = [opened]" | (many) x y zs where "?match = x # y # zs"
      by (metis list.exhaust)
    then show ?thesis
    proof cases
      case nil
      then show ?thesis using a Some same by simp
    next
      case one
      then have "s' = s\<lparr>open_critical_intervals := filter (\<lambda>i. interval_key i \<noteq> generic_key e cv c) ?is\<rparr>"
        "\<forall>p. ci_dropped_count opened = Some p \<longrightarrow> (\<exists>q. cv_dropped_count cv = Some q \<and> p \<le> q)"
        using a Some by (auto simp: result_simps split: if_splits option.splits)
      then show ?thesis using ge_remove [OF Some one] by blast
    qed (use a Some in simp)
  qed
qed

lemma generic_effect_inv:
  assumes "generic_effect e cv c is is'" and "n < ev_source_sequence e"
    and "interval_inv n (Some (ev_boot_id e)) s" and "open_critical_intervals s = is" and "open_critical_intervals s' = is'"
  shows "interval_inv (ev_source_sequence e) (Some (ev_boot_id e)) s'"
  using assms(1)
proof cases
  case ge_same
  with assms show ?thesis using sorted_upto_mono [of _ n "ev_source_sequence e"] by (fastforce simp: interval_inv_def)
next
  case (ge_add new)
  then have "generic_key e cv c \<notin> set (map interval_key is)" by (auto simp: filter_empty_conv)
  moreover have "ci_scope_boot_id new \<in> {None, Some (ev_boot_id e)}" using ge_add(4) by (simp add: interval_key_def generic_key_def)
  ultimately show ?thesis using ge_add assms(2-5) sorted_upto_snoc [OF _ assms(2)] by (fastforce simp: interval_inv_def)
next
  case (ge_update opened updated)
  let ?f = "\<lambda>i. if interval_key i = generic_key e cv c then updated else i"
  note u = update_interval_Inr [OF ge_update(4)]
  have I: "interval_inv n (Some (ev_boot_id e)) s" by (fact assms(3))
  have d: "distinct (map interval_key is)" using I assms(4) by (simp add: interval_inv_def)
  note o = distinct_key_single [OF d ge_update(3)]
  have k: "map interval_key (map ?f is) = map interval_key is" "map ci_source_sequence (map ?f is) = map ci_source_sequence is"
    using o u(1,2) by auto
  have b: "ci_scope_boot_id i \<in> {None, Some (ev_boot_id e)} \<and> ci_source_sequence i \<le> ev_source_sequence e \<and>
      ci_source_sequence i \<le> ci_latest_source_sequence i \<and> ci_latest_source_sequence i \<le> ev_source_sequence e" if "i \<in> set is" for i
    using I assms(2,4) that unfolding interval_inv_def by force
  have "\<forall>i\<in>set (map ?f is). ci_scope_boot_id i \<in> {None, Some (ev_boot_id e)} \<and>
      ci_source_sequence i \<le> ci_latest_source_sequence i \<and> ci_latest_source_sequence i \<le> ev_source_sequence e"
    using b b [OF o(2)] u(2-4) by auto
  moreover have "sorted_wrt (<) (map ci_source_sequence is @ [ev_source_sequence e + 1])"
    using I assms(2,4) sorted_upto_mono [of _ n "ev_source_sequence e"] by (simp add: interval_inv_def)
  ultimately show ?thesis using ge_update(1) k d assms(5) by (simp add: interval_inv_def del: map_map)
next
  case (ge_remove closed_at opened)
  have "sorted_wrt (<) (map ci_source_sequence is @ [ev_source_sequence e + 1])"
    using assms(2-4) sorted_upto_mono [of _ n "ev_source_sequence e"] by (simp add: interval_inv_def)
  then show ?thesis using ge_remove(1) assms by (fastforce simp: interval_inv_def distinct_map_filter sorted_upto_filter)
qed

lemma inv_generic:
  assumes "inv_upto n (Some (ev_boot_id e)) s" and "n < ev_source_sequence e" and "apply_generic_critical s e cv c = Inr s'"
  shows "inv_upto (ev_source_sequence e) (Some (ev_boot_id e)) s'"
proof -
  have old: "inv_upto (ev_source_sequence e) (Some (ev_boot_id e)) s" using inv_mono [OF assms(1)] assms(2) by simp
  obtain "is" where s': "s' = s\<lparr>open_critical_intervals := is\<rparr>" "generic_effect e cv c (open_critical_intervals s) is"
    using generic_effect [OF assms(3)] by blast
  have "interval_inv (ev_source_sequence e) (Some (ev_boot_id e)) s'"
    using generic_effect_inv [OF s'(2) assms(2), of s s'] assms(1) s'(1) by (simp add: inv_upto_def)
  with old s'(1) show ?thesis by (auto simp: inv_upto_def intro: docker_inv_cong gap_inv_cong lease_inv_cong)
qed

lemma apply_falco_lease_Inr:
  assumes "apply_falco_lease s e cv receipt = Inr s'"
  shows "\<exists>a b d. fromisoformat (cv_opened_at cv) = Inr a \<and> fromisoformat (ev_ingest_time e) = Inr b \<and> a \<le> b \<and> b - a \<le> LEASE_WINDOW_US \<and>
    (receipt = None \<longrightarrow> d = None) \<and>
    s' = s\<lparr>falco_lease := Some \<lparr>fl_source_sequence = ev_source_sequence e, fl_event_id = ev_event_id e,
      fl_opened_at = cv_opened_at cv, fl_ingest_time = ev_ingest_time e\<rparr>, live_lease_deadline := d\<rparr>"
proof -
  obtain a where a: "fromisoformat (cv_opened_at cv) = Inr a"
    using assms by (cases "fromisoformat (cv_opened_at cv)") (auto simp: apply_falco_lease_def timestamp_us_def)
  obtain b where b: "fromisoformat (ev_ingest_time e) = Inr b"
    using assms a by (cases "fromisoformat (ev_ingest_time e)") (auto simp: apply_falco_lease_def timestamp_us_def)
  have w: "0 \<le> b - a" "b - a \<le> LEASE_WINDOW_US"
    using assms a b by (auto simp: apply_falco_lease_def timestamp_us_def invalid_def Let_def split: if_splits)
  show ?thesis
    using assms a b w by (cases receipt) (auto simp: apply_falco_lease_def timestamp_us_def invalid_def Let_def result_simps)
qed

lemma inv_lease:
  assumes "inv_upto n boot s" and "n < ev_source_sequence e" and "apply_falco_lease s e cv receipt = Inr s'"
  shows "inv_upto (ev_source_sequence e) boot s'"
proof -
  have old: "inv_upto (ev_source_sequence e) boot s" using inv_mono [OF assms(1)] assms(2) by simp
  obtain a b d where t: "fromisoformat (cv_opened_at cv) = Inr a" "fromisoformat (ev_ingest_time e) = Inr b" "a \<le> b" "b - a \<le> LEASE_WINDOW_US"
    and s': "s' = s\<lparr>falco_lease := Some \<lparr>fl_source_sequence = ev_source_sequence e, fl_event_id = ev_event_id e,
            fl_opened_at = cv_opened_at cv, fl_ingest_time = ev_ingest_time e\<rparr>, live_lease_deadline := d\<rparr>"
    using apply_falco_lease_Inr [OF assms(3)] by blast
  have "lease_inv n s" using assms(1) by (simp add: inv_upto_def)
  then have "lease_inv (ev_source_sequence e) s'" using assms(2) t by (fastforce simp: s' lease_inv_def)
  with old s' show ?thesis by (auto simp: inv_upto_def intro: docker_inv_cong gap_inv_cong interval_inv_cong)
qed

lemma inv_action:
  assumes "inv_upto n (Some (ev_boot_id e)) s" and "n < ev_source_sequence e" and "apply_action s e cov c receipt = Inr s'"
  shows "inv_upto (ev_source_sequence e) (Some (ev_boot_id e)) s'"
proof -
  have old: "inv_upto (ev_source_sequence e) (Some (ev_boot_id e)) s" using inv_mono [OF assms(1)] assms(2) by simp
  have lease: "lease_inv n s" using assms(1) by (simp add: inv_upto_def)
  show ?thesis
  proof (cases "cl_action c")
    case DockerOpen
    with assms(3) obtain opened where "apply_docker_open s opened = Inr s'" "do_source_sequence opened = ev_source_sequence e"
      by (auto simp: apply_action_def split: option.splits)
    with inv_docker_open assms(1,2) show ?thesis by metis
  next
    case DockerClose
    with assms(3) obtain r where "apply_docker_recovery s r = Inr s'" "dr_source_sequence r = ev_source_sequence e"
      by (auto simp: apply_action_def split: option.splits)
    with inv_docker_recovery assms(1,2) show ?thesis by metis
  next
    case FalcoStop
    then have s': "s' = s\<lparr>falco_lease := None, live_lease_deadline := None, latest_falco_stop_sequence := Some (ev_source_sequence e)\<rparr>"
      using assms(3) by (simp add: apply_action_def)
    then have "lease_inv (ev_source_sequence e) s'" by (simp add: lease_inv_def)
    with old s' show ?thesis by (auto simp: inv_upto_def intro: docker_inv_cong gap_inv_cong interval_inv_cong)
  next
    case BootBoundary
    then have s': "s' = s\<lparr>boot_transition_sequence := Some (ev_source_sequence e), observer_started := False,
           docker_generation := None, falco_lease := None, live_lease_deadline := None\<rparr>"
      using assms(3) by (simp add: apply_action_def)
    then have "lease_inv (ev_source_sequence e) s'" using old by (simp add: lease_inv_def inv_upto_def)
    with old s' show ?thesis by (auto simp: inv_upto_def intro: docker_inv_cong gap_inv_cong interval_inv_cong)
  next
    case ObserverStart
    then have s': "s' = s\<lparr>observer_started := True, docker_generation := None, falco_lease := None, live_lease_deadline := None\<rparr>"
      using assms(3) by (simp add: apply_action_def)
    then have "lease_inv (ev_source_sequence e) s'" using old by (simp add: lease_inv_def inv_upto_def)
    with old s' show ?thesis by (auto simp: inv_upto_def intro: docker_inv_cong gap_inv_cong interval_inv_cong)
  qed (use assms old in \<open>auto simp: apply_action_def intro: inv_gap_open inv_gap_close inv_lease inv_generic split: option.splits\<close>)
qed

lemma action_boot_transition:
  "apply_action s e cov c receipt = Inr s' \<Longrightarrow> boot_transition_sequence s' \<in> {boot_transition_sequence s, Some (ev_source_sequence e)}"
  by (cases "cl_action c")
    (auto simp: apply_action_def apply_docker_open_def apply_docker_recovery_def apply_sequence_gap_open_def
      apply_sequence_gap_close_def result_simps Let_def
      dest!: generic_effect apply_falco_lease_Inr split: option.splits list.splits prod.splits)

lemma transition_Inr:
  "transition H s p receipt allowed = Inr s' \<longleftrightarrow>
    (host_id s = None \<or> host_id s = Some (ev_host_id (pr_envelope p))) \<and> head_sequence s < ev_source_sequence (pr_envelope p) \<and>
    (receipt \<noteq> None \<longrightarrow> allowed) \<and>
    (\<exists>c t. classify_coverage_record H (pr_envelope p) (pr_coverage p) = Inr c \<and> (receipt \<noteq> None \<longrightarrow> cl_action c = FalcoLease) \<and>
      apply_action (change_boot s (pr_envelope p)) (pr_envelope p) (pr_coverage p) c receipt = Inr t \<and>
      s' = t\<lparr>host_id := Some (ev_host_id (pr_envelope p)), boot_id := Some (ev_boot_id (pr_envelope p)),
        head_sequence := ev_source_sequence (pr_envelope p), head_ref := Some (rec_ref (pr_record p))\<rparr>)"
  unfolding transition_def Let_def by (auto simp: result_simps not_le)

lemma inv_upto_head [simp]:
  "inv_upto n b (t\<lparr>host_id := h, boot_id := bo, head_sequence := k, head_ref := r\<rparr>) = inv_upto n b t"
  by (simp add: inv_defs gap_justified_def cong: option.case_cong)

lemma transition_inv:
  assumes "coverage_inv s" and "transition H s p receipt allowed = Inr s'"
  shows "coverage_inv s'"
proof -
  let ?e = "pr_envelope p"
  from assms(2) obtain c t where later: "head_sequence s < ev_source_sequence ?e"
    and t: "apply_action (change_boot s ?e) ?e (pr_coverage p) c receipt = Inr t"
    and s': "s' = t\<lparr>host_id := Some (ev_host_id ?e), boot_id := Some (ev_boot_id ?e), head_sequence := ev_source_sequence ?e,
      head_ref := Some (rec_ref (pr_record p))\<rparr>"
    unfolding transition_Inr by blast
  have "inv_upto (head_sequence s) (Some (ev_boot_id ?e)) (change_boot s ?e)"
    using assms(1) inv_change_boot by (simp add: coverage_inv_def)
  from inv_action [OF this later t] have "inv_upto (ev_source_sequence ?e) (Some (ev_boot_id ?e)) s'" by (simp add: s')
  moreover have "boot_transition_sequence t \<in> {boot_transition_sequence s, Some (ev_source_sequence ?e)}"
    using action_boot_transition [OF t] by (auto simp: change_boot_def split: if_splits)
  moreover have "\<forall>k. boot_transition_sequence s = Some k \<longrightarrow> k \<le> head_sequence s" "0 \<le> head_sequence s"
    using assms(1) by (simp_all add: coverage_inv_def)
  ultimately show ?thesis using later by (auto simp: coverage_inv_def s')
qed

section \<open>Replay and live application\<close>

text \<open>
  A replay carries no receipts, so the one thing it cannot restore is the monotonic deadline of a lease.
  Every operation commutes with forgetting it.
\<close>

definition forget_deadline :: "CoverageSnapshot \<Rightarrow> CoverageSnapshot" where
  "forget_deadline s = s\<lparr>live_lease_deadline := None\<rparr>"

lemma forget_selectors [simp]:
  "host_id (forget_deadline s) = host_id s" "boot_id (forget_deadline s) = boot_id s" "head_sequence (forget_deadline s) = head_sequence s"
  "head_ref (forget_deadline s) = head_ref s" "boot_transition_sequence (forget_deadline s) = boot_transition_sequence s"
  "observer_started (forget_deadline s) = observer_started s" "docker_generation (forget_deadline s) = docker_generation s"
  "docker_opens (forget_deadline s) = docker_opens s" "docker_recoveries (forget_deadline s) = docker_recoveries s"
  "open_critical_intervals (forget_deadline s) = open_critical_intervals s" "sequence_gaps (forget_deadline s) = sequence_gaps s"
  "falco_lease (forget_deadline s) = falco_lease s" "live_lease_deadline (forget_deadline s) = None"
  "latest_falco_stop_sequence (forget_deadline s) = latest_falco_stop_sequence s"
  by (simp_all add: forget_deadline_def)

lemma forget_empty [simp]: "forget_deadline empty_snapshot = empty_snapshot"
  by (simp add: forget_deadline_def empty_snapshot_def)

lemma forget_baseline [simp]: "recovery_baseline (forget_deadline s) = recovery_baseline s"
  by (simp add: recovery_baseline_def)

lemma forget_change_boot: "change_boot (forget_deadline s) e = forget_deadline (change_boot s e)"
  by (simp add: change_boot_def)

lemma forget_docker_open: "apply_docker_open s x = Inr t \<Longrightarrow> apply_docker_open (forget_deadline s) x = Inr (forget_deadline t)"
  by (auto simp: apply_docker_open_def result_simps)

lemma forget_docker_recovery: "apply_docker_recovery s x = Inr t \<Longrightarrow> apply_docker_recovery (forget_deadline s) x = Inr (forget_deadline t)"
  by (auto simp: apply_docker_recovery_def result_simps Let_def split: list.splits)

lemma forget_gap_open: "apply_sequence_gap_open s e x = Inr t \<Longrightarrow> apply_sequence_gap_open (forget_deadline s) e x = Inr (forget_deadline t)"
  by (auto simp: apply_sequence_gap_open_def result_simps split: option.splits)

lemma forget_gap_close: "apply_sequence_gap_close s e x = Inr t \<Longrightarrow> apply_sequence_gap_close (forget_deadline s) e x = Inr (forget_deadline t)"
  by (auto simp: apply_sequence_gap_close_def result_simps Let_def split: list.splits option.splits prod.splits)

lemma forget_generic: "apply_generic_critical s e x c = Inr t \<Longrightarrow> apply_generic_critical (forget_deadline s) e x c = Inr (forget_deadline t)"
proof -
  assume a: "apply_generic_critical s e x c = Inr t"
  let ?match = "filter (\<lambda>i. interval_key i = generic_key e x c) (open_critical_intervals s)"
  note u = apply_generic_critical_def Let_def generic_key_def [symmetric]
  show ?thesis
  proof (cases "cv_closed_at x")
    case None
    with a show ?thesis
      by (cases ?match; cases "tl ?match") (auto simp: u result_simps split: if_splits)
  next
    case (Some closed)
    with a show ?thesis
      by (cases ?match; cases "tl ?match") (auto simp: u result_simps split: if_splits)
  qed
qed

lemma forget_lease: "apply_falco_lease s e x r = Inr t \<Longrightarrow> apply_falco_lease (forget_deadline s) e x None = Inr (forget_deadline t)"
proof -
  assume a: "apply_falco_lease s e x r = Inr t"
  from apply_falco_lease_Inr [OF this] obtain a b d where "fromisoformat (cv_opened_at x) = Inr a" "fromisoformat (ev_ingest_time e) = Inr b"
    "a \<le> b" "b - a \<le> LEASE_WINDOW_US" "t = s\<lparr>falco_lease := Some \<lparr>fl_source_sequence = ev_source_sequence e, fl_event_id = ev_event_id e,
      fl_opened_at = cv_opened_at x, fl_ingest_time = ev_ingest_time e\<rparr>, live_lease_deadline := d\<rparr>" by blast
  then show ?thesis by (simp add: apply_falco_lease_def timestamp_us_def invalid_def forget_deadline_def)
qed

lemma forget_action:
  assumes "apply_action s e cov c r = Inr t"
  shows "apply_action (forget_deadline s) e cov c None = Inr (forget_deadline t)"
proof (cases "cl_action c")
  case DockerOpen
  with assms show ?thesis by (auto simp: apply_action_def intro: forget_docker_open split: option.splits)
next
  case DockerClose
  with assms show ?thesis by (auto simp: apply_action_def intro: forget_docker_recovery split: option.splits)
next
  case SequenceOpen
  with assms show ?thesis by (auto simp: apply_action_def intro: forget_gap_open split: option.splits)
next
  case SequenceClose
  with assms show ?thesis by (auto simp: apply_action_def intro: forget_gap_close split: option.splits)
next
  case FalcoLease
  with assms show ?thesis by (auto simp: apply_action_def intro: forget_lease split: option.splits)
next
  case GenericOpen
  with assms show ?thesis by (auto simp: apply_action_def intro: forget_generic split: option.splits)
next
  case GenericClose
  with assms show ?thesis by (auto simp: apply_action_def intro: forget_generic split: option.splits)
qed (use assms in \<open>auto simp: apply_action_def\<close>)

lemma forget_transition:
  assumes "transition H s p r allowed = Inr t"
  shows "transition H (forget_deadline s) p None False = Inr (forget_deadline t)"
proof -
  let ?e = "pr_envelope p"
  from assms obtain c u where c: "host_id s = None \<or> host_id s = Some (ev_host_id ?e)" "head_sequence s < ev_source_sequence ?e"
      "classify_coverage_record H ?e (pr_coverage p) = Inr c"
    and u: "apply_action (change_boot s ?e) ?e (pr_coverage p) c r = Inr u"
    and t: "t = u\<lparr>host_id := Some (ev_host_id ?e), boot_id := Some (ev_boot_id ?e), head_sequence := ev_source_sequence ?e,
      head_ref := Some (rec_ref (pr_record p))\<rparr>"
    unfolding transition_Inr by blast
  have "apply_action (change_boot (forget_deadline s) ?e) ?e (pr_coverage p) c None = Inr (forget_deadline u)"
    unfolding forget_change_boot by (rule forget_action [OF u])
  moreover have "forget_deadline t = (forget_deadline u)\<lparr>host_id := Some (ev_host_id ?e), boot_id := Some (ev_boot_id ?e),
      head_sequence := ev_source_sequence ?e, head_ref := Some (rec_ref (pr_record p))\<rparr>"
    by (simp add: t forget_deadline_def)
  ultimately show ?thesis unfolding transition_Inr using c by auto
qed

text \<open>A sequence of live applications, each with its receipt.\<close>

fun live :: "(bytes \<Rightarrow> bytes) \<Rightarrow> CoverageSnapshot \<Rightarrow> (StoredEvidenceRecord \<times> pyfloat option) list \<Rightarrow> CoverageSnapshot coverage_result" where
  "live H s [] = Inr s"
| "live H s ((record, receipt) # rs) =
    rbind (prepare H record) (\<lambda>p. rbind (transition H s p receipt True) (\<lambda>s'. live H s' rs))"

lemma live_refines_replay:
  "live H s rs = Inr t \<Longrightarrow> replay H (forget_deadline s) (map fst rs) = Inr (forget_deadline t)"
proof (induction rs arbitrary: s)
  case (Cons r rs)
  then obtain p s' where "prepare H (fst r) = Inr p" "transition H s p (snd r) True = Inr s'" "live H s' rs = Inr t"
    by (cases r) (auto simp: result_simps)
  with Cons.IH forget_transition show ?case by simp
qed simp

lemma replay_append: "replay H s (rs @ qs) = rbind (replay H s rs) (\<lambda>t. replay H t qs)"
  by (induction rs arbitrary: s) (simp_all add: rbind_assoc)

lemma replay_inv: "coverage_inv s \<Longrightarrow> replay H s rs = Inr t \<Longrightarrow> coverage_inv t"
  by (induction rs arbitrary: s) (auto simp: result_simps dest: transition_inv)

lemma prepare_record: "prepare H r = Inr p \<Longrightarrow> pr_record p = r"
  unfolding prepare_def Let_def rbind_Inr_iff by (auto simp only: rbind_Inr_iff split: if_splits) simp_all

lemma replay_head:
  "replay H s rs = Inr t \<Longrightarrow> rs \<noteq> [] \<Longrightarrow> head_ref t = Some (rec_ref (last rs))"
proof (induction rs rule: rev_induct)
  case (snoc r rs)
  then obtain u p where "prepare H r = Inr p" "transition H u p None False = Inr t"
    by (auto simp: replay_append result_simps)
  then show ?case using prepare_record by (auto simp: transition_Inr)
qed simp

section \<open>Readiness\<close>

lemma add_if_Nil: "add_if b r rs = [] \<longleftrightarrow> \<not> b \<and> rs = []"
  by (simp add: add_if_def)

lemma sort_Nil: "sort xs = [] \<longleftrightarrow> xs = []"
  by (metis length_0_conv length_sort)

lemma mutation_readiness_Inr:
  assumes "mutation_readiness H state ctx = Inr rd"
  shows "rd_ready rd \<longleftrightarrow> (case falco_lease (cr_snapshot state) of
      None \<Rightarrow> readiness_reasons state ctx None = []
    | Some l \<Rightarrow> \<exists>f. lease_checks (cr_snapshot state) ctx l = Inr f \<and> readiness_reasons state ctx (Some f) = [])"
  using assms unfolding mutation_readiness_def Let_def rbind_Inr_iff
  by (auto simp: sort_Nil result_simps split: option.splits)

text \<open>What a ready decision says of the lease: it was taken in and decided on within its window.\<close>

definition lease_is_live :: "CoverageSnapshot \<Rightarrow> MutationReadinessContext \<Rightarrow> bool" where
  "lease_is_live s ctx \<longleftrightarrow> (\<exists>l d a b. falco_lease s = Some l \<and> live_lease_deadline s = Some d \<and>
    fromisoformat (fl_opened_at l) = Inr a \<and> fromisoformat (fl_ingest_time l) = Inr b \<and>
    a \<le> b \<and> b \<le> decision_utc ctx \<and> decision_utc ctx \<le> a + LEASE_WINDOW_US \<and> float_le (decision_monotonic ctx) d)"

definition context_is_settled :: "CoverageReducer \<Rightarrow> MutationReadinessContext \<Rightarrow> bool" where
  "context_is_settled state ctx \<longleftrightarrow>
    ack_journal_healthy ctx \<and> clock_healthy ctx \<and> evidence_healthy ctx \<and> key_healthy ctx \<and> projection_healthy ctx \<and>
    \<not> repair_pending ctx \<and> \<not> retention_pending ctx \<and>
    (\<exists>u. clock_uncertainty_seconds ctx = Some u \<and> u \<le> max_clock_uncertainty_seconds ctx) \<and>
    head_sequence (cr_snapshot state) = evidence_head ctx \<and> acceptance_cursor ctx = evidence_head ctx \<and>
    confirmed_through ctx = evidence_head ctx \<and> projection_cursor ctx = evidence_head ctx"

lemma lease_checks_Inr:
  assumes "lease_inv n s" and "falco_lease s = Some l"
  obtains a b where "fromisoformat (fl_opened_at l) = Inr a" "fromisoformat (fl_ingest_time l) = Inr b" "a \<le> b" "b - a \<le> LEASE_WINDOW_US"
    "lease_checks s ctx l = Inr \<lparr>lf_after_stop = True,
      lf_ingest_valid = (a \<le> b \<and> b \<le> decision_utc ctx \<and> 0 \<le> b - a \<and> b - a \<le> LEASE_WINDOW_US),
      lf_wall_valid = (0 \<le> decision_utc ctx - a \<and> decision_utc ctx - a \<le> LEASE_WINDOW_US),
      lf_monotonic_valid = (case live_lease_deadline s of None \<Rightarrow> False | Some d \<Rightarrow> float_le (decision_monotonic ctx) d),
      lf_stale = (decision_utc ctx - a > LEASE_WINDOW_US \<or>
        (case live_lease_deadline s of None \<Rightarrow> False | Some d \<Rightarrow> \<not> float_le (decision_monotonic ctx) d))\<rparr>"
proof -
  obtain a b where t: "fromisoformat (fl_opened_at l) = Inr a" "fromisoformat (fl_ingest_time l) = Inr b" "a \<le> b" "b - a \<le> LEASE_WINDOW_US"
    and stop: "\<forall>k. latest_falco_stop_sequence s = Some k \<longrightarrow> k < fl_source_sequence l"
    using assms unfolding lease_inv_def by blast
  show thesis
    by (rule that [OF t]) (use t stop in \<open>simp add: lease_checks_def timestamp_us_def Let_def split: option.split\<close>)
qed

lemma readiness_Nil:
  assumes "coverage_inv (cr_snapshot state)"
  shows "readiness_reasons state ctx facts = [] \<longleftrightarrow>
    cr_healthy state \<and> \<not> cr_closed state \<and> context_is_settled state ctx \<and>
    open_critical_intervals (cr_snapshot state) = [] \<and> (\<forall>gap\<in>set (sequence_gaps (cr_snapshot state)). sg_close_source_sequence gap \<noteq> None) \<and>
    boot_transition_sequence (cr_snapshot state) \<noteq> None \<and> docker_generation (cr_snapshot state) \<noteq> None \<and> observer_started (cr_snapshot state) \<and>
    (\<exists>f. facts = Some f \<and> lf_ingest_valid f \<and> \<not> lf_stale f \<and> lf_after_stop f \<and> live_lease_deadline (cr_snapshot state) \<noteq> None)"
proof -
  have "docker_opens (cr_snapshot state) = []" if "docker_generation (cr_snapshot state) \<noteq> None"
    using assms that by (auto simp: coverage_inv_def inv_upto_def docker_inv_def)
  then show ?thesis
    by (auto simp: readiness_reasons_def Let_def add_if_Nil context_is_settled_def list_ex_iff not_less split: option.splits)
qed

section \<open>Example records\<close>

text \<open>
  A stored \<open>observer_start\<close> record that passes \<open>prepare\<close> under the constant digest, for the instances
  below. Its canonical octets are named, not spelled out.
\<close>

definition start_document :: document where
  "start_document =
    [(''boot_id'', JStr ''00000000-0000-4000-8000-000000000001''), (''clock_uncertainty_ms'', JInt 0),
     (''coverage_flags'', JArr [JStr ''reconcile_required'']), (''event_id'', JStr (''evt_'' @ replicate 64 (CHR ''0''))),
     (''event_time'', JStr ''2026-01-02T03:04:05Z''), (''event_type'', JStr ''observer_start''),
     (''host_id'', JStr ''00000000-0000-4000-8000-000000000000''), (''ingest_time'', JStr ''2026-01-02T03:04:05.5Z''),
     (''inventory_generation'', JInt 0), (''key_epoch'', JInt 1), (''key_id'', JStr (replicate 32 (CHR ''a''))),
     (''normalized_fields'', JObj [(''kind'', JStr ''observer_start''), (''reconcile_required'', JBool True)]),
     (''normalized_fields_sha256'', JStr (replicate 64 (CHR ''0''))), (''redaction_flags'', JArr []),
     (''schema_version'', JStr ''agmind.event-envelope.v1''), (''source_id'', JStr ''agmind-observerd''),
     (''source_payload_hash'', JStr (replicate 64 (CHR ''0''))), (''source_sequence'', JInt 1),
     (''source_signature'', JStr (replicate 128 (CHR ''c''))), (''source_version'', JStr ''1.0'')]"

definition start_ref :: EvidenceRef where
  "start_ref = \<lparr>segment_id = ''00000000-0000-4000-8000-000000000002'',
    segment_relative_path = ''segments/2026-01-02/00000000000000000001-00000000-0000-4000-8000-000000000002.agseg'',
    frame_offset = 0, frame_size = 1500, frame_sha256 = replicate 64 (CHR ''d''), ref_event_id = ''evt_'' @ replicate 64 (CHR ''0''),
    ref_source_sequence = 1, content_sha256 = replicate 64 (CHR ''0'')\<rparr>"

definition start_record :: StoredEvidenceRecord where
  "start_record = \<lparr>rec_envelope = start_document, canonical_envelope = projr (canonical_json (JObj start_document)),
    priority = PROTECTED, accepted_at = ''2026-01-02T03:04:06Z'', rec_ref = start_ref\<rparr>"

definition start_prepared :: PreparedRecord where
  "start_prepared = \<lparr>pr_record = start_record, pr_envelope = envelope_of start_document, pr_coverage = None\<rparr>"

lemma start_canonical: "canonical_json (JObj start_document) = Inr (canonical_envelope start_record)"
proof -
  have "validate_bounded_nested normalized_bounds (JObj start_document) 1 = Inr ()" by code_simp
  then have "is_ok (encode (JObj start_document) 0)" using bounded_nested_encodes [of normalized_bounds "JObj start_document" 0] by simp
  then show ?thesis by (auto simp: start_record_def canonical_json_def is_ok_iff)
qed

lemma start_decodes:
  "decode_strict EventEnvelopeV1_fields (normalized_fields_are_bounded zero_digest) (canonical_envelope start_record) (64 * 1024) = Inr start_document"
proof -
  have n: "map (\<lambda>kv. (fst kv, json_norm (snd kv))) (sort_key fst start_document) = start_document" by code_simp
  have wf: "json_wf (JObj start_document)" by code_simp
  have req: "set (required_names EventEnvelopeV1_fields) \<subseteq> fst ` set start_document" by code_simp
  have nn: "\<forall>kv\<in>set start_document. snd kv \<noteq> JNull" by code_simp
  have b: "encode_bound (JObj start_document) \<le> 64 * 1024" by code_simp
  have "int (length (canonical_envelope start_record)) \<le> 64 * 1024"
    using encode_bound [OF start_canonical [unfolded canonical_json_def]] b by simp
  from decode_document_canonical [OF start_canonical wf req nn this]
  have d: "decode_document (required_names EventEnvelopeV1_fields) (canonical_envelope start_record) (64 * 1024) = Inr start_document"
    by (simp only: n)
  have v: "model_validate EventEnvelopeV1_fields (normalized_fields_are_bounded zero_digest) start_document = Inr start_document" by code_simp
  show ?thesis unfolding decode_strict_def d by (simp add: v)
qed

lemma start_prepares: "prepare zero_digest start_record = Inr start_prepared"
proof -
  have k: "exact_coverage_ref_key start_ref = Inr start_ref" by code_simp
  have r: "rec_ref start_record = start_ref" "rec_envelope start_record = start_document" by (simp_all add: start_record_def)
  have m: "model_dump start_document = start_document" by code_simp
  have q: "py_eq (JObj start_document) (JObj start_document)" by code_simp
  have x: "envelope_is_exact start_record start_document" unfolding envelope_is_exact_def m r using start_canonical q by blast
  have e: "start_ref\<lparr>ref_source_sequence := ev_source_sequence (envelope_of start_document),
      ref_event_id := ev_event_id (envelope_of start_document), content_sha256 := hexdigest zero_digest []\<rparr> = start_ref" by code_simp
  then have e': "start_ref\<lparr>ref_source_sequence := ev_source_sequence (envelope_of start_document),
      ref_event_id := ev_event_id (envelope_of start_document), content_sha256 := hexdigest zero_digest (canonical_envelope start_record)\<rparr> = start_ref"
    by (simp add: hexdigest_def)
  have c: "prepare_coverage (envelope_of start_document) = Inr None" by code_simp
  show ?thesis
    unfolding prepare_def r k start_decodes Let_def
    by (simp add: as_validation_def x e' same_exact_coverage_ref_def k c start_prepared_def)
qed

lemma start_classified: "classify_coverage_record zero_digest (envelope_of start_document) None = Inr (plain ObserverStart)"
  by code_simp

definition start_snapshot :: CoverageSnapshot where
  "start_snapshot = empty_snapshot\<lparr>observer_started := True, host_id := Some ''00000000-0000-4000-8000-000000000000'',
    boot_id := Some ''00000000-0000-4000-8000-000000000001'', head_sequence := 1, head_ref := Some start_ref\<rparr>"

lemma start_transition: "transition zero_digest empty_snapshot start_prepared None allowed = Inr start_snapshot"
proof -
  have "ev_host_id (envelope_of start_document) = ''00000000-0000-4000-8000-000000000000''"
    "ev_boot_id (envelope_of start_document) = ''00000000-0000-4000-8000-000000000001''"
    "ev_source_sequence (envelope_of start_document) = 1" by code_simp+
  then show ?thesis
    by (simp add: transition_Inr start_prepared_def start_classified apply_action_def change_boot_def start_snapshot_def
        start_record_def empty_snapshot_def)
qed

section \<open>Properties\<close>

lemma live_inv: "coverage_inv s \<Longrightarrow> live H s rs = Inr t \<Longrightarrow> coverage_inv t"
proof (induction rs arbitrary: s)
  case (Cons r rs)
  then obtain p s' where "transition H s p (snd r) True = Inr s'" "live H s' rs = Inr t" by (cases r) (auto simp: result_simps)
  with Cons transition_inv show ?case by blast
qed simp

text \<open>
  C4. Every coverage history is consistent: the snapshot after any sequence of applied records satisfies
  the invariant. Docker opens and recoveries are in source order with advancing generations, a current
  generation means nothing is open, sequence gaps are disjoint and a closed one was closed by a later
  recovery past its baseline, critical intervals are distinct and of the host or the current boot, and
  the lease is later than the last stop and was taken in within fifteen seconds.
\<close>

theorem coverage_history_is_consistent:
  assumes "live H empty_snapshot rs = Inr t"
  shows "coverage_inv t"
  using live_inv [OF empty_inv assms] .

theorem coverage_history_is_consistent_witness:
  "live zero_digest empty_snapshot [(start_record, None)] = Inr start_snapshot \<and> coverage_inv start_snapshot"
proof -
  have l: "live zero_digest empty_snapshot [(start_record, None)] = Inr start_snapshot"
    by (simp add: start_prepares start_transition)
  with coverage_history_is_consistent [OF l] show ?thesis by blast
qed

text \<open>
  C8. Recovery loses nothing but the monotonic deadline: whatever receipts the records were applied with,
  a rebuild from the same records succeeds and yields the live snapshot without its deadline.
\<close>

theorem live_application_refines_rebuild:
  assumes "live H empty_snapshot rs = Inr t"
  shows "rebuild H self (map fst rs) = Inr ((fresh_reducer self)\<lparr>cr_snapshot := forget_deadline t\<rparr>)"
  using live_refines_replay [OF assms] by (simp add: rebuild_def)

theorem live_application_refines_rebuild_witness:
  "live zero_digest empty_snapshot [(start_record, None)] = Inr start_snapshot \<and>
    rebuild zero_digest 0 [start_record] = Inr ((fresh_reducer 0)\<lparr>cr_snapshot := forget_deadline start_snapshot\<rparr>)"
proof -
  have l: "live zero_digest empty_snapshot [(start_record, None)] = Inr start_snapshot"
    by (simp add: start_prepares start_transition)
  with live_application_refines_rebuild [OF l, of 0] show ?thesis by simp
qed

text \<open>
  C1. What readiness means: on a consistent snapshot a decision is ready exactly when the reducer is
  usable and at the settled head of every cursor, nothing critical is open, every sequence gap is closed,
  the observer has started and reconciled Docker in a known boot, and a live Falco lease covers the
  decision on the wall clock and on the monotonic clock.
\<close>

theorem ready_means_covered:
  assumes "coverage_inv (cr_snapshot state)" and "mutation_readiness H state ctx = Inr rd"
  shows "rd_ready rd \<longleftrightarrow>
    cr_healthy state \<and> \<not> cr_closed state \<and> context_is_settled state ctx \<and>
    open_critical_intervals (cr_snapshot state) = [] \<and> (\<forall>gap\<in>set (sequence_gaps (cr_snapshot state)). sg_close_source_sequence gap \<noteq> None) \<and>
    boot_transition_sequence (cr_snapshot state) \<noteq> None \<and> docker_generation (cr_snapshot state) \<noteq> None \<and>
    observer_started (cr_snapshot state) \<and> lease_is_live (cr_snapshot state) ctx"
proof (cases "falco_lease (cr_snapshot state)")
  case None
  then show ?thesis
    unfolding mutation_readiness_Inr [OF assms(2)] by (simp add: readiness_Nil [OF assms(1)] lease_is_live_def)
next
  case (Some l)
  have inv: "lease_inv (head_sequence (cr_snapshot state)) (cr_snapshot state)"
    using assms(1) by (simp add: coverage_inv_def inv_upto_def)
  obtain a b where t: "fromisoformat (fl_opened_at l) = Inr a" "fromisoformat (fl_ingest_time l) = Inr b" "a \<le> b" "b - a \<le> LEASE_WINDOW_US"
    and c: "lease_checks (cr_snapshot state) ctx l = Inr \<lparr>lf_after_stop = True,
      lf_ingest_valid = (a \<le> b \<and> b \<le> decision_utc ctx \<and> 0 \<le> b - a \<and> b - a \<le> LEASE_WINDOW_US),
      lf_wall_valid = (0 \<le> decision_utc ctx - a \<and> decision_utc ctx - a \<le> LEASE_WINDOW_US),
      lf_monotonic_valid = (case live_lease_deadline (cr_snapshot state) of None \<Rightarrow> False | Some d \<Rightarrow> float_le (decision_monotonic ctx) d),
      lf_stale = (decision_utc ctx - a > LEASE_WINDOW_US \<or>
        (case live_lease_deadline (cr_snapshot state) of None \<Rightarrow> False | Some d \<Rightarrow> \<not> float_le (decision_monotonic ctx) d))\<rparr>"
    using lease_checks_Inr [OF inv Some, of ctx thesis] by blast
  have "lease_is_live (cr_snapshot state) ctx \<longleftrightarrow> (\<exists>d. live_lease_deadline (cr_snapshot state) = Some d \<and> b \<le> decision_utc ctx \<and>
      decision_utc ctx \<le> a + LEASE_WINDOW_US \<and> float_le (decision_monotonic ctx) d)"
    using t Some by (auto simp: lease_is_live_def)
  then show ?thesis
    unfolding mutation_readiness_Inr [OF assms(2)] Some option.case c
    using t(3,4) by (auto simp: readiness_Nil [OF assms(1)] not_less split: option.splits)
qed

definition ready_lease :: FalcoLeaseRow where
  "ready_lease = \<lparr>fl_source_sequence = 9, fl_event_id = ''evt_'' @ replicate 64 (CHR ''0''),
    fl_opened_at = ''2026-01-02T03:04:05Z'', fl_ingest_time = ''2026-01-02T03:04:06Z''\<rparr>"

definition ready_state :: CoverageReducer where
  "ready_state = (fresh_reducer 0)\<lparr>cr_snapshot := start_snapshot\<lparr>head_sequence := 9, boot_transition_sequence := Some 2, docker_generation := Some 7,
    docker_recoveries := [\<lparr>dr_source_sequence = 5, dr_opened_at = ''2026-01-02T03:04:00Z'', dr_closed_at = ''2026-01-02T03:04:01Z'',
      dr_generation = 7\<rparr>],
    falco_lease := Some ready_lease,
    live_lease_deadline := Some (Fin 114 0)\<rparr>\<rparr>"

definition ready_context :: MutationReadinessContext where
  "ready_context = \<lparr>decision_utc = 1767323050000000, decision_monotonic = Fin 104 0, clock_healthy = True,
    clock_uncertainty_seconds = Some 0, max_clock_uncertainty_seconds = 1, evidence_head = 9, acceptance_cursor = 9, confirmed_through = 9,
    projection_cursor = 9, evidence_healthy = True, repair_pending = False, retention_pending = False, key_healthy = True,
    ack_journal_healthy = True, projection_healthy = True\<rparr>"

lemma ready_times: "fromisoformat ''2026-01-02T03:04:05Z'' = Inr 1767323045000000" "fromisoformat ''2026-01-02T03:04:06Z'' = Inr 1767323046000000"
  by code_simp+

lemma ready_inv: "coverage_inv (cr_snapshot ready_state)"
  by (simp add: ready_state_def start_snapshot_def empty_snapshot_def coverage_inv_def inv_defs ready_lease_def ready_times)

theorem ready_means_covered_witness:
  "coverage_inv (cr_snapshot ready_state) \<and> (\<exists>rd. mutation_readiness zero_digest ready_state ready_context = Inr rd \<and> rd_ready rd)"
proof -
  let ?f = "\<lparr>lf_after_stop = True, lf_ingest_valid = True, lf_wall_valid = True, lf_monotonic_valid = True, lf_stale = False\<rparr>"
  have f: "lease_checks (cr_snapshot ready_state) ready_context ready_lease = Inr ?f"
    and r: "readiness_reasons ready_state ready_context (Some ?f) = []"
    by (simp_all add: lease_checks_def ready_lease_def ready_state_def start_snapshot_def empty_snapshot_def timestamp_us_def ready_times ready_context_def
        readiness_reasons_def add_if_def fresh_reducer_def fin_at_def Let_def)
  let ?p = "coverage_payload ready_state ready_context (Some ?f) []"
  have l: "falco_lease (cr_snapshot ready_state) = Some ready_lease" by (simp add: ready_state_def)
  have "validate_bounded_nested normalized_bounds ?p 1 = Inr ()" by code_simp
  then have "is_ok (encode ?p 0)" using bounded_nested_encodes [of normalized_bounds ?p 0] by simp
  then obtain raw where raw: "canonical_json ?p = Inr raw" by (auto simp: canonical_json_def is_ok_iff)
  have v: "validate_mutation_readiness_context ready_context = Inr ()"
    by (simp add: validate_mutation_readiness_context_def ready_context_def invalid_def float_finite_nonneg_def uint64_def)
  obtain rd where rd: "mutation_readiness zero_digest ready_state ready_context = Inr rd"
    using l f r raw v by (simp add: mutation_readiness_def)
  have "lease_is_live (cr_snapshot ready_state) ready_context"
    by (simp add: lease_is_live_def ready_lease_def ready_state_def ready_times ready_context_def fin_at_def)
  then have "rd_ready rd"
    using ready_means_covered [OF ready_inv rd]
    by (simp add: ready_state_def fresh_reducer_def ready_context_def context_is_settled_def start_snapshot_def empty_snapshot_def)
  with ready_inv rd show ?thesis by blast
qed

text \<open>
  C10. A failed application of either kind, of a stored record or of a live accepted reference, fences the
  reducer for good: the snapshot stays as it was, every further application, live or not, is refused as unhealthy and changes nothing, the acknowledgement barrier is
  neither issued nor answered, and no decision is ready.
\<close>

theorem failed_apply_fences:
  assumes "apply_record H r store record receipt = (r', Some e) \<or> apply_live_accepted H r store ref receipt = (r', Some e)"
    and "cr_healthy r" and "\<not> cr_closed r"
  shows "r' = r\<lparr>cr_healthy := False\<rparr> \<and>
    (\<forall>st rec rcpt. apply_record H r' st rec rcpt = (r', Some (CoverageUnhealthy ''coverage reducer is unhealthy''))) \<and>
    (\<forall>st ref rcpt. apply_live_accepted H r' st ref rcpt = (r', Some (CoverageUnhealthy ''coverage reducer is unhealthy''))) \<and>
    (\<forall>st. ack_barrier_capability r' st = Inl (CoverageUnhealthy ''coverage reducer is unhealthy'')) \<and>
    (\<forall>st b. first_unclosed_sequence_gap r' st b = Inl (CoverageUnhealthy ''coverage reducer is unhealthy'')) \<and>
    (\<forall>ctx rd. mutation_readiness H r' ctx = Inr rd \<longrightarrow> \<not> rd_ready rd)"
proof -
  have r': "r' = r\<lparr>cr_healthy := False\<rparr>"
    using assms by (auto simp: apply_record_def apply_live_accepted_def require_usable_def finish_apply_def split: sum.splits)
  have u: "require_usable r' = Inl (CoverageUnhealthy ''coverage reducer is unhealthy'')" by (simp add: require_usable_def r')
  have "readiness_reasons r' ctx facts \<noteq> []" for ctx facts
    by (simp add: readiness_reasons_def Let_def add_if_Nil r')
  then have "\<forall>ctx rd. mutation_readiness H r' ctx = Inr rd \<longrightarrow> \<not> rd_ready rd"
    by (auto simp: mutation_readiness_Inr split: option.splits)
  then show ?thesis
    using r' u by (simp add: apply_record_def apply_live_accepted_def ack_barrier_capability_def first_unclosed_sequence_gap_def)
qed

theorem failed_apply_fences_witness:
  "(\<exists>e. apply_record zero_digest (fresh_reducer 0) (empty_store [] (\<lambda>_. None) 0) (start_record\<lparr>rec_ref := start_ref\<lparr>frame_size := 0\<rparr>\<rparr>) None =
      ((fresh_reducer 0)\<lparr>cr_healthy := False\<rparr>, Some e)) \<and>
    (\<exists>e. apply_live_accepted zero_digest (fresh_reducer 0) (empty_store [] (\<lambda>_. None) 0) start_ref None =
      ((fresh_reducer 0)\<lparr>cr_healthy := False\<rparr>, Some e))"
proof -
  have k: "exact_coverage_ref_key (start_ref\<lparr>frame_size := 0\<rparr>) = Inl (GrammarError ''coverage evidence ref numeric bounds are invalid'')" by code_simp
  obtain r' e where a: "apply_record zero_digest (fresh_reducer 0) (empty_store [] (\<lambda>_. None) 0) (start_record\<lparr>rec_ref := start_ref\<lparr>frame_size := 0\<rparr>\<rparr>) None = (r', Some e)"
    by (simp add: apply_record_def require_usable_def fresh_reducer_def apply_candidate_def prepare_def as_validation_def k finish_apply_def)
  obtain q e' where b: "apply_live_accepted zero_digest (fresh_reducer 0) (empty_store [] (\<lambda>_. None) 0) start_ref None = (q, Some e')"
    by (simp add: apply_live_accepted_def live_candidate_def require_usable_def fresh_reducer_def finish_apply_def)
  from failed_apply_fences [OF disjI1 [OF a]] failed_apply_fences [OF disjI2 [OF b]] a b show ?thesis by (auto simp: fresh_reducer_def)
qed

lemma generic_effect_counts:
  assumes "generic_effect e cv c is is'" and "distinct (map interval_key is)" and "i \<in> set is" and "ci_dropped_count i = Some k"
  shows "(\<exists>j\<in>set is'. interval_key j = interval_key i \<and> (\<exists>m\<ge>k. ci_dropped_count j = Some m)) \<or>
    (cv_closed_at cv \<noteq> None \<and> interval_key i = generic_key e cv c \<and> (\<exists>m\<ge>k. cv_dropped_count cv = Some m))"
  using assms(1)
proof cases
  case ge_same
  with assms(3,4) show ?thesis by blast
next
  case ge_add
  with assms(3,4) show ?thesis by fastforce
next
  case (ge_update opened updated)
  note o = distinct_key_single [OF assms(2) ge_update(3)] and u = update_interval_Inr [OF ge_update(4)]
  show ?thesis
  proof (cases "interval_key i = generic_key e cv c")
    case True
    then have "i = opened" using o(1) assms(3) by blast
    then obtain m where m: "ci_dropped_count updated = Some m" "k \<le> m" using u(5) assms(4) by blast
    moreover have "updated \<in> set is'" using ge_update(1) assms(3) True by force
    moreover have "interval_key updated = interval_key i" using u(1) \<open>i = opened\<close> by simp
    ultimately show ?thesis by blast
  next
    case False
    then have "i \<in> set is'" using ge_update(1) assms(3) by force
    with assms(4) show ?thesis by blast
  qed
next
  case (ge_remove closed_at opened)
  note o = distinct_key_single [OF assms(2) ge_remove(3)]
  show ?thesis
  proof (cases "interval_key i = generic_key e cv c")
    case True
    then have "i = opened" using o(1) assms(3) by blast
    then show ?thesis using True ge_remove(2,4) assms(4) by auto
  next
    case False
    then have "i \<in> set is'" using ge_remove(1) assms(3) by simp
    with assms(4) show ?thesis by blast
  qed
qed

lemma action_intervals:
  assumes "apply_action s e cov c r = Inr t"
  shows "open_critical_intervals t = open_critical_intervals s \<or>
    (\<exists>cv. cov = Some cv \<and> generic_effect e cv c (open_critical_intervals s) (open_critical_intervals t))"
  using assms
  by (cases "cl_action c")
    (auto simp: apply_action_def apply_docker_open_def apply_docker_recovery_def apply_sequence_gap_open_def
      apply_sequence_gap_close_def result_simps Let_def
      dest!: generic_effect apply_falco_lease_Inr split: option.splits list.splits prod.splits)

text \<open>
  C9. A loss that was counted cannot be hidden: when a record is applied, an open interval that carries a
  drop count either stays open with a count that is not lower, or is closed by a record whose own count
  is not lower, or belongs to a boot that has ended.
\<close>

theorem loss_counts_never_drop:
  assumes "coverage_inv s" and "transition H s p receipt allowed = Inr t"
    and "i \<in> set (open_critical_intervals s)" and "ci_dropped_count i = Some k"
  shows "(\<exists>j\<in>set (open_critical_intervals t). interval_key j = interval_key i \<and> (\<exists>m\<ge>k. ci_dropped_count j = Some m)) \<or>
    (\<exists>cv m. pr_coverage p = Some cv \<and> cv_closed_at cv \<noteq> None \<and> cv_component cv = ci_component i \<and> cv_kind cv = ci_kind i \<and>
      cv_opened_at cv = ci_opened_at i \<and> cv_dropped_count cv = Some m \<and> k \<le> m) \<or>
    (ci_scope_boot_id i \<noteq> None \<and> boot_id s \<noteq> boot_id t)"
proof (cases "i \<in> set (open_critical_intervals (change_boot s (pr_envelope p)))")
  case False
  then have "ci_scope_boot_id i \<noteq> None \<and> boot_id s \<noteq> Some (ev_boot_id (pr_envelope p))"
    using assms(3) by (auto simp: change_boot_def split: if_splits)
  moreover have "boot_id t = Some (ev_boot_id (pr_envelope p))" using assms(2) by (auto simp: transition_Inr)
  ultimately show ?thesis by simp
next
  case True
  obtain c u where u: "apply_action (change_boot s (pr_envelope p)) (pr_envelope p) (pr_coverage p) c receipt = Inr u"
    and t: "open_critical_intervals t = open_critical_intervals u"
    using assms(2) by (auto simp: transition_Inr)
  have d: "distinct (map interval_key (open_critical_intervals (change_boot s (pr_envelope p))))"
  proof -
    have "inv_upto (head_sequence s) (Some (ev_boot_id (pr_envelope p))) (change_boot s (pr_envelope p))"
      by (rule inv_change_boot) (use assms(1) in \<open>simp add: coverage_inv_def\<close>)
    then show ?thesis by (simp add: inv_upto_def interval_inv_def)
  qed
  from action_intervals [OF u] show ?thesis
  proof (elim disjE exE conjE)
    assume "open_critical_intervals u = open_critical_intervals (change_boot s (pr_envelope p))"
    with True t assms(4) show ?thesis by force
  next
    fix cv assume cv: "pr_coverage p = Some cv"
      "generic_effect (pr_envelope p) cv c (open_critical_intervals (change_boot s (pr_envelope p))) (open_critical_intervals u)"
    from generic_effect_counts [OF cv(2) d True assms(4)] show ?thesis
    proof (elim disjE conjE)
      assume "\<exists>j\<in>set (open_critical_intervals u). interval_key j = interval_key i \<and> (\<exists>m\<ge>k. ci_dropped_count j = Some m)"
      with t show ?thesis by simp
    next
      assume "cv_closed_at cv \<noteq> None" "interval_key i = generic_key (pr_envelope p) cv c" "\<exists>m\<ge>k. cv_dropped_count cv = Some m"
      with cv(1) show ?thesis by (auto simp: generic_key_def interval_key_def)
    qed
  qed
qed

definition drop_event :: CoverageEvent where
  "drop_event = \<lparr>cv_component = ''falco-adapter'', cv_kind = ''falco_queue_drop'', cv_severity = ''CRITICAL'',
    cv_opened_at = ''2026-01-01T00:00:00Z'', cv_closed_at = None, cv_affected_start = None, cv_affected_end = None,
    cv_dropped_count = Some 5, cv_reason_code = ''routine_capacity_exceeded'', cv_reconcile_generation = None\<rparr>"

definition drop_prepared :: PreparedRecord where
  "drop_prepared = \<lparr>pr_record = \<lparr>rec_envelope = [], canonical_envelope = [], priority = PROTECTED, accepted_at = [], rec_ref = start_ref\<rparr>,
    pr_envelope = example_coverage_envelope ''coverage'' (coverage_dump drop_event) 4 ''2026-01-01T00:00:00Z'' 0 [''falco_queue_drop''],
    pr_coverage = Some drop_event\<rparr>"

definition drop_interval :: "int \<Rightarrow> CriticalInterval" where
  "drop_interval n = \<lparr>ci_scope_boot_id = Some ''boot'', ci_component = ''falco-adapter'', ci_kind = ''falco_queue_drop'',
    ci_opened_at = ''2026-01-01T00:00:00Z'', ci_source_sequence = 2, ci_latest_source_sequence = 2, ci_reason_code = ''routine_capacity_exceeded'',
    ci_dropped_count = Some n, ci_normalized_fields_sha256 = [], ci_source_payload_hash = []\<rparr>"

definition drop_snapshot :: CoverageSnapshot where
  "drop_snapshot = empty_snapshot\<lparr>host_id := Some ''host'', boot_id := Some ''boot'', head_sequence := 2,
    open_critical_intervals := [drop_interval 3]\<rparr>"

theorem loss_counts_never_drop_witness:
  "coverage_inv drop_snapshot \<and>
    (\<exists>t. transition zero_digest drop_snapshot drop_prepared None False = Inr t \<and>
      (\<exists>j\<in>set (open_critical_intervals t). interval_key j = interval_key (drop_interval 3) \<and> (\<exists>m\<ge>3. ci_dropped_count j = Some m)))"
proof -
  have inv: "coverage_inv drop_snapshot"
    by (simp add: coverage_inv_def inv_defs drop_snapshot_def drop_interval_def empty_snapshot_def)
  have "is_ok (transition zero_digest drop_snapshot drop_prepared None False)" by code_simp
  then obtain t where t: "transition zero_digest drop_snapshot drop_prepared None False = Inr t" by (auto simp: is_ok_iff)
  have i: "drop_interval 3 \<in> set (open_critical_intervals drop_snapshot)" "ci_dropped_count (drop_interval 3) = Some 3"
    by (simp_all add: drop_snapshot_def drop_interval_def)
  have c: "pr_coverage drop_prepared = Some drop_event" "cv_closed_at drop_event = None" by (simp_all add: drop_prepared_def drop_event_def)
  have b: "boot_id drop_snapshot = boot_id t"
    using t by (auto simp: transition_Inr drop_prepared_def example_coverage_envelope_def drop_snapshot_def)
  from loss_counts_never_drop [OF inv t i] b c have "\<exists>j\<in>set (open_critical_intervals t). interval_key j = interval_key (drop_interval 3) \<and> (\<exists>m\<ge>3. ci_dropped_count j = Some m)"
    by auto
  with inv t show ?thesis by blast
qed

end
