(* ===== verification/CoverageBound.thy ===== *)
theory CoverageBound
  imports CoverageProps
begin

text \<open>
  The coverage reducer bound to its evidence store. What the reducer needs of the store is the locale
  \<open>evidence_source\<close>: a record it is handed is the next one of a fixed history. The index of
  \<open>EvidenceStore\<close> interprets it, and the reachable states of the two objects together are an inductive
  relation whose invariant says that the reducer's snapshot is the replay of a prefix of the store.
\<close>

section \<open>What the reducer needs of a store\<close>

locale evidence_source =
  fixes good :: "'s \<Rightarrow> bool"
    and history :: "'s \<Rightarrow> StoredEvidenceRecord list"
    and next_record :: "'s \<Rightarrow> StoredEvidenceRecord \<Rightarrow> EvidenceRef option \<Rightarrow> 'e + StoredEvidenceRecord"
  assumes next_is_next: "good s \<Longrightarrow> next_record s r after = Inr r' \<Longrightarrow> \<exists>xs ys. history s = xs @ r' # ys \<and> seen_through after xs"
    and refs_distinct: "good s \<Longrightarrow> distinct (map rec_ref (history s))"
begin

lemma seen_is_prefix:
  assumes "good s" and "n \<le> length (history s)" and "replay H empty_snapshot (take n (history s)) = Inr t"
    and "history s = xs @ r # ys" and "seen_through (head_ref t) xs"
  shows "xs = take n (history s)"
proof (cases "n = 0")
  case True
  with assms(3,5) show ?thesis by (auto simp: seen_through_def empty_snapshot_def)
next
  case False
  then have ne: "take n (history s) \<noteq> []" using assms(2) by (cases "history s") auto
  then have "last (take n (history s)) = history s ! (n - 1)" using assms(2) by (simp add: last_conv_nth)
  with replay_head [OF assms(3) ne] assms(5) have x: "xs \<noteq> []" "rec_ref (last xs) = rec_ref (history s ! (n - 1))"
    by (auto simp: seen_through_def)
  have "last xs = history s ! (length xs - 1)" using x(1) assms(4) by (simp add: last_conv_nth nth_append)
  moreover have b: "length xs - 1 < length (history s)" "n - 1 < length (history s)" using assms(2,4) False by auto
  ultimately have "map rec_ref (history s) ! (length xs - 1) = map rec_ref (history s) ! (n - 1)"
    using x(2) by (simp only: nth_map)
  then have "length xs - 1 = n - 1"
    using nth_eq_iff_index_eq [OF refs_distinct [OF assms(1)], of "length xs - 1" "n - 1"] b by (simp only: length_map)
  then have "length xs = n" using False x(1) by (cases xs) simp_all
  then show ?thesis using assms(4) by simp
qed

lemma next_extends_replay:
  assumes "good s" and "n \<le> length (history s)" and "replay H empty_snapshot (take n (history s)) = Inr (forget_deadline t)"
    and "next_record s r (head_ref t) = Inr r'" and "prepare H r' = Inr p" and "transition H t p receipt True = Inr t'"
  shows "Suc n \<le> length (history s) \<and> replay H empty_snapshot (take (Suc n) (history s)) = Inr (forget_deadline t')"
proof -
  obtain xs ys where h: "history s = xs @ r' # ys" and seen: "seen_through (head_ref t) xs"
    using next_is_next [OF assms(1,4)] by blast
  have xs: "xs = take n (history s)" by (rule seen_is_prefix [OF assms(1-3) h]) (simp add: seen)
  have n: "length xs = n" using arg_cong [OF xs, of length] assms(2) by simp
  have t: "take (Suc n) (history s) = xs @ [r']" unfolding h n [symmetric] by simp
  have "replay H empty_snapshot (xs @ [r']) = Inr (forget_deadline t')"
    using assms(3,5) forget_transition [OF assms(6)] by (simp add: xs [symmetric] replay_append)
  moreover have "Suc n \<le> length (history s)" unfolding h using n by simp
  ultimately show ?thesis unfolding t by blast
qed

end

section \<open>The store provides it\<close>

definition own_history :: "SegmentStore \<Rightarrow> StoredEvidenceRecord list" where
  "own_history store = host_records store (ss_host_id store)"

lemma own_history_distinct: "store_wf store \<Longrightarrow> distinct (map rec_ref (own_history store))"
proof -
  assume "store_wf store"
  then have "distinct (map rec_sequence (own_history store))" using host_sequences(2) strict_sorted_iff by (auto simp: own_history_def)
  then show ?thesis by (auto simp: distinct_map rec_sequence_def inj_on_def)
qed

interpretation owned: evidence_source store_wf own_history
  "\<lambda>store r after. resolve_next_coverage_record store owner lifecycle r after" for owner lifecycle
proof unfold_locales
  fix store r after r'
  assume "store_wf store" "resolve_next_coverage_record store owner lifecycle r after = Inr r'"
  then show "\<exists>xs ys. own_history store = xs @ r' # ys \<and> seen_through after xs" unfolding own_history_def by (rule resolve_next_Inr(1))
qed (rule own_history_distinct)

section \<open>Reachable states\<close>

text \<open>
  One step of the pair of reducer and store: an application of either kind, whether it fails or not, the
  store taking in further records, all of them or those before an error, while its verifier's accepted
  references move on, or the close of the reducer by itself or by its store. The removal of routine
  records by retention is not a step.
\<close>

inductive bound_step :: "(bytes \<Rightarrow> bytes) \<Rightarrow> CoverageReducer \<times> SegmentStore \<Rightarrow> CoverageReducer \<times> SegmentStore \<Rightarrow> bool" for H where
  bs_apply: "apply_record H r store record receipt = (r', e) \<Longrightarrow> bound_step H (r, store) (r', store)"
| bs_live: "apply_live_accepted H r store ref receipt = (r', e) \<Longrightarrow> bound_step H (r, store) (r', store)"
| bs_grow: "add_records store records = (store', error) \<Longrightarrow>
    bound_step H (r, store) (r, store'\<lparr>ss_accepted := accepted, ss_last_sequence := last_sequence\<rparr>)"
| bs_close: "close_reducer r store = ((r', e), store') \<Longrightarrow> bound_step H (r, store) (r', store')"
| bs_close_store: "close_from_segment_store r store lifecycle = ((r', e), store') \<Longrightarrow> bound_step H (r, store) (r', store')"

inductive bound_steps :: "(bytes \<Rightarrow> bytes) \<Rightarrow> CoverageReducer \<times> SegmentStore \<Rightarrow> CoverageReducer \<times> SegmentStore \<Rightarrow> bool" for H where
  bs_refl: "bound_steps H x x"
| bs_step: "bound_steps H x y \<Longrightarrow> bound_step H y z \<Longrightarrow> bound_steps H x z"

inductive_cases bound_stepE: "bound_step H (r, store) y"

definition follows :: "(bytes \<Rightarrow> bytes) \<Rightarrow> CoverageReducer \<times> SegmentStore \<Rightarrow> bool" where
  "follows H x \<longleftrightarrow> store_wf (snd x) \<and>
    (\<exists>n \<le> length (own_history (snd x)). replay H empty_snapshot (take n (own_history (snd x))) = Inr (forget_deadline (cr_snapshot (fst x))))"

text \<open>What one application does: either the snapshot stays, or it takes the next record.\<close>

lemma apply_record_cases:
  assumes "apply_record H r store record receipt = (r', e)" and "cr_evidence r \<noteq> None"
  shows "(cr_snapshot r' = cr_snapshot r \<or>
      (\<exists>owner lifecycle r1 p. resolve_next_coverage_record store owner lifecycle record (head_ref (cr_snapshot r)) = Inr r1 \<and>
        prepare H r1 = Inr p \<and> transition H (cr_snapshot r) p receipt True = Inr (cr_snapshot r'))) \<and>
    cr_evidence r' = cr_evidence r"
  using assms
  by (auto simp: apply_record_def finish_apply_def apply_candidate_def result_simps split: sum.splits option.splits)

lemma apply_live_cases:
  assumes "apply_live_accepted H r store ref receipt = (r', e)"
  shows "(cr_snapshot r' = cr_snapshot r \<or>
      (\<exists>owner lifecycle r0 r1 p rc. resolve_next_coverage_record store owner lifecycle r0 (head_ref (cr_snapshot r)) = Inr r1 \<and>
        prepare H r1 = Inr p \<and> transition H (cr_snapshot r) p rc True = Inr (cr_snapshot r'))) \<and>
    cr_evidence r' = cr_evidence r"
  using assms
  by (auto simp: apply_live_accepted_def finish_apply_def live_candidate_def result_simps Let_def split: sum.splits option.splits if_splits)

lemma follows_next:
  assumes "follows H (r, store)" and "resolve_next_coverage_record store owner lifecycle r0 (head_ref (cr_snapshot r)) = Inr r1"
    and "prepare H r1 = Inr p" and "transition H (cr_snapshot r) p rc True = Inr (cr_snapshot r')"
  shows "follows H (r', store)"
proof -
  obtain n where n: "store_wf store" "n \<le> length (own_history store)"
    "replay H empty_snapshot (take n (own_history store)) = Inr (forget_deadline (cr_snapshot r))"
    using assms(1) by (auto simp: follows_def)
  from owned.next_extends_replay [OF n assms(2-4)] n(1) show ?thesis unfolding follows_def fst_conv snd_conv by blast
qed

lemma add_records_history:
  assumes "store_wf store" and "add_records store records = (store', e)"
  shows "\<exists>more. own_history store' = own_history store @ more"
  using add_records_wf [OF assms] add_records_keeps [OF assms(2)] by (auto simp: own_history_def host_records_def)

lemma own_history_update [simp]: "own_history (store\<lparr>ss_accepted := a, ss_last_sequence := l\<rparr>) = own_history store"
  by (simp add: own_history_def host_records_def)

lemma store_wf_update [simp]: "store_wf (store\<lparr>ss_accepted := a, ss_last_sequence := l\<rparr>) = store_wf store"
  by (simp add: store_wf_def host_records_def)

lemma store_wf_owner [simp]: "store_wf (store\<lparr>ss_coverage_state_owner := o'\<rparr>) = store_wf store"
  by (simp add: store_wf_def host_records_def)

lemma own_history_owner [simp]: "own_history (store\<lparr>ss_coverage_state_owner := o'\<rparr>) = own_history store"
  by (simp add: own_history_def host_records_def)

text \<open>A closed reducer is unbound, but takes nothing in any more.\<close>

lemma apply_closed:
  "cr_closed r \<Longrightarrow> apply_record H r store record receipt = (r', e) \<Longrightarrow> r' = r"
  "cr_closed r \<Longrightarrow> apply_live_accepted H r store ref receipt = (r', e) \<Longrightarrow> r' = r"
  by (auto simp: apply_record_def apply_live_accepted_def require_usable_def split: if_splits)

lemma close_cases:
  assumes "close_reducer r store = ((r', e), store') \<or> close_from_segment_store r store lifecycle = ((r', e), store')"
  shows "cr_snapshot r' = cr_snapshot r" "r' = r \<or> cr_closed r'" "store' = store \<or> store' = store\<lparr>ss_coverage_state_owner := None\<rparr>"
  using assms
  by (auto simp: close_reducer_def close_from_segment_store_def invalidate_def release_coverage_state_def split: if_splits option.splits sum.splits)

lemma bound_step_follows:
  assumes "bound_step H x y" and "follows H x" and "cr_evidence (fst x) \<noteq> None \<or> cr_closed (fst x)"
  shows "follows H y \<and> (cr_evidence (fst y) \<noteq> None \<or> cr_closed (fst y))"
  using assms(1)
proof cases
  case (bs_apply r store rcd receipt r' e)
  show ?thesis
  proof (cases "cr_closed r")
    case True
    with apply_closed(1) [OF True bs_apply(3)] assms(2) bs_apply(1,2) show ?thesis by simp
  next
    case False
    have same: "follows H (r', store)" if "cr_snapshot r' = cr_snapshot r"
      using assms(2) that bs_apply(1) by (simp add: follows_def)
    from apply_record_cases [OF bs_apply(3)] assms(3) False bs_apply(1,2) same follows_next [of H r store _ _ rcd _ _ receipt r'] assms(2)
    show ?thesis by auto
  qed
next
  case (bs_live r store ref receipt r' e)
  show ?thesis
  proof (cases "cr_closed r")
    case True
    with apply_closed(2) [OF True bs_live(3)] assms(2) bs_live(1,2) show ?thesis by simp
  next
    case False
    have same: "follows H (r', store)" if "cr_snapshot r' = cr_snapshot r"
      using assms(2) that bs_live(1) by (simp add: follows_def)
    from apply_live_cases [OF bs_live(3)] assms(3) False bs_live(1,2) same follows_next [of H r store _ _ _ _ _ _ r'] assms(2)
    show ?thesis by auto
  qed
next
  case (bs_grow store records store' error r accepted last_sequence)
  from assms(2) obtain n where n: "store_wf store" "n \<le> length (own_history store)"
    "replay H empty_snapshot (take n (own_history store)) = Inr (forget_deadline (cr_snapshot r))"
    by (auto simp: follows_def bs_grow(1))
  have "take n (own_history store') = take n (own_history store)" "n \<le> length (own_history store')"
    using add_records_history [OF n(1) bs_grow(3)] n(2) by auto
  with n add_records_wf [OF n(1) bs_grow(3)] have "follows H y" by (auto simp: follows_def bs_grow(2))
  with assms(3) bs_grow(1,2) show ?thesis by simp
next
  case (bs_close r store r' e store')
  note c = close_cases [OF disjI1 [OF bs_close(3)]]
  from c assms(2,3) bs_close(1,2) show ?thesis by (auto simp: follows_def)
next
  case (bs_close_store r store lifecycle r' e store')
  note c = close_cases [OF disjI2 [OF bs_close_store(3)]]
  from c assms(2,3) bs_close_store(1,2) show ?thesis by (auto simp: follows_def)
qed

lemma bound_steps_follows:
  assumes "bound_steps H x y" and "follows H x" and "cr_evidence (fst x) \<noteq> None \<or> cr_closed (fst x)"
  shows "follows H y \<and> (cr_evidence (fst y) \<noteq> None \<or> cr_closed (fst y))"
  using assms by (induction rule: bound_steps.induct) (auto dest: bound_step_follows)

lemma replay_forget: "replay H s rs = Inr t \<Longrightarrow> replay H (forget_deadline s) rs = Inr (forget_deadline t)"
proof (induction rs arbitrary: s)
  case (Cons r rs)
  then obtain p u where "prepare H r = Inr p" "transition H s p None False = Inr u" "replay H u rs = Inr t" by (auto simp: result_simps)
  with Cons.IH forget_transition show ?case by simp
qed simp

lemma replay_results_Inr:
  "replay_results H s results = Inr t \<Longrightarrow> \<exists>rs. results = map Inr rs \<and> replay H s rs = Inr t"
proof (induction results arbitrary: s)
  case (Cons x xs)
  then obtain r p u where x: "x = Inr r" "prepare H r = Inr p" "transition H s p None False = Inr u" "replay_results H u xs = Inr t"
    by (cases x) (auto simp: result_simps)
  from Cons.IH [OF x(4)] obtain rs where "xs = map Inr rs" "replay H u rs = Inr t" by blast
  with x show ?case by (intro exI [of _ "r # rs"]) simp
qed simp

lemma resolve_sequence_stored:
  assumes "store_wf store" and "h \<in> set (own_history store)" and "resolve_sequence store (rec_sequence h) = Inr r"
  shows "r = h"
proof -
  obtain ix where ix: "ss_index store (ss_host_id store, rec_sequence h) = Some ix" "resolve_authenticated_ref store (snd ix) = Inr r"
    using assms(3) by (auto simp: resolve_sequence_def split: option.splits)
  note res = resolve_Inr [OF assms(1) ix(2)]
  obtain i where i: "ss_record_positions store (ss_host_id store, rec_sequence h) = Some i" "snd ix = rec_ref (ss_records store ! i)"
    using ix(1) store_wf_index [OF assms(1)] by auto
  then have "rec_sequence r = rec_sequence h"
    using store_wf_positions [OF assms(1)] res(2) by (auto simp: rec_sequence_def)
  moreover have "distinct (map rec_sequence (own_history store))"
    using host_sequences(2) [OF assms(1)] strict_sorted_iff by (auto simp: own_history_def)
  ultimately show ?thesis using res(1) assms(2) by (auto simp: distinct_map own_history_def dest: inj_onD)
qed

lemma iter_Inr:
  assumes "store_wf store" and "iter_authenticated_records store 0 None = map Inr rs"
  shows "rs = own_history store"
proof -
  have req: "require_authenticated_recovered store = Inr ()"
    using assms(2) by (cases "require_authenticated_recovered store") (auto simp: iter_authenticated_records_def)
  have "bisect_right (ss_sequences_by_host store (ss_host_id store)) 0 = 0"
    using bisect_right_records [OF assms(1), of "ss_host_id store" "[]" _ 0] host_sequences(3) [OF assms(1)] by simp
  then have m: "map (resolve_sequence store \<circ> rec_sequence) (own_history store) = map Inr rs"
    using assms(2) req host_sequences(1) [OF assms(1)] by (simp add: iter_authenticated_records_def own_history_def)
  then have len: "length rs = length (own_history store)" using map_eq_imp_length_eq by metis
  show ?thesis
  proof (rule nth_equalityI [OF len])
    fix i assume i: "i < length rs"
    then have "resolve_sequence store (rec_sequence (own_history store ! i)) = Inr (rs ! i)"
      using arg_cong [OF m, of "\<lambda>l. l ! i"] len by simp
    then show "rs ! i = own_history store ! i" using resolve_sequence_stored [OF assms(1)] i len by simp
  qed
qed

lemma open_follows:
  assumes "store_wf store" and "open_and_recover H self token store = (Inr r, store')"
  shows "follows H (r, store') \<and> cr_evidence r = Some (ss_self store) \<and> own_history store' = own_history store"
proof -
  obtain lifecycle owned_store where a: "acquire_coverage_state store self = Inr (lifecycle, owned_store)"
    and b: "recover_bound H self token lifecycle owned_store = Inr r" and s': "store' = owned_store"
    using assms(2) by (auto simp: open_and_recover_def split: sum.splits prod.splits)
  have o: "owned_store = store\<lparr>ss_coverage_state_owner := Some self\<rparr>"
    using a by (auto simp: acquire_coverage_state_def result_simps split: if_splits)
  then have wf: "store_wf owned_store" and oh: "own_history owned_store = own_history store"
    using assms(1) by simp_all
  obtain s where s: "replay_results H empty_snapshot (iter_authenticated_records owned_store 0 None) = Inr s"
    and r: "cr_snapshot r = s" "cr_evidence r = Some (ss_self owned_store)"
    using b by (auto simp: recover_bound_def result_simps fresh_reducer_def)
  obtain rs where rs: "iter_authenticated_records owned_store 0 None = map Inr rs" "replay H empty_snapshot rs = Inr s"
    using replay_results_Inr [OF s] by blast
  have "rs = own_history owned_store" by (rule iter_Inr [OF wf rs(1)])
  moreover have "replay H empty_snapshot rs = Inr (forget_deadline s)"
    using replay_forget [OF rs(2)] by simp
  ultimately have "follows H (r, store')" using wf r(1) s' by (auto simp: follows_def intro!: exI [of _ "length rs"])
  with oh o r(2) s' show ?thesis by simp
qed


section \<open>Properties\<close>

text \<open>
  C2. A bound reducer never diverges from its store: in every state reachable from a recovery, by
  applications that succeed or fail, by the store taking in further records or failing to, and by closing
  the reducer, the reducer's snapshot without its deadline is exactly what a rebuild of a prefix of the store's own records yields.
\<close>

theorem bound_reducer_is_replay_of_store:
  assumes "store_wf store0" and "open_and_recover H self token store0 = (Inr r0, store1)"
    and "bound_steps H (r0, store1) (r, store)"
  shows "\<exists>n \<le> length (own_history store).
    rebuild H self (take n (own_history store)) = Inr ((fresh_reducer self)\<lparr>cr_snapshot := forget_deadline (cr_snapshot r)\<rparr>)"
proof -
  have "follows H (r, store)"
    using bound_steps_follows [OF assms(3)] open_follows [OF assms(1,2)] by simp
  then show ?thesis by (auto simp: follows_def rebuild_def)
qed

theorem bound_reducer_is_replay_of_store_witness:
  "\<exists>store0 r0 store1. add_records (empty_store ''00000000-0000-4000-8000-000000000000'' (\<lambda>_. Some start_ref) 1) [start_record] = (store0, None) \<and>
    open_and_recover zero_digest 5 6 store0 = (Inr r0, store1) \<and> cr_snapshot r0 = start_snapshot \<and>
    (\<exists>n \<le> length (own_history store1).
      rebuild zero_digest 5 (take n (own_history store1)) = Inr ((fresh_reducer 5)\<lparr>cr_snapshot := forget_deadline start_snapshot\<rparr>))"
proof -
  let ?host = "''00000000-0000-4000-8000-000000000000''"
  let ?empty = "empty_store ?host (\<lambda>_. Some start_ref) 1"
  have h: "rec_host start_record = ?host" unfolding rec_host_def start_record_def StoredEvidenceRecord.select_convs by code_simp
  have q: "rec_sequence start_record = 1" "rec_ref start_record = start_ref" by (simp_all add: rec_sequence_def start_record_def start_ref_def)
  obtain store0 where a: "add_records ?empty [start_record] = (store0, None)" by (simp add: empty_store_def h q Let_def)
  have wf: "store_wf store0" and recs: "ss_records store0 = [start_record]"
    using add_records_all [OF empty_store_wf a] by (simp_all add: empty_store_def)
  have k: "ss_host_id store0 = ?host" "ss_accepted store0 = (\<lambda>_. Some start_ref)" "require_authenticated_recovered store0 = Inr ()"
    using add_records_keeps [OF a] by (simp_all add: empty_store_def require_authenticated_recovered_def)
  have own: "ss_coverage_state_owner store0 = None" "ss_last_sequence store0 = 1" using a by (auto simp: empty_store_def h q Let_def)
  let ?owned = "store0\<lparr>ss_coverage_state_owner := Some 5\<rparr>"
  have hist: "own_history ?owned = [start_record]" using recs k(1) h by (simp add: own_history_def host_records_def)
  have auth: "store_authenticated ?owned" "require_authenticated_recovered ?owned = Inr ()"
    using wf hist k(2,3) q by (simp_all add: store_authenticated_def own_history_def require_authenticated_recovered_def split: if_splits)
  have it: "iter_authenticated_records ?owned 0 None = [Inr start_record]" using iter_all [OF auth] hist by (simp add: own_history_def)
  have key: "exact_coverage_ref_key start_ref = Inr start_ref" by code_simp
  have res: "resolve_authenticated_ref ?owned start_ref = Inr start_record"
    using resolve_stored(1) [OF auth, of start_record] hist q by (simp add: own_history_def)
  have head: "head_ref start_snapshot = Some start_ref" by (simp add: start_snapshot_def)
  have val: "validate_coverage_state_owner ?owned 5 (ss_lifecycle_identity store0) (Some start_ref) = Inr (Some start_ref)"
    using auth(2) key res own k(2) by (simp add: validate_coverage_state_owner_def or_raise_def)
  obtain r0 where o: "open_and_recover zero_digest 5 6 store0 = (Inr r0, ?owned)" "cr_snapshot r0 = start_snapshot"
    using own k(3) it val head
    by (simp add: open_and_recover_def acquire_coverage_state_def recover_bound_def start_prepares start_transition)
  from bound_reducer_is_replay_of_store [OF wf o(1) bs_refl] a o show ?thesis by auto
qed

end
