(* ===== verification/Incidents.thy ===== *)
theory Incidents
  imports PccContracts
begin

text \<open>
  The facts of \<open>core/agmind_immune/incidents/models.py\<close>: \<open>IncidentV1\<close> and \<open>ContainmentCandidateV1\<close> with their
  field validators and the identity checks of their model validators. These models are built from Python
  values: an array is an immutable tuple (\<open>JArr\<close>), and a list is any other value. Shown here: what an
  accepted fact is bound to, and that a candidate identifier fixes the candidate's identity.
\<close>

section \<open>Definitions\<close>

subsection \<open>Shared validators\<close>

definition incident_utf8 :: "str \<Rightarrow> str \<Rightarrow> int \<Rightarrow> contract_error + unit" where
  "incident_utf8 value field_name maximum =
    rbind (check (utf8_ok value) (field_name @ '' must be valid UTF-8'')) (\<lambda>_.
      check (1 \<le> int (length value) \<and> int (length value) \<le> maximum) (field_name @ '' must be bounded UTF-8 bytes''))"

definition incident_ascii :: "str \<Rightarrow> str \<Rightarrow> int \<Rightarrow> contract_error + unit" where
  "incident_ascii value field_name maximum =
    rbind (check (list_all (\<lambda>c. (of_char c :: nat) < 128) value) (field_name @ '' must be ASCII'')) (\<lambda>_.
    rbind (check (1 \<le> int (length value) \<and> int (length value) \<le> maximum) (field_name @ '' must be bounded ASCII bytes'')) (\<lambda>_.
      check (list_all (\<lambda>c. 0x20 \<le> (of_char c :: nat) \<and> (of_char c :: nat) \<le> 0x7E) value) (field_name @ '' must contain printable ASCII'')))"

definition incident_timestamp :: "str \<Rightarrow> str \<Rightarrow> contract_error + unit" where
  "incident_timestamp value field_name =
    rbind (check (timestamp_fullmatch value \<noteq> None) (field_name @ '' must be RFC3339Nano UTC ending in Z'')) (\<lambda>_.
      check (is_ok (fromisoformat value)) (field_name @ '' must be a valid RFC3339Nano timestamp''))"

definition incident_ipv4 :: "str \<Rightarrow> contract_error + unit" where
  "incident_ipv4 value =
    (case IPv4Address value of
       Inl _ \<Rightarrow> Inl (ContractValue ''destination_ipv4 must be canonical dotted decimal'')
     | Inr parsed \<Rightarrow> check (v4_str parsed = value) ''destination_ipv4 must be canonical dotted decimal'')"

text \<open>A field of type \<open>tuple[str, ...]\<close> behind \<open>_exact_tuple\<close>.\<close>

definition tuple_field :: "str \<Rightarrow> (str list \<Rightarrow> contract_error + unit) \<Rightarrow> validator" where
  "tuple_field field_name f v =
    (case v of
       JArr vs \<Rightarrow> (case str_items vs of Some values \<Rightarrow> f values | None \<Rightarrow> type_error)
     | _ \<Rightarrow> Inl (ContractValue (field_name @ '' must be an immutable tuple'')))"

definition canonical_strings :: "str list \<Rightarrow> str \<Rightarrow> int \<Rightarrow> int \<Rightarrow> bool \<Rightarrow> contract_error + unit" where
  "canonical_strings values field_name maximum_items maximum_item_bytes ascii_only =
    rbind (check (int (length values) \<le> maximum_items) (field_name @ '' has too many entries'')) (\<lambda>_.
    rbind (sorted_unique values field_name) (\<lambda>_.
      each (\<lambda>value. if ascii_only then incident_ascii value field_name maximum_item_bytes
        else incident_utf8 value field_name maximum_item_bytes) values))"

definition incident_event_ids :: "str list \<Rightarrow> str \<Rightarrow> int \<Rightarrow> contract_error + unit" where
  "incident_event_ids values field_name maximum_items =
    rbind (check (1 \<le> int (length values) \<and> int (length values) \<le> maximum_items) (field_name @ '' must contain event IDs'')) (\<lambda>_.
    rbind (sorted_unique values field_name) (\<lambda>_.
      check (list_all (hex_id ''evt_'' 64) values) (field_name @ '' must contain exact event IDs'')))"

definition CORRELATION_REASON_CODES :: "str list" where
  "CORRELATION_REASON_CODES =
    [''detector_not_pinned'', ''connect_not_successful'', ''sensor_fields_incomplete'', ''authoritative_identity_incomplete'',
     ''investigation_only'', ''detector_bundle_not_pinned'', ''mutation_read_only'', ''reconcile_required'', ''docker_reconcile_gap'',
     ''routine_drop_pending'', ''inventory_stale'', ''docker_network_snapshot_unavailable'', ''docker_network_snapshot_overflow'',
     ''detector_bundle_unavailable'', ''special_use_registry_unavailable'', ''operator_denylist_unavailable'',
     ''management_denylist_unavailable'', ''container_not_running'', ''container_identity_changed'', ''observer_boot_changed'',
     ''event_stale'', ''clock_uncertain'', ''historical_coverage_incomplete'', ''critical_coverage_gap'', ''correlation_proof_mismatch'',
     ''destination_not_public'', ''docker_destination'', ''operator_destination'', ''management_destination'', ''target_not_running'',
     ''shared_network_namespace'', ''unsupported_network_mode'', ''unsupported_network_driver'', ''privileged_target'',
     ''target_cap_net_admin'', ''ttl_out_of_bounds'', ''candidate_cooldown'']"

definition reasons_are_canonical :: "str list \<Rightarrow> contract_error + unit" where
  "reasons_are_canonical values =
    rbind (check (list_all (\<lambda>v. v \<in> set CORRELATION_REASON_CODES) values) ''literal_error'') (\<lambda>_.
      check (values = sort (remdups values)) ''reason_codes must be unique and sorted'')"

subsection \<open>Incidents\<close>

definition INCIDENT_OPTIONAL_FIELDS :: "str list" where
  "INCIDENT_OPTIONAL_FIELDS =
    [''docker_container_id'', ''docker_started_at'', ''proc_name'', ''proc_exe_path'', ''proc_parent_name'', ''destination_ipv4'',
     ''destination_port'', ''l4_protocol'']"

abbreviation incident_text :: "str \<Rightarrow> validator" where
  "incident_text name \<equiv> str_field (\<lambda>s. incident_utf8 s name 512)"
abbreviation incident_enum :: "str \<Rightarrow> validator" where
  "incident_enum name \<equiv> str_field (\<lambda>s. incident_ascii s name 64)"
abbreviation incident_time :: "str \<Rightarrow> validator" where
  "incident_time name \<equiv> str_field (\<lambda>s. incident_timestamp s name)"
abbreviation incident_digest :: validator where
  "incident_digest \<equiv> text_field HEX64 ''field must be 64 lowercase hex''"

definition IncidentV1_fields :: "field_spec list" where
  "IncidentV1_fields =
    [required ''schema_version'' (literal [''agmind.incident.v1'']),
     required ''incident_id'' (text_field (hex_id ''inc_'' 64) ''incident_id must be an exact incident ID''),
     required ''primary_event_id'' (text_field (hex_id ''evt_'' 64) ''primary_event_id must be an exact event ID''),
     required ''primary_source_sequence'' (int_field 1 MAX_UINT64),
     required ''host_id'' (text_field UUID4 ''host_id must be a lowercase UUIDv4''),
     required ''boot_id'' (text_field UUID4 ''boot_id must be a lowercase UUIDv4''),
     required ''detector_rule'' (incident_text ''detector_rule''),
     required ''detector_rule_version'' (incident_enum ''detector_rule_version''),
     required ''event_time'' (incident_time ''event_time''),
     required ''ingest_time'' (incident_time ''ingest_time''),
     required ''successful_connect'' bool_field,
     required ''investigation_only'' bool_field,
     option_field ''docker_container_id'' (text_field HEX64 ''docker_container_id must be 64 lowercase hex''),
     option_field ''docker_started_at'' (incident_time ''docker_started_at''),
     option_field ''proc_name'' (incident_text ''proc_name''),
     option_field ''proc_exe_path'' (incident_text ''proc_exe_path''),
     option_field ''proc_parent_name'' (incident_text ''proc_parent_name''),
     option_field ''destination_ipv4'' (str_field incident_ipv4),
     option_field ''destination_port'' (int_field 1 65535),
     option_field ''l4_protocol'' (incident_enum ''l4_protocol''),
     required ''missing_required_fields'' (tuple_field ''missing_required_fields'' (\<lambda>vs. canonical_strings vs ''missing_required_fields'' 32 64 True)),
     required ''coverage_flags'' (tuple_field ''coverage_flags'' (\<lambda>vs. canonical_strings vs ''coverage_flags'' 64 64 True)),
     required ''evidence_ids'' (tuple_field ''evidence_ids'' (\<lambda>vs. incident_event_ids vs ''evidence_ids'' 2)),
     required ''reason_codes'' (tuple_field ''reason_codes'' reasons_are_canonical),
     required ''authority_event_id'' (text_field (hex_id ''evt_'' 64) ''authority_event_id must be an exact event ID'')]"

definition identity_and_authority_are_exact :: "(bytes \<Rightarrow> bytes) \<Rightarrow> document \<Rightarrow> contract_error + unit" where
  "identity_and_authority_are_exact H doc =
    (let primary = get_str doc ''primary_event_id''; authority = get_str doc ''authority_event_id'' in
     rbind (check (\<not> list_ex (\<lambda>name. in_fields_set doc name \<and> doc_get doc name = JNull) INCIDENT_OPTIONAL_FIELDS)
       ''optional field must be absent rather than null'') (\<lambda>_.
     rbind (lift_ident (incident_id H primary)) (\<lambda>expected.
     rbind (check (expected = get_str doc ''incident_id'') ''incident_id does not bind primary_event_id'') (\<lambda>_.
       check (get_strs doc ''evidence_ids'' = (if authority = primary then [primary] else sort [primary, authority]))
         ''evidence_ids do not bind the exact incident authority''))))"

definition valid_IncidentV1 :: "(bytes \<Rightarrow> bytes) \<Rightarrow> document \<Rightarrow> contract_error + document" where
  "valid_IncidentV1 H = model_validate IncidentV1_fields (identity_and_authority_are_exact H)"

subsection \<open>Containment candidates\<close>

definition ContainmentCandidateV1_fields :: "field_spec list" where
  "ContainmentCandidateV1_fields =
    [required ''schema_version'' (literal [''agmind.containment-candidate.v1'']),
     required ''candidate_id'' (text_field (hex_id ''cand_'' 64) ''candidate_id must be an exact candidate ID''),
     required ''incident_id'' (text_field (hex_id ''inc_'' 64) ''incident_id must be an exact incident ID''),
     required ''host_id'' (text_field UUID4 ''host_id must be a lowercase UUIDv4''),
     required ''boot_id'' (text_field UUID4 ''boot_id must be a lowercase UUIDv4''),
     required ''primary_event_id'' (text_field (hex_id ''evt_'' 64) ''primary_event_id must be an exact event ID''),
     required ''primary_source_sequence'' (int_field 1 MAX_UINT64),
     required ''correlation_snapshot_event_id'' (text_field (hex_id ''evt_'' 64) ''correlation_snapshot_event_id must be an exact event ID''),
     required ''docker_container_id'' (text_field HEX64 ''docker_container_id must be 64 lowercase hex''),
     required ''docker_started_at'' (incident_time ''docker_started_at''),
     required ''image_id'' (text_field (hex_id ''sha256:'' 64) ''image_id must be an immutable Docker image ID''),
     required ''repo_digests'' (tuple_field ''repo_digests'' (\<lambda>vs. canonical_strings vs ''repo_digests'' 16 256 False)),
     required ''immutable_spec_sha256'' incident_digest,
     required ''inventory_generation'' (int_field 1 MAX_UINT64),
     required ''inventory_revision'' (int_field 1 MAX_UINT64),
     required ''destination_ipv4'' (str_field incident_ipv4),
     required ''destination_port'' (int_field 1 65535),
     required ''l4_protocol'' (incident_enum ''l4_protocol''),
     required ''ttl_seconds'' (int_field 30 300),
     required ''detector_rule'' (literal [''AGmind PCC Suspicious Process Outbound Connect'']),
     required ''detector_rule_version'' (literal [''agmind-pcc-rules-v1'']),
     required ''detector_bundle_sha256'' incident_digest,
     required ''coverage_snapshot_sha256'' incident_digest,
     required ''docker_network_snapshot_sha256'' incident_digest,
     required ''special_use_registry_sha256'' incident_digest,
     required ''operator_denylist_sha256'' incident_digest,
     required ''management_denylist_sha256'' incident_digest,
     required ''evidence_ids'' (tuple_field ''evidence_ids'' (\<lambda>vs. incident_event_ids vs ''evidence_ids'' 2)),
     required ''created_at'' (incident_time ''created_at'')]"

definition identity_and_evidence_are_exact :: "(bytes \<Rightarrow> bytes) \<Rightarrow> document \<Rightarrow> contract_error + unit" where
  "identity_and_evidence_are_exact H doc =
    (let primary = get_str doc ''primary_event_id''; snapshot = get_str doc ''correlation_snapshot_event_id'' in
     rbind (lift_ident (incident_id H primary)) (\<lambda>incident.
     rbind (check (incident = get_str doc ''incident_id'') ''incident_id does not bind primary_event_id'') (\<lambda>_.
     rbind (lift_ident (candidate_id H primary (get_str doc ''docker_container_id'') (get_str doc ''docker_started_at'')
         (get_str doc ''destination_ipv4'') (get_str doc ''detector_bundle_sha256''))) (\<lambda>candidate.
     rbind (check (candidate = get_str doc ''candidate_id'') ''candidate_id does not bind immutable candidate identity'') (\<lambda>_.
     rbind (check (snapshot \<noteq> primary) ''correlation snapshot cannot be the primary event'') (\<lambda>_.
       check (get_strs doc ''evidence_ids'' = sort [primary, snapshot]) ''evidence_ids must be the exact trigger/snapshot pair''))))))"

definition valid_ContainmentCandidateV1 :: "(bytes \<Rightarrow> bytes) \<Rightarrow> document \<Rightarrow> contract_error + document" where
  "valid_ContainmentCandidateV1 H = model_validate ContainmentCandidateV1_fields (identity_and_evidence_are_exact H)"

section \<open>Fields without NUL\<close>

lemma hex_text_no_nul: "hex_text k s \<Longrightarrow> nul \<notin> set s"
  using is_lower_hex_nul(1) by (auto simp: hex_text_def list_all_iff)

lemma hex_id_no_nul: "hex_id p k s \<Longrightarrow> nul \<notin> set p \<Longrightarrow> nul \<notin> set s"
  using hex_text_no_nul [of k "drop (length p) s"] append_take_drop_id [of "length p" s]
  by (auto simp: hex_id_def) (metis UnE set_append)

lemma digits_no_nul: "is_digits s \<Longrightarrow> nul \<notin> set s"
  by (auto simp: is_digits_def list_all_iff is_digit_def)

lemma timestamp_no_nul:
  assumes "timestamp_fullmatch s \<noteq> None"
  shows "nul \<notin> set s"
proof -
  have d: "drop 0 s = field s 0 4 @ field s 4 1 @ field s 5 2 @ field s 7 1 @ field s 8 2 @ field s 10 1 @ field s 11 2 @
      field s 13 1 @ field s 14 2 @ field s 16 1 @ field s 17 2 @ drop 19 s"
    using field_drop [of 0 s 4] field_drop [of 4 s 1] field_drop [of 5 s 2] field_drop [of 7 s 1] field_drop [of 8 s 2] field_drop [of 10 s 1]
      field_drop [of 11 s 2] field_drop [of 13 s 1] field_drop [of 14 s 2] field_drop [of 16 s 1] field_drop [of 17 s 2]
    by simp
  let ?r = "drop 19 s"
  have g: "is_digits (field s 0 4)" "field s 4 1 = ''-''" "is_digits (field s 5 2)" "field s 7 1 = ''-''" "is_digits (field s 8 2)"
    "field s 10 1 = ''T''" "is_digits (field s 11 2)" "field s 13 1 = '':''" "is_digits (field s 14 2)" "field s 16 1 = '':''" "is_digits (field s 17 2)"
    and r: "?r = ''Z'' \<or> take 1 ?r = ''.'' \<and> 3 \<le> length ?r \<and> last ?r = CHR ''Z'' \<and> is_digits (butlast (drop 1 ?r))"
    using assms unfolding timestamp_fullmatch_def Let_def by (simp_all only: split: if_splits) blast+
  have "nul \<notin> set ?r"
    using r
  proof
    assume f: "take 1 ?r = ''.'' \<and> 3 \<le> length ?r \<and> last ?r = CHR ''Z'' \<and> is_digits (butlast (drop 1 ?r))"
    then have n: "drop 1 ?r \<noteq> []" "last (drop 1 ?r) = CHR ''Z''" by (auto simp: last_drop)
    have "?r = take 1 ?r @ butlast (drop 1 ?r) @ [last (drop 1 ?r)]"
      using append_take_drop_id [of 1 ?r] append_butlast_last_id [OF n(1)] by simp
    then have "set ?r = set (take 1 ?r) \<union> set (butlast (drop 1 ?r)) \<union> {last (drop 1 ?r)}" by (metis set_append list.simps(15) empty_set sup_assoc)
    with f n digits_no_nul show ?thesis by auto
  qed simp
  moreover note g(1,3,5,7,9,11) [THEN digits_no_nul]
  ultimately have "nul \<notin> set (drop 0 s)" unfolding d set_append g(2,4,6,8,10) by auto
  then show ?thesis by simp
qed

lemma incident_ipv4_no_nul: "incident_ipv4 s = Inr () \<Longrightarrow> nul \<notin> set s"
  using v4_str_chars [of nul] by (auto simp: incident_ipv4_def result_simps is_digit_def split: sum.splits)

section \<open>What accepted facts are bound to\<close>

text \<open>The octets a candidate's identifier is computed from.\<close>

definition candidate_message :: "document \<Rightarrow> bytes" where
  "candidate_message doc = candidate_preimage [get_str doc ''primary_event_id'', get_str doc ''docker_container_id'',
    get_str doc ''docker_started_at'', get_str doc ''destination_ipv4'', get_str doc ''detector_bundle_sha256'']"

lemma candidate_facts:
  assumes "valid_ContainmentCandidateV1 H c = Inr c'"
  shows "incident_id H (get_str c ''primary_event_id'') = Inr (get_str c ''incident_id'')"
    and "candidate_id H (get_str c ''primary_event_id'') (get_str c ''docker_container_id'') (get_str c ''docker_started_at'')
      (get_str c ''destination_ipv4'') (get_str c ''detector_bundle_sha256'') = Inr (get_str c ''candidate_id'')"
    and "\<forall>s\<in>set [get_str c ''primary_event_id'', get_str c ''docker_container_id'', get_str c ''docker_started_at'',
      get_str c ''destination_ipv4'', get_str c ''detector_bundle_sha256'']. nul \<notin> set s"
proof -
  note v = assms [unfolded valid_ContainmentCandidateV1_def]
  have a: "identity_and_evidence_are_exact H c = Inr ()" using v by (simp add: model_validate_Inr)
  from a show "incident_id H (get_str c ''primary_event_id'') = Inr (get_str c ''incident_id'')"
    "candidate_id H (get_str c ''primary_event_id'') (get_str c ''docker_container_id'') (get_str c ''docker_started_at'')
      (get_str c ''destination_ipv4'') (get_str c ''detector_bundle_sha256'') = Inr (get_str c ''candidate_id'')"
    unfolding identity_and_evidence_are_exact_def Let_def result_simps by blast+
  have "hex_id ''evt_'' 64 (get_str c ''primary_event_id'')"
    by (rule required_text [OF v, THEN conjunct2]) (simp add: ContainmentCandidateV1_fields_def)
  then have 1: "nul \<notin> set (get_str c ''primary_event_id'')" by (rule hex_id_no_nul) simp
  have "HEX64 (get_str c ''docker_container_id'')"
    by (rule required_text [OF v, THEN conjunct2]) (simp add: ContainmentCandidateV1_fields_def)
  moreover have "HEX64 (get_str c ''detector_bundle_sha256'')"
    by (rule required_text [OF v, THEN conjunct2]) (simp add: ContainmentCandidateV1_fields_def)
  ultimately have 2: "nul \<notin> set (get_str c ''docker_container_id'')" "nul \<notin> set (get_str c ''detector_bundle_sha256'')"
    by (simp_all add: HEX64_def hex_text_no_nul)
  have "incident_timestamp (get_str c ''docker_started_at'') ''docker_started_at'' = Inr ()"
    by (rule required_str [OF v, THEN conjunct2]) (simp add: ContainmentCandidateV1_fields_def)
  then have 3: "nul \<notin> set (get_str c ''docker_started_at'')" by (intro timestamp_no_nul) (simp add: incident_timestamp_def result_simps)
  have "incident_ipv4 (get_str c ''destination_ipv4'') = Inr ()"
    by (rule required_str [OF v, THEN conjunct2]) (simp add: ContainmentCandidateV1_fields_def)
  then have 4: "nul \<notin> set (get_str c ''destination_ipv4'')" by (rule incident_ipv4_no_nul)
  from 1 2 3 4 show "\<forall>s\<in>set [get_str c ''primary_event_id'', get_str c ''docker_container_id'', get_str c ''docker_started_at'',
      get_str c ''destination_ipv4'', get_str c ''detector_bundle_sha256'']. nul \<notin> set s" by simp
qed

section \<open>Properties\<close>

text \<open>
  C20. A candidate identifier fixes what would be contained: two accepted containment candidates with the
  same \<open>candidate_id\<close> have the same triggering event, incident, container, container start, destination and
  detector bundle, unless the digest collides on the two explicit preimages. The validators of the fields
  rule out the NUL octets under which the derivation would be ambiguous.
\<close>

theorem candidate_id_binds_candidate:
  assumes "valid_ContainmentCandidateV1 H c = Inr c'" and "valid_ContainmentCandidateV1 H d = Inr d'"
    and "get_str c ''candidate_id'' = get_str d ''candidate_id''"
  shows "(\<forall>name\<in>{''primary_event_id'', ''incident_id'', ''docker_container_id'', ''docker_started_at'', ''destination_ipv4'',
      ''detector_bundle_sha256''}. get_str c name = get_str d name) \<or> collides H (candidate_message c) (candidate_message d)"
proof -
  note c = candidate_facts [OF assms(1)] and d = candidate_facts [OF assms(2)]
  have "(get_str c ''primary_event_id'', get_str c ''docker_container_id'', get_str c ''docker_started_at'', get_str c ''destination_ipv4'',
      get_str c ''detector_bundle_sha256'') = (get_str d ''primary_event_id'', get_str d ''docker_container_id'', get_str d ''docker_started_at'',
      get_str d ''destination_ipv4'', get_str d ''detector_bundle_sha256'') \<or> collides H (candidate_message c) (candidate_message d)"
    unfolding collides_def candidate_message_def
    by (rule candidate_id_separates [OF c(2)]) (use c(3) d(2,3) assms(3) in simp_all)
  moreover have "get_str c ''primary_event_id'' = get_str d ''primary_event_id'' \<Longrightarrow> get_str c ''incident_id'' = get_str d ''incident_id''"
    using c(1) d(1) by simp
  ultimately show ?thesis by auto
qed

definition example_candidate :: "int \<Rightarrow> str \<Rightarrow> document" where
  "example_candidate ttl destination =
    [(''schema_version'', JStr ''agmind.containment-candidate.v1''),
     (''candidate_id'', JStr (''cand_'' @ replicate 64 (CHR ''0''))), (''incident_id'', JStr (''inc_'' @ replicate 64 (CHR ''0''))),
     (''host_id'', JStr ''00000000-0000-4000-8000-000000000000''), (''boot_id'', JStr ''00000000-0000-4000-8000-000000000001''),
     (''primary_event_id'', JStr (''evt_'' @ replicate 64 (CHR ''1''))), (''primary_source_sequence'', JInt 7),
     (''correlation_snapshot_event_id'', JStr (''evt_'' @ replicate 64 (CHR ''2''))),
     (''docker_container_id'', JStr (replicate 64 (CHR ''3''))), (''docker_started_at'', JStr ''2026-01-02T03:04:05Z''),
     (''image_id'', JStr (''sha256:'' @ replicate 64 (CHR ''4''))), (''repo_digests'', JArr []),
     (''immutable_spec_sha256'', JStr (replicate 64 (CHR ''5''))), (''inventory_generation'', JInt 1), (''inventory_revision'', JInt 1),
     (''destination_ipv4'', JStr destination), (''destination_port'', JInt 443), (''l4_protocol'', JStr ''tcp''), (''ttl_seconds'', JInt ttl),
     (''detector_rule'', JStr ''AGmind PCC Suspicious Process Outbound Connect''), (''detector_rule_version'', JStr ''agmind-pcc-rules-v1''),
     (''detector_bundle_sha256'', JStr (replicate 64 (CHR ''6''))), (''coverage_snapshot_sha256'', JStr (replicate 64 (CHR ''7''))),
     (''docker_network_snapshot_sha256'', JStr (replicate 64 (CHR ''8''))), (''special_use_registry_sha256'', JStr (replicate 64 (CHR ''9''))),
     (''operator_denylist_sha256'', JStr (replicate 64 (CHR ''a''))), (''management_denylist_sha256'', JStr (replicate 64 (CHR ''b''))),
     (''evidence_ids'', JArr [JStr (''evt_'' @ replicate 64 (CHR ''1'')), JStr (''evt_'' @ replicate 64 (CHR ''2''))]),
     (''created_at'', JStr ''2026-01-02T03:04:06Z'')]"

lemma example_candidates_valid:
  "valid_ContainmentCandidateV1 zero_digest (example_candidate 60 ''1.1.1.1'') = Inr (example_candidate 60 ''1.1.1.1'')"
  "valid_ContainmentCandidateV1 zero_digest (example_candidate 90 ''1.1.1.1'') = Inr (example_candidate 90 ''1.1.1.1'')"
  "valid_ContainmentCandidateV1 zero_digest (example_candidate 60 ''8.8.8.8'') = Inr (example_candidate 60 ''8.8.8.8'')"
  by code_simp+

text \<open>Candidates that differ in the time to live only share their identity; other destinations under a constant digest collide.\<close>

theorem candidate_id_binds_candidate_witness:
  "valid_ContainmentCandidateV1 zero_digest (example_candidate 60 ''1.1.1.1'') = Inr (example_candidate 60 ''1.1.1.1'') \<and>
    valid_ContainmentCandidateV1 zero_digest (example_candidate 90 ''1.1.1.1'') = Inr (example_candidate 90 ''1.1.1.1'') \<and>
    valid_ContainmentCandidateV1 zero_digest (example_candidate 60 ''8.8.8.8'') = Inr (example_candidate 60 ''8.8.8.8'') \<and>
    get_str (example_candidate 60 ''1.1.1.1'') ''incident_id'' = get_str (example_candidate 90 ''1.1.1.1'') ''incident_id'' \<and>
    collides zero_digest (candidate_message (example_candidate 60 ''1.1.1.1'')) (candidate_message (example_candidate 60 ''8.8.8.8''))"
proof -
  have g: "get_str (example_candidate t a) ''candidate_id'' = ''cand_'' @ replicate 64 (CHR ''0'')" "get_str (example_candidate t a) ''destination_ipv4'' = a"
    for t a by (simp_all add: example_candidate_def get_str_def doc_get_def)
  have same: "candidate_message (example_candidate 60 ''1.1.1.1'') = candidate_message (example_candidate 90 ''1.1.1.1'')"
    by (simp add: candidate_message_def example_candidate_def get_str_def doc_get_def)
  have "get_str (example_candidate 60 ''1.1.1.1'') ''incident_id'' = get_str (example_candidate 90 ''1.1.1.1'') ''incident_id''"
    using candidate_id_binds_candidate [OF example_candidates_valid(1,2)] same by (simp add: g collides_def)
  moreover have "collides zero_digest (candidate_message (example_candidate 60 ''1.1.1.1'')) (candidate_message (example_candidate 60 ''8.8.8.8''))"
    using candidate_id_binds_candidate [OF example_candidates_valid(1,3)] by (simp add: g)
  ultimately show ?thesis using example_candidates_valid by (intro conjI)
qed

end
