(* ===== verification/ActuatorRecords.thy ===== *)
theory ActuatorRecords
  imports Contracts "HOL-Library.AList" "HOL-Library.AList_Mapping"
begin

text \<open>
  The actuator's signed journal, \<open>core/agmind_immune/actions/actuator_records.py\<close>: the wire models of
  rate reservations and apply attempts, the verification of one payload, and the projection of the mixed
  chain (reservations, prepared plans, decisions, attempts and outcomes) with its undo log.

  \<^item> Models are documents, as in \<open>Contracts\<close>; dictionaries of the projection are mappings.
  \<^item> \<open>H\<close> is SHA-256 and \<open>verify\<close> the Ed25519 verification of the \<open>cryptography\<close> package.
  \<^item> \<open>append\<close> first parses the payload with \<open>json.loads\<close> to read its schema and then decodes it strictly.
    A payload that strict decoding refuses is refused in every branch, so the schema is read from the
    strictly decoded document here; only the text of the error of such a payload differs.
\<close>

section \<open>Definitions\<close>

datatype actuator_record_error = ActuatorRecordError str

abbreviation MAX_PAYLOAD_BYTES :: int where "MAX_PAYLOAD_BYTES \<equiv> 65536"
abbreviation APPROVAL_TTL_NS :: int where "APPROVAL_TTL_NS \<equiv> 300000000000"

definition refuse :: "bool \<Rightarrow> str \<Rightarrow> actuator_record_error + unit" where
  "refuse bad message = (if bad then Inl (ActuatorRecordError message) else Inr ())"

text \<open>The handler of \<open>append\<close>: any other error becomes the generic one.\<close>

definition verified_or_fail :: "'e + 'a \<Rightarrow> actuator_record_error + 'a" where
  "verified_or_fail = map_err (\<lambda>_. ActuatorRecordError ''actuator payload verification failed'')"

subsection \<open>Timestamps\<close>

text \<open>\<open>datetime.strptime(whole, "%Y-%m-%dT%H:%M:%S")\<close>, as seconds of the proleptic calendar.\<close>

definition strptime_whole :: "timestamp_match \<Rightarrow> int option" where
  "strptime_whole m =
    (let year = int_of_dec (tm_year m); month = int_of_dec (tm_month m); day = int_of_dec (tm_day m);
         hour = int_of_dec (tm_hour m); minute = int_of_dec (tm_minute m); second = int_of_dec (tm_second m)
     in
     if 1 \<le> year \<and> valid_date year month day \<and> hour < 24 \<and> minute < 60 \<and> second < 60 then
       Some (date_ordinal year month day * 86400 + hour * 3600 + minute * 60 + second)
     else None)"

definition record_timestamp_ok :: "str \<Rightarrow> bool" where
  "record_timestamp_ok s =
    (case timestamp_fullmatch s of
       None \<Rightarrow> False
     | Some m \<Rightarrow>
         (case tm_fraction m of Some fraction \<Rightarrow> last fraction \<noteq> CHR ''0'' | None \<Rightarrow> True) \<and> strptime_whole m \<noteq> None)"

text \<open>\<open>_timestamp\<close>: the pair is compared lexicographically.\<close>

definition record_timestamp :: "str \<Rightarrow> actuator_record_error + int \<times> int" where
  "record_timestamp s =
    (if \<not> record_timestamp_ok s then Inl (ActuatorRecordError ''actuator transition timestamp is invalid'')
     else
       case timestamp_fullmatch s of
         None \<Rightarrow> Inl (ActuatorRecordError ''actuator transition timestamp is invalid'')
       | Some m \<Rightarrow>
           (case strptime_whole m of
              None \<Rightarrow> Inl (ActuatorRecordError ''actuator transition timestamp is invalid'')
            | Some whole \<Rightarrow> Inr (whole, int_of_dec (ljust9 (case tm_fraction m of None \<Rightarrow> [] | Some fraction \<Rightarrow> fraction)))))"

definition time_before :: "int \<times> int \<Rightarrow> int \<times> int \<Rightarrow> bool" where
  "time_before a b \<longleftrightarrow> fst a < fst b \<or> fst a = fst b \<and> snd a < snd b"

subsection \<open>Wire models\<close>

abbreviation record_time_field :: validator where
  "record_time_field \<equiv> text_field record_timestamp_ok ''timestamp is not canonical RFC3339Nano UTC''"

abbreviation digest_field :: validator where
  "digest_field \<equiv> text_field HEX64 ''invalid digest''"

definition RateReservationV1_fields :: "field_spec list" where
  "RateReservationV1_fields =
    [required ''schema_version'' (literal [''agmind.intent-rate-reservation.v1'']),
     required ''reservation_id'' (text_field (hex_id ''rr_'' 32) ''invalid reservation ID''),
     required ''intent_id'' (text_field (hex_id ''int_'' 32) ''invalid intent ID''),
     required ''intent_sha256'' digest_field,
     required ''reserved_at'' record_time_field,
     required ''previous_record_sha256'' digest_field,
     required ''record_sha256'' digest_field,
     required ''actuator_key_id'' (text_field HEX32 ''invalid actuator key ID''),
     required ''actuator_signature'' (text_field (hex_text 128) ''invalid actuator signature'')]"

definition destination_is_exact :: "str \<Rightarrow> bool" where
  "destination_is_exact s = (case ip_address s of Inr (V4 v) \<Rightarrow> v4_str v = s | _ \<Rightarrow> False)"

definition ApplyAttemptV1_fields :: "field_spec list" where
  "ApplyAttemptV1_fields =
    [required ''schema_version'' (literal [''agmind.apply-attempt.v1'']),
     required ''attempt_id'' (text_field (hex_id ''aa_'' 32) ''invalid apply-attempt ID''),
     required ''plan_id'' (text_field (hex_id ''plan_'' 32) ''invalid plan ID''),
     required ''plan_hash'' digest_field,
     required ''started_at'' record_time_field,
     required ''boot_id'' (text_field UUID4 ''invalid boot ID''),
     required ''boottime_ns'' (int_field 1 MAX_UINT64),
     required ''target_netns_inode'' (int_field 1 MAX_UINT64),
     required ''destination_ipv4'' (text_field destination_is_exact ''destination is not canonical IPv4''),
     required ''ttl_seconds'' (int_field 30 300),
     required ''expected_ruleset_sha256'' digest_field,
     required ''previous_action_record_sha256'' digest_field,
     required ''previous_record_sha256'' digest_field,
     required ''record_sha256'' digest_field,
     required ''actuator_key_id'' (text_field HEX32 ''invalid actuator key ID''),
     required ''actuator_signature'' (text_field (hex_text 128) ''invalid actuator signature'')]"

text \<open>\<open>_canonical_model\<close>, \<open>_canonical_attempt\<close> and \<open>_canonical_action\<close> differ in the model only.\<close>

definition canonical_payload ::
    "field_spec list \<Rightarrow> (document \<Rightarrow> contract_error + unit) \<Rightarrow> bytes \<Rightarrow> actuator_record_error + document" where
  "canonical_payload spec after raw =
    rbind (verified_or_fail (decode_strict spec after raw MAX_PAYLOAD_BYTES)) (\<lambda>decoded.
    rbind (verified_or_fail (canonical (JObj (model_dump decoded)))) (\<lambda>bytes.
    rbind (refuse (bytes \<noteq> raw) ''actuator payload is not canonical'') (\<lambda>_. Inr decoded)))"

definition hash_without :: "(bytes \<Rightarrow> bytes) \<Rightarrow> document \<Rightarrow> bytes \<Rightarrow> str list \<Rightarrow> actuator_record_error + str" where
  "hash_without H document domain names =
    rbind (verified_or_fail (canonical (JObj (fold doc_pop names document)))) (\<lambda>raw. Inr (hexdigest H (domain @ raw)))"

definition verify_ed25519 ::
    "(bytes \<Rightarrow> bytes \<Rightarrow> bytes \<Rightarrow> bool) \<Rightarrow> bytes \<Rightarrow> str \<Rightarrow> bytes \<Rightarrow> document \<Rightarrow> actuator_record_error + unit" where
  "verify_ed25519 verify public_key signature_text domain document =
    (case (fromhex signature_text, canonical (JObj (doc_pop ''actuator_signature'' document))) of
       (Some signature, Inr raw) \<Rightarrow> refuse (\<not> verify public_key signature (domain @ raw)) ''actuator payload signature is invalid''
     | _ \<Rightarrow> Inl (ActuatorRecordError ''actuator payload signature is invalid''))"

definition uint_of :: "json \<Rightarrow> nat \<Rightarrow> actuator_record_error + int" where
  "uint_of v bits =
    (case v of
       JInt i \<Rightarrow> if 0 \<le> i \<and> i < 2 ^ bits then Inr i else Inl (ActuatorRecordError ''not an unsigned integer'')
     | _ \<Rightarrow> Inl (ActuatorRecordError ''not an unsigned integer''))"

definition intent_from_plan :: "document \<Rightarrow> contract_error + document" where
  "intent_from_plan plan =
    valid_TemporaryEgressDenyIntentV1
      (AList.update ''schema_version'' (JStr ''agmind.temporary-egress-deny-intent.v1'')
        (fold doc_pop
          [''plan_id'', ''boot_id'', ''init_pid'', ''pid_start_ticks'', ''cgroup_path_sha256'', ''network_namespace_inode'',
           ''docker_network_snapshot_sha256'', ''special_use_registry_sha256'', ''management_denylist_sha256'',
           ''hard_limits_version'', ''prepared_at'', ''approval_expires_at'', ''nonce'', ''plan_hash''] plan))"

definition actuator_intent_sha256 :: "(bytes \<Rightarrow> bytes) \<Rightarrow> document \<Rightarrow> actuator_record_error + str" where
  "actuator_intent_sha256 H plan =
    rbind (verified_or_fail (intent_from_plan plan)) (\<lambda>intent.
    rbind (verified_or_fail (canonical (JObj (model_dump intent)))) (\<lambda>raw.
      Inr (hexdigest H (''AGMIND_ACTUATOR_INTENT_V1'' @ [nul] @ raw))))"

subsection \<open>The projection\<close>

record VerifiedActuatorPayload =
  va_schema_version :: str
  va_record_sha256 :: str
  va_payload :: bytes
  va_intent_id :: "str option"
  va_plan_id :: "str option"

record MirroredIntentState =
  mi_intent_id :: str
  mi_intent_sha256 :: str
  mi_state :: str
  mi_prepared_plan :: "document option"
  mi_latest_record_id :: "str option"
  mi_latest_record_sha256 :: "str option"
  mi_observed_at :: "str option"

record ReservationState =
  rv_intent_sha256 :: str
  rv_reserved_at :: str
  rv_record_sha256 :: str

record PreparedState =
  pp_plan :: document
  pp_intent_sha256 :: str
  pp_approval_deadline_boottime_ns :: int
  pp_record_id :: str
  pp_record_sha256 :: str

record OutcomeState =
  oc_state :: str
  oc_record_id :: str
  oc_record_sha256 :: str
  oc_observed_at :: str

record AttemptState =
  at_record_sha256 :: str
  at_expected_ruleset_sha256 :: str

text \<open>
  An entry of the undo log: the dictionary, the key, and the prior value if there was one. The log and the
  set of entries already logged are those of \<open>_ProjectionTransaction\<close>; \<open>tx_self\<close> is the identity of the object.
\<close>

datatype change =
    ReservationChange str "ReservationState option"
  | ByIntentChange str "PreparedState option"
  | ByPlanChange str "PreparedState option"
  | OutcomeChange str "OutcomeState option"
  | AttemptChange str "AttemptState option"

datatype mapping_name = Reservations | ByIntent | ByPlan | Outcomes | Attempts

record ProjectionTransaction =
  tx_self :: nat
  tx_previous :: str
  tx_action_count :: nat
  tx_changes :: "change list"
  tx_seen :: "(mapping_name \<times> str) list"

record ActuatorProjection =
  pj_public_key :: bytes
  pj_previous :: str
  pj_actions :: "document list"
  pj_reservations :: "(str, ReservationState) mapping"
  pj_by_intent :: "(str, PreparedState) mapping"
  pj_by_plan :: "(str, PreparedState) mapping"
  pj_outcomes :: "(str, OutcomeState) mapping"
  pj_attempts :: "(str, AttemptState) mapping"
  pj_transaction :: "ProjectionTransaction option"

definition projection_init :: "bytes \<Rightarrow> actuator_record_error + ActuatorProjection" where
  "projection_init public_key =
    rbind (refuse (length public_key \<noteq> 32) ''actuator public key must contain 32 raw bytes'') (\<lambda>_.
      Inr \<lparr>pj_public_key = public_key, pj_previous = ZERO_SHA256, pj_actions = [], pj_reservations = Mapping.empty,
        pj_by_intent = Mapping.empty, pj_by_plan = Mapping.empty, pj_outcomes = Mapping.empty, pj_attempts = Mapping.empty,
        pj_transaction = None\<rparr>)"

definition begin_extension :: "nat \<Rightarrow> ActuatorProjection \<Rightarrow> actuator_record_error + ActuatorProjection" where
  "begin_extension self pj =
    rbind (refuse (pj_transaction pj \<noteq> None) ''actuator projection transaction is already active'') (\<lambda>_.
      Inr (pj\<lparr>pj_transaction := Some \<lparr>tx_self = self, tx_previous = pj_previous pj,
        tx_action_count = length (pj_actions pj), tx_changes = [], tx_seen = []\<rparr>\<rparr>))"

fun restore :: "'a option \<Rightarrow> str \<Rightarrow> (str, 'a) mapping \<Rightarrow> (str, 'a) mapping" where
  "restore (Some prior) item_key m = Mapping.update item_key prior m"
| "restore None item_key m = Mapping.delete item_key m"

fun undo :: "change \<Rightarrow> ActuatorProjection \<Rightarrow> ActuatorProjection" where
  "undo (ReservationChange k prior) pj = pj\<lparr>pj_reservations := restore prior k (pj_reservations pj)\<rparr>"
| "undo (ByIntentChange k prior) pj = pj\<lparr>pj_by_intent := restore prior k (pj_by_intent pj)\<rparr>"
| "undo (ByPlanChange k prior) pj = pj\<lparr>pj_by_plan := restore prior k (pj_by_plan pj)\<rparr>"
| "undo (OutcomeChange k prior) pj = pj\<lparr>pj_outcomes := restore prior k (pj_outcomes pj)\<rparr>"
| "undo (AttemptChange k prior) pj = pj\<lparr>pj_attempts := restore prior k (pj_attempts pj)\<rparr>"

definition rollback_extension :: "nat \<Rightarrow> ActuatorProjection \<Rightarrow> actuator_record_error + ActuatorProjection" where
  "rollback_extension self pj =
    (case pj_transaction pj of
       None \<Rightarrow> Inl (ActuatorRecordError ''actuator projection rollback token is invalid'')
     | Some tx \<Rightarrow>
         rbind (refuse (tx_self tx \<noteq> self) ''actuator projection rollback token is invalid'') (\<lambda>_.
           Inr ((fold undo (rev (tx_changes tx)) pj)\<lparr>pj_actions := take (tx_action_count tx) (pj_actions pj),
             pj_previous := tx_previous tx, pj_transaction := None\<rparr>)))"

definition commit_extension :: "nat \<Rightarrow> ActuatorProjection \<Rightarrow> actuator_record_error + ActuatorProjection" where
  "commit_extension self pj =
    (case pj_transaction pj of
       None \<Rightarrow> Inl (ActuatorRecordError ''actuator projection commit token is invalid'')
     | Some tx \<Rightarrow>
         rbind (refuse (tx_self tx \<noteq> self) ''actuator projection commit token is invalid'') (\<lambda>_.
           Inr (pj\<lparr>pj_transaction := None\<rparr>)))"

text \<open>\<open>_set_state\<close>, for each dictionary.\<close>

definition note_change :: "mapping_name \<Rightarrow> str \<Rightarrow> change \<Rightarrow> ActuatorProjection \<Rightarrow> ActuatorProjection" where
  "note_change name item_key entry pj =
    (case pj_transaction pj of
       None \<Rightarrow> pj
     | Some tx \<Rightarrow>
         if (name, item_key) \<in> set (tx_seen tx) then pj
         else pj\<lparr>pj_transaction := Some (tx\<lparr>tx_seen := (name, item_key) # tx_seen tx, tx_changes := tx_changes tx @ [entry]\<rparr>)\<rparr>)"

definition set_reservation :: "str \<Rightarrow> ReservationState \<Rightarrow> ActuatorProjection \<Rightarrow> ActuatorProjection" where
  "set_reservation k v pj =
    (note_change Reservations k (ReservationChange k (Mapping.lookup (pj_reservations pj) k)) pj)
      \<lparr>pj_reservations := Mapping.update k v (pj_reservations pj)\<rparr>"

definition set_by_intent :: "str \<Rightarrow> PreparedState \<Rightarrow> ActuatorProjection \<Rightarrow> ActuatorProjection" where
  "set_by_intent k v pj =
    (note_change ByIntent k (ByIntentChange k (Mapping.lookup (pj_by_intent pj) k)) pj)
      \<lparr>pj_by_intent := Mapping.update k v (pj_by_intent pj)\<rparr>"

definition set_by_plan :: "str \<Rightarrow> PreparedState \<Rightarrow> ActuatorProjection \<Rightarrow> ActuatorProjection" where
  "set_by_plan k v pj =
    (note_change ByPlan k (ByPlanChange k (Mapping.lookup (pj_by_plan pj) k)) pj)
      \<lparr>pj_by_plan := Mapping.update k v (pj_by_plan pj)\<rparr>"

definition set_outcome :: "str \<Rightarrow> OutcomeState \<Rightarrow> ActuatorProjection \<Rightarrow> ActuatorProjection" where
  "set_outcome k v pj =
    (note_change Outcomes k (OutcomeChange k (Mapping.lookup (pj_outcomes pj) k)) pj)
      \<lparr>pj_outcomes := Mapping.update k v (pj_outcomes pj)\<rparr>"

definition set_attempt :: "str \<Rightarrow> AttemptState \<Rightarrow> ActuatorProjection \<Rightarrow> ActuatorProjection" where
  "set_attempt k v pj =
    (note_change Attempts k (AttemptChange k (Mapping.lookup (pj_attempts pj) k)) pj)
      \<lparr>pj_attempts := Mapping.update k v (pj_attempts pj)\<rparr>"

subsection \<open>Appending a payload\<close>

text \<open>The chain check that reservations and attempts share.\<close>

definition chain_is_valid :: "(bytes \<Rightarrow> bytes) \<Rightarrow> ActuatorProjection \<Rightarrow> document \<Rightarrow> str \<Rightarrow> str \<Rightarrow> str \<Rightarrow> bool" where
  "chain_is_valid H pj doc expected id_name id_prefix \<longleftrightarrow>
    get_str doc ''previous_record_sha256'' = pj_previous pj \<and> get_str doc ''record_sha256'' = expected \<and>
    get_str doc id_name = id_prefix @ take 32 expected \<and> key_id H (pj_public_key pj) = Inr (get_str doc ''actuator_key_id'')"

definition append_reservation ::
    "(bytes \<Rightarrow> bytes) \<Rightarrow> (bytes \<Rightarrow> bytes \<Rightarrow> bytes \<Rightarrow> bool) \<Rightarrow> ActuatorProjection \<Rightarrow> document \<Rightarrow> bytes \<Rightarrow>
      actuator_record_error + VerifiedActuatorPayload \<times> ActuatorProjection" where
  "append_reservation H verify pj doc payload =
    rbind (hash_without H doc (''AGMIND_RATE_RESERVATION_HASH_V1'' @ [nul]) [''reservation_id'', ''record_sha256'', ''actuator_signature'']) (\<lambda>expected.
    rbind (refuse (\<not> chain_is_valid H pj doc expected ''reservation_id'' ''rr_'') ''rate reservation hash chain is invalid'') (\<lambda>_.
    rbind (verify_ed25519 verify (pj_public_key pj) (get_str doc ''actuator_signature'') (''AGMIND_RATE_RESERVATION_V1'' @ [nul]) doc) (\<lambda>_.
    let intent = get_str doc ''intent_id'' in
    rbind (refuse (Mapping.lookup (pj_by_intent pj) intent \<noteq> None) ''rate reservation follows PREPARED'') (\<lambda>_.
    rbind (refuse (case Mapping.lookup (pj_reservations pj) intent of
          None \<Rightarrow> False
        | Some prior \<Rightarrow> rv_intent_sha256 prior \<noteq> get_str doc ''intent_sha256'') ''rate reservation intent equivocation'') (\<lambda>_.
      Inr (\<lparr>va_schema_version = get_str doc ''schema_version'', va_record_sha256 = get_str doc ''record_sha256'',
             va_payload = payload, va_intent_id = Some intent, va_plan_id = None\<rparr>,
           set_reservation intent \<lparr>rv_intent_sha256 = get_str doc ''intent_sha256'', rv_reserved_at = get_str doc ''reserved_at'',
             rv_record_sha256 = get_str doc ''record_sha256''\<rparr> pj))))))"

definition attempt_binds_plan :: "ActuatorProjection \<Rightarrow> document \<Rightarrow> PreparedState \<Rightarrow> OutcomeState \<Rightarrow> bool" where
  "attempt_binds_plan pj doc prepared outcome \<longleftrightarrow>
    oc_state outcome = ''APPROVED'' \<and> Mapping.lookup (pj_attempts pj) (get_str doc ''plan_id'') = None \<and>
    get_str doc ''previous_action_record_sha256'' = oc_record_sha256 outcome \<and>
    get_str doc ''plan_hash'' = get_str (pp_plan prepared) ''plan_hash'' \<and>
    get_str doc ''boot_id'' = get_str (pp_plan prepared) ''boot_id'' \<and>
    get_int doc ''target_netns_inode'' = get_int (pp_plan prepared) ''network_namespace_inode'' \<and>
    get_str doc ''destination_ipv4'' = get_str (pp_plan prepared) ''destination_ipv4'' \<and>
    get_int doc ''ttl_seconds'' = get_int (pp_plan prepared) ''ttl_seconds''"

definition append_attempt ::
    "(bytes \<Rightarrow> bytes) \<Rightarrow> (bytes \<Rightarrow> bytes \<Rightarrow> bytes \<Rightarrow> bool) \<Rightarrow> ActuatorProjection \<Rightarrow> document \<Rightarrow> bytes \<Rightarrow>
      actuator_record_error + VerifiedActuatorPayload \<times> ActuatorProjection" where
  "append_attempt H verify pj doc payload =
    rbind (hash_without H doc (''AGMIND_APPLY_ATTEMPT_HASH_V1'' @ [nul]) [''attempt_id'', ''record_sha256'', ''actuator_signature'']) (\<lambda>expected.
    rbind (refuse (\<not> chain_is_valid H pj doc expected ''attempt_id'' ''aa_'') ''apply attempt hash chain is invalid'') (\<lambda>_.
    rbind (verify_ed25519 verify (pj_public_key pj) (get_str doc ''actuator_signature'') (''AGMIND_APPLY_ATTEMPT_V1'' @ [nul]) doc) (\<lambda>_.
    let plan = get_str doc ''plan_id'' in
    case (Mapping.lookup (pj_by_plan pj) plan, Mapping.lookup (pj_outcomes pj) plan) of
      (Some prepared, Some outcome) \<Rightarrow>
        rbind (refuse (\<not> attempt_binds_plan pj doc prepared outcome) ''apply attempt does not bind one approved plan'') (\<lambda>_.
          Inr (\<lparr>va_schema_version = get_str doc ''schema_version'', va_record_sha256 = get_str doc ''record_sha256'',
                 va_payload = payload, va_intent_id = Some (get_str (pp_plan prepared) ''intent_id''), va_plan_id = Some plan\<rparr>,
               set_attempt plan \<lparr>at_record_sha256 = get_str doc ''record_sha256'',
                 at_expected_ruleset_sha256 = get_str doc ''expected_ruleset_sha256''\<rparr> pj))
    | _ \<Rightarrow> Inl (ActuatorRecordError ''apply attempt does not bind one approved plan''))))"

definition keys_are :: "document \<Rightarrow> str list \<Rightarrow> bool" where
  "keys_are details names \<longleftrightarrow> set (map fst details) = set names"

definition is_str :: "json \<Rightarrow> bool" where
  "is_str v = (case v of JStr _ \<Rightarrow> True | _ \<Rightarrow> False)"

definition prepared_binds ::
    "(bytes \<Rightarrow> bytes) \<Rightarrow> ActuatorProjection \<Rightarrow> document \<Rightarrow> document \<Rightarrow> str \<Rightarrow> bool" where
  "prepared_binds H pj doc plan intent_sha256 \<longleftrightarrow>
    doc_get (get_obj doc ''details'') ''intent_sha256'' = JStr intent_sha256 \<and>
    (case Mapping.lookup (pj_reservations pj) (get_str plan ''intent_id'') of
       None \<Rightarrow> False
     | Some reservation \<Rightarrow> rv_intent_sha256 reservation = intent_sha256 \<and>
         rv_record_sha256 reservation = get_str doc ''previous_record_sha256'') \<and>
    get_str doc ''plan_id'' = get_str plan ''plan_id'' \<and> get_str doc ''plan_hash'' = get_str plan ''plan_hash'' \<and>
    get_str doc ''observed_at'' = get_str plan ''prepared_at'' \<and>
    (case action_id H (get_str plan ''plan_hash'') of Inl _ \<Rightarrow> False | Inr derived \<Rightarrow> get_str doc ''action_id'' = derived) \<and>
    Mapping.lookup (pj_by_intent pj) (get_str plan ''intent_id'') = None \<and>
    Mapping.lookup (pj_by_plan pj) (get_str plan ''plan_id'') = None"

definition append_prepared ::
    "(bytes \<Rightarrow> bytes) \<Rightarrow> ActuatorProjection \<Rightarrow> document \<Rightarrow> actuator_record_error + str \<times> ActuatorProjection" where
  "append_prepared H pj doc =
    (let details = get_obj doc ''details'' in
     rbind (refuse (get_str_opt doc ''action_id'' = None \<or> get_str doc ''reason_code'' \<noteq> ''intent_prepared'' \<or>
         \<not> keys_are details [''approval_deadline_boottime_ns'', ''intent_sha256'', ''prepared_plan'']) ''PREPARED record shape is invalid'') (\<lambda>_.
     rbind (uint_of (doc_get details ''approval_deadline_boottime_ns'') 64) (\<lambda>deadline.
     rbind (refuse (deadline = 0 \<or> \<not> is_str (doc_get details ''intent_sha256'')) ''PREPARED authority details are invalid'') (\<lambda>_.
     rbind (verified_or_fail (canonical (doc_get details ''prepared_plan''))) (\<lambda>raw.
     rbind (verified_or_fail (decode_strict PreparedTemporaryEgressDenyPlanV1_fields (identifiers_and_expiry_match H) raw MAX_PAYLOAD_BYTES)) (\<lambda>plan.
     rbind (actuator_intent_sha256 H plan) (\<lambda>intent_sha256.
     rbind (refuse (\<not> prepared_binds H pj doc plan intent_sha256) ''PREPARED record does not bind its reservation and plan'') (\<lambda>_.
     let intent = get_str plan ''intent_id'' in
     rbind (record_timestamp (get_str plan ''prepared_at'')) (\<lambda>prepared_at.
     rbind (case Mapping.lookup (pj_reservations pj) intent of
         None \<Rightarrow> Inl (ActuatorRecordError ''PREPARED record does not bind its reservation and plan'')
       | Some reservation \<Rightarrow> record_timestamp (rv_reserved_at reservation)) (\<lambda>reserved_at.
     rbind (refuse (time_before prepared_at reserved_at) ''PREPARED record does not bind its reservation and plan'') (\<lambda>_.
     let prepared = \<lparr>pp_plan = plan, pp_intent_sha256 = intent_sha256, pp_approval_deadline_boottime_ns = deadline,
           pp_record_id = get_str doc ''record_id'', pp_record_sha256 = get_str doc ''record_sha256''\<rparr>
     in Inr (intent, set_by_plan (get_str plan ''plan_id'') prepared (set_by_intent intent prepared pj)))))))))))))"

definition outcome_of :: "document \<Rightarrow> OutcomeState" where
  "outcome_of doc = \<lparr>oc_state = get_str doc ''state'', oc_record_id = get_str doc ''record_id'',
    oc_record_sha256 = get_str doc ''record_sha256'', oc_observed_at = get_str doc ''observed_at''\<rparr>"

definition DECISION_FIELDS :: "str list" where
  "DECISION_FIELDS = [''previous_action_record_sha256'', ''decision_boot_id'', ''decision_boottime_ns'', ''admin_uid'', ''admin_gid'',
    ''authorization_basis'', ''decision_basis'']"

definition authority_valid :: "str \<Rightarrow> int \<Rightarrow> int \<Rightarrow> bool" where
  "authority_valid authorization uid gid \<longleftrightarrow>
    authorization = ''root'' \<and> uid = 0 \<or>
    authorization \<in> {''primary_group'', ''supplementary_group''} \<and> uid \<noteq> 0 \<or>
    authorization = ''system_expiry'' \<and> uid = 0 \<and> gid = 0"

definition DECISION_REASONS :: "((str \<times> str) \<times> str) list" where
  "DECISION_REASONS =
    [((''APPROVED'', ''local_admin_approval''), ''local_admin_approved''),
     ((''REJECTED'', ''local_admin_rejection''), ''local_admin_rejected''),
     ((''EXPIRED_UNAPPLIED'', ''wall_deadline''), ''approval_deadline_elapsed''),
     ((''EXPIRED_UNAPPLIED'', ''boottime_deadline''), ''approval_deadline_elapsed''),
     ((''EXPIRED_UNAPPLIED'', ''host_boot_changed''), ''host_boot_changed'')]"

definition decision_clock_valid ::
    "PreparedState \<Rightarrow> str \<Rightarrow> str \<Rightarrow> str \<Rightarrow> str \<Rightarrow> int \<Rightarrow> int \<times> int \<Rightarrow> int \<times> int \<Rightarrow> int \<times> int \<Rightarrow> bool" where
  "decision_clock_valid prepared state basis authorization boot_id boot_time observed prepared_at expires_at =
    (let plan = pp_plan prepared; deadline = pp_approval_deadline_boottime_ns prepared; prepared_boot = deadline - APPROVAL_TTL_NS in
     if state \<in> {''APPROVED'', ''REJECTED''} then
       authorization \<noteq> ''system_expiry'' \<and> boot_id = get_str plan ''boot_id'' \<and>
       \<not> time_before observed prepared_at \<and> time_before observed expires_at \<and>
       prepared_boot \<le> boot_time \<and> boot_time < deadline
     else if basis = ''wall_deadline'' then boot_id = get_str plan ''boot_id'' \<and> \<not> time_before observed expires_at
     else if basis = ''boottime_deadline'' then boot_id = get_str plan ''boot_id'' \<and> boot_time \<ge> deadline
     else boot_id \<noteq> get_str plan ''boot_id'')"

definition append_decision :: "ActuatorProjection \<Rightarrow> document \<Rightarrow> actuator_record_error + str \<times> ActuatorProjection" where
  "append_decision pj doc =
    (let details = get_obj doc ''details''; state = get_str doc ''state'' in
     case Mapping.lookup (pj_by_plan pj) (get_str doc ''plan_id'') of
       None \<Rightarrow> Inl (ActuatorRecordError ''decision lacks one PREPARED plan'')
     | Some prepared \<Rightarrow>
         rbind (refuse (get_str_opt doc ''action_id'' = None \<or> int (length details) \<noteq> 7) ''decision lacks one PREPARED plan'') (\<lambda>_.
         rbind (refuse (\<not> keys_are details DECISION_FIELDS) ''decision details are not exact'') (\<lambda>_.
         rbind (uint_of (doc_get details ''decision_boottime_ns'') 64) (\<lambda>boot_time.
         rbind (uint_of (doc_get details ''admin_uid'') 32) (\<lambda>uid.
         rbind (uint_of (doc_get details ''admin_gid'') 32) (\<lambda>gid.
         let boot_id = get_str details ''decision_boot_id''; authorization = get_str details ''authorization_basis'';
             basis = get_str details ''decision_basis'' in
         rbind (refuse (\<not> is_str (doc_get details ''previous_action_record_sha256'') \<or>
             \<not> is_str (doc_get details ''decision_boot_id'') \<or> \<not> UUID4 boot_id \<or>
             \<not> is_str (doc_get details ''authorization_basis'') \<or> \<not> is_str (doc_get details ''decision_basis'') \<or> boot_time = 0 \<or>
             get_str doc ''plan_hash'' \<noteq> get_str (pp_plan prepared) ''plan_hash'' \<or>
             get_str details ''previous_action_record_sha256'' \<noteq> pp_record_sha256 prepared) ''decision does not bind PREPARED'') (\<lambda>_.
         rbind (refuse (\<not> authority_valid authorization uid gid \<or>
             map_of DECISION_REASONS (state, basis) \<noteq> Some (get_str doc ''reason_code'')) ''decision authority, state, or reason is invalid'') (\<lambda>_.
         rbind (record_timestamp (get_str doc ''observed_at'')) (\<lambda>observed.
         rbind (record_timestamp (get_str (pp_plan prepared) ''prepared_at'')) (\<lambda>prepared_at.
         rbind (record_timestamp (get_str (pp_plan prepared) ''approval_expires_at'')) (\<lambda>expires_at.
         rbind (refuse (pp_approval_deadline_boottime_ns prepared \<le> APPROVAL_TTL_NS) ''decision monotonic deadline is invalid'') (\<lambda>_.
         rbind (refuse (\<not> decision_clock_valid prepared state basis authorization boot_id boot_time observed prepared_at expires_at)
             ''decision is outside its approval boundary'') (\<lambda>_.
           Inr (get_str (pp_plan prepared) ''intent_id'', set_outcome (get_str doc ''plan_id'') (outcome_of doc) pj))))))))))))))"

text \<open>The transitions of a plan after its decision; the flag says whether an attempt was recorded.\<close>

definition allowed_after :: "str \<Rightarrow> bool \<Rightarrow> str list" where
  "allowed_after prior attempted =
    (if prior = ''APPROVED'' then
       if attempted then [''APPLIED'', ''REJECTED'', ''FAILED_DIRTY''] else [''STALE_ABORT'', ''REJECTED'']
     else if prior = ''APPLIED'' \<and> attempted then [''VERIFIED'', ''EXPIRED'', ''FAILED_DIRTY'']
     else if prior = ''VERIFIED'' \<and> attempted then [''EXPIRED'', ''FAILED_DIRTY'']
     else [])"

definition COMMON_FIELDS :: "str list" where
  "COMMON_FIELDS = [''previous_action_record_sha256'', ''transition_boot_id'', ''transition_boottime_ns'', ''transition_basis'']"

definition lifecycle_fields :: "str \<Rightarrow> str list" where
  "lifecycle_fields state =
    (if state = ''APPLIED'' then
       COMMON_FIELDS @ [''apply_attempt_sha256'', ''target_netns_inode'', ''ruleset_sha256'', ''configured_timeout_ms'',
         ''remaining_timeout_ms'', ''counter_packets'', ''counter_bytes'', ''host_netns_before'', ''host_netns_after'']
     else if state = ''VERIFIED'' then COMMON_FIELDS @ [''applied_record_sha256'', ''audit_deadline_boottime_ns'']
     else COMMON_FIELDS)"

text \<open>
  \<open>reason_valid\<close>; the basis is a nonempty text wherever only its truth is asked for. The code builds the
  table for every state, so that a basis no set can hold raises as soon as the reason is that of an expiry.
\<close>

definition unhashable :: "json \<Rightarrow> bool" where
  "unhashable v = (case v of JArr _ \<Rightarrow> True | JObj _ \<Rightarrow> True | _ \<Rightarrow> False)"

definition lifecycle_reason_valid :: "str \<Rightarrow> str \<Rightarrow> str \<Rightarrow> bool" where
  "lifecycle_reason_valid state reason basis =
    (if state = ''STALE_ABORT'' then reason = ''target_revalidation_failed'' \<and> basis \<noteq> []
     else if state = ''REJECTED'' then reason \<in> {''nft_preflight_rejected'', ''nft_apply_proven_absent''} \<and> basis \<noteq> []
     else if state = ''FAILED_DIRTY'' then reason = ''nft_result_uncertain'' \<and> basis \<noteq> []
     else if state = ''APPLIED'' then reason = ''nft_apply_observed'' \<and> basis = ''exact_kernel_readback''
     else if state = ''VERIFIED'' then reason = ''nft_apply_verified'' \<and> basis = ''proof_committed''
     else reason = ''native_timeout_expired'' \<and> basis \<in> {''kernel_timeout_observed'', ''namespace_destroyed'', ''host_boot_changed''})"

definition applied_binds :: "document \<Rightarrow> PreparedState \<Rightarrow> AttemptState \<Rightarrow> actuator_record_error + unit" where
  "applied_binds details prepared attempt =
    rbind (uint_of (doc_get details ''target_netns_inode'') 64) (\<lambda>inode.
    rbind (uint_of (doc_get details ''configured_timeout_ms'') 64) (\<lambda>configured.
    rbind (uint_of (doc_get details ''remaining_timeout_ms'') 64) (\<lambda>remaining.
    rbind (uint_of (doc_get details ''counter_packets'') 64) (\<lambda>_.
    rbind (uint_of (doc_get details ''counter_bytes'') 64) (\<lambda>_.
    rbind (uint_of (doc_get details ''host_netns_before'') 64) (\<lambda>before.
    rbind (uint_of (doc_get details ''host_netns_after'') 64) (\<lambda>after.
      refuse (doc_get details ''apply_attempt_sha256'' \<noteq> JStr (at_record_sha256 attempt) \<or>
          doc_get details ''ruleset_sha256'' \<noteq> JStr (at_expected_ruleset_sha256 attempt) \<or>
          inode \<noteq> get_int (pp_plan prepared) ''network_namespace_inode'' \<or>
          configured \<noteq> get_int (pp_plan prepared) ''ttl_seconds'' * 1000 \<or>
          \<not> (0 < remaining \<and> remaining \<le> configured) \<or> before = 0 \<or> before \<noteq> after)
        ''APPLIED observation does not bind its attempt'')))))))"

definition append_lifecycle :: "ActuatorProjection \<Rightarrow> document \<Rightarrow> actuator_record_error + str \<times> ActuatorProjection" where
  "append_lifecycle pj doc =
    (let details = get_obj doc ''details''; state = get_str doc ''state''; plan = get_str doc ''plan_id'';
         attempt = Mapping.lookup (pj_attempts pj) plan in
     case (Mapping.lookup (pj_by_plan pj) plan, Mapping.lookup (pj_outcomes pj) plan) of
       (Some prepared, Some prior) \<Rightarrow>
         rbind (refuse (get_str_opt doc ''action_id'' = None) ''lifecycle record lacks prior state'') (\<lambda>_.
         rbind (refuse (state \<notin> set (allowed_after (oc_state prior) (attempt \<noteq> None))) ''invalid actuator lifecycle transition'') (\<lambda>_.
         rbind (refuse (\<not> keys_are details (lifecycle_fields state)) ''lifecycle details are not exact'') (\<lambda>_.
         let per_plan_previous = (case attempt of
               Some a \<Rightarrow> if oc_state prior = ''APPROVED'' then at_record_sha256 a else oc_record_sha256 prior
             | None \<Rightarrow> oc_record_sha256 prior);
             boot_id = get_str details ''transition_boot_id''; basis = get_str details ''transition_basis'' in
         rbind (uint_of (doc_get details ''transition_boottime_ns'') 64) (\<lambda>boot_time.
         rbind (refuse (get_str doc ''reason_code'' = ''native_timeout_expired'' \<and> unhashable (doc_get details ''transition_basis''))
             ''actuator payload verification failed'') (\<lambda>_.
         rbind (refuse (doc_get details ''previous_action_record_sha256'' \<noteq> JStr per_plan_previous \<or>
             \<not> is_str (doc_get details ''transition_boot_id'') \<or> \<not> UUID4 boot_id \<or>
             \<not> is_str (doc_get details ''transition_basis'') \<or> boot_time = 0 \<or>
             \<not> lifecycle_reason_valid state (get_str doc ''reason_code'') basis \<or>
             get_str doc ''plan_hash'' \<noteq> get_str (pp_plan prepared) ''plan_hash'' \<or>
             state \<notin> {''EXPIRED'', ''STALE_ABORT'', ''REJECTED''} \<and> boot_id \<noteq> get_str (pp_plan prepared) ''boot_id'')
             ''lifecycle record bindings are invalid'') (\<lambda>_.
         rbind (if state = ''APPLIED'' then
             case attempt of
               None \<Rightarrow> Inl (ActuatorRecordError ''APPLIED lacks an apply attempt'')
             | Some a \<Rightarrow> applied_binds details prepared a
           else if state = ''VERIFIED'' then
             rbind (uint_of (doc_get details ''audit_deadline_boottime_ns'') 64) (\<lambda>deadline.
               refuse (doc_get details ''applied_record_sha256'' \<noteq> JStr per_plan_previous \<or> deadline \<le> boot_time)
                 ''VERIFIED record does not bind APPLIED'')
           else Inr ()) (\<lambda>_.
           Inr (get_str (pp_plan prepared) ''intent_id'', set_outcome plan (outcome_of doc) pj))))))))
     | _ \<Rightarrow> Inl (ActuatorRecordError ''lifecycle record lacks prior state''))"

text \<open>The checks and the state change of \<open>_append_action\<close>, and then its effects in order.\<close>

definition apply_action_record ::
    "(bytes \<Rightarrow> bytes) \<Rightarrow> (bytes \<Rightarrow> bytes \<Rightarrow> bytes \<Rightarrow> bool) \<Rightarrow> ActuatorProjection \<Rightarrow> document \<Rightarrow>
      actuator_record_error + str \<times> ActuatorProjection" where
  "apply_action_record H verify pj doc =
    (let state = get_str doc ''state'' in
     rbind (map_err (\<lambda>_. ActuatorRecordError ''action record signature is invalid'')
         (verify_action_record H verify (model_dump doc) (pj_public_key pj))) (\<lambda>_.
     rbind (refuse (get_str doc ''previous_record_sha256'' \<noteq> pj_previous pj) ''action record global chain is discontinuous'') (\<lambda>_.
     if state = ''PREPARED'' then append_prepared H pj doc
     else if state \<in> {''APPROVED'', ''REJECTED'', ''EXPIRED_UNAPPLIED''} then
       if Mapping.lookup (pj_outcomes pj) (get_str doc ''plan_id'') \<noteq> None then append_lifecycle pj doc
       else append_decision pj doc
     else if state \<in> {''APPLIED'', ''VERIFIED'', ''EXPIRED'', ''STALE_ABORT'', ''FAILED_DIRTY''} then append_lifecycle pj doc
     else Inl (ActuatorRecordError ''unsupported durable actuator state''))))"

definition append_action ::
    "(bytes \<Rightarrow> bytes) \<Rightarrow> (bytes \<Rightarrow> bytes \<Rightarrow> bytes \<Rightarrow> bool) \<Rightarrow> ActuatorProjection \<Rightarrow> document \<Rightarrow>
      ActuatorProjection \<times> (actuator_record_error + VerifiedActuatorPayload)" where
  "append_action H verify pj doc =
    (case apply_action_record H verify pj doc of
       Inl e \<Rightarrow> (pj, Inl e)
     | Inr (intent, pj') \<Rightarrow>
         (pj'\<lparr>pj_actions := pj_actions pj' @ [doc]\<rparr>,
          rbind (verified_or_fail (canonical (JObj (model_dump doc)))) (\<lambda>raw.
            Inr \<lparr>va_schema_version = get_str doc ''schema_version'', va_record_sha256 = get_str doc ''record_sha256'',
              va_payload = raw, va_intent_id = Some intent, va_plan_id = Some (get_str doc ''plan_id'')\<rparr>)))"

text \<open>A handler that changes the state only when it succeeds.\<close>

definition on_success ::
    "ActuatorProjection \<Rightarrow> actuator_record_error + VerifiedActuatorPayload \<times> ActuatorProjection \<Rightarrow>
      ActuatorProjection \<times> (actuator_record_error + VerifiedActuatorPayload)" where
  "on_success pj r = (case r of Inl e \<Rightarrow> (pj, Inl e) | Inr (verified, pj') \<Rightarrow> (pj', Inr verified))"

definition append_payload ::
    "(bytes \<Rightarrow> bytes) \<Rightarrow> (bytes \<Rightarrow> bytes \<Rightarrow> bytes \<Rightarrow> bool) \<Rightarrow> ActuatorProjection \<Rightarrow> bytes \<Rightarrow>
      ActuatorProjection \<times> (actuator_record_error + VerifiedActuatorPayload)" where
  "append_payload H verify pj payload =
    (if payload = [] \<or> int (length payload) > MAX_PAYLOAD_BYTES then
       (pj, Inl (ActuatorRecordError ''actuator payload is absent or exceeds 64 KiB''))
     else
       case decode_document [] payload MAX_PAYLOAD_BYTES of
         Inl _ \<Rightarrow> (pj, Inl (ActuatorRecordError ''actuator payload is not JSON''))
       | Inr envelope \<Rightarrow>
           (case get_str_opt envelope ''schema_version'' of
              None \<Rightarrow> (pj, Inl (ActuatorRecordError ''actuator payload schema is absent''))
            | Some schema \<Rightarrow>
                if schema = ''agmind.intent-rate-reservation.v1'' then
                  on_success pj (rbind (canonical_payload RateReservationV1_fields (\<lambda>_. Inr ()) payload)
                    (\<lambda>doc. append_reservation H verify pj doc payload))
                else if schema = ''agmind.apply-attempt.v1'' then
                  on_success pj (rbind (canonical_payload ApplyAttemptV1_fields (\<lambda>_. Inr ()) payload)
                    (\<lambda>doc. append_attempt H verify pj doc payload))
                else if schema = ''agmind.action-record.v1'' then
                  (case canonical_payload ActionRecordV1_fields (record_hashes_match H) payload of
                     Inl e \<Rightarrow> (pj, Inl e)
                   | Inr doc \<Rightarrow> append_action H verify pj doc)
                else (pj, Inl (ActuatorRecordError ''unsupported actuator journal schema''))))"

definition append_record ::
    "(bytes \<Rightarrow> bytes) \<Rightarrow> (bytes \<Rightarrow> bytes \<Rightarrow> bytes \<Rightarrow> bool) \<Rightarrow> ActuatorProjection \<Rightarrow> bytes \<Rightarrow>
      ActuatorProjection \<times> (actuator_record_error + VerifiedActuatorPayload)" where
  "append_record H verify pj payload =
    (case append_payload H verify pj payload of
       (pj', Inl e) \<Rightarrow> (pj', Inl e)
     | (pj', Inr verified) \<Rightarrow> (pj'\<lparr>pj_previous := va_record_sha256 verified\<rparr>, Inr verified))"

definition mirrored_intent :: "ActuatorProjection \<Rightarrow> str \<Rightarrow> ReservationState \<Rightarrow> MirroredIntentState" where
  "mirrored_intent pj intent reservation =
    (case Mapping.lookup (pj_by_intent pj) intent of
       None \<Rightarrow> \<lparr>mi_intent_id = intent, mi_intent_sha256 = rv_intent_sha256 reservation, mi_state = ''RESERVED'',
         mi_prepared_plan = None, mi_latest_record_id = None, mi_latest_record_sha256 = None, mi_observed_at = None\<rparr>
     | Some prepared \<Rightarrow>
         (case Mapping.lookup (pj_outcomes pj) (get_str (pp_plan prepared) ''plan_id'') of
            None \<Rightarrow> \<lparr>mi_intent_id = intent, mi_intent_sha256 = rv_intent_sha256 reservation, mi_state = ''PREPARED'',
              mi_prepared_plan = Some (pp_plan prepared), mi_latest_record_id = Some (pp_record_id prepared),
              mi_latest_record_sha256 = Some (pp_record_sha256 prepared),
              mi_observed_at = Some (get_str (pp_plan prepared) ''prepared_at'')\<rparr>
          | Some outcome \<Rightarrow> \<lparr>mi_intent_id = intent, mi_intent_sha256 = rv_intent_sha256 reservation, mi_state = oc_state outcome,
              mi_prepared_plan = Some (pp_plan prepared), mi_latest_record_id = Some (oc_record_id outcome),
              mi_latest_record_sha256 = Some (oc_record_sha256 outcome), mi_observed_at = Some (oc_observed_at outcome)\<rparr>))"

definition intents :: "ActuatorProjection \<Rightarrow> MirroredIntentState list" where
  "intents pj = map (\<lambda>intent. mirrored_intent pj intent (the (Mapping.lookup (pj_reservations pj) intent)))
    (Mapping.ordered_keys (pj_reservations pj))"

end
