(* ===== verification/ActuatorUndo.thy ===== *)
theory ActuatorUndo
  imports ActuatorRecords
begin

text \<open>
  The undo log of the actuator projection: every change made inside a transaction is logged so that a
  rollback restores the state at its begin. \<open>keeps_undone\<close> is the contract of every state change, and
  \<open>append_record_cases\<close> the case analysis of one appended payload that later proofs share.
\<close>

section \<open>The undo log\<close>

lemma restore_lookup: "Mapping.lookup (restore prior k m) j = (if j = k then prior else Mapping.lookup m j)"
  by (cases prior; cases "j = k") (simp_all add: lookup_update' lookup_delete lookup_delete_neq)

text \<open>Undoing a log from its end leaves at every key the value of the first entry for it.\<close>

lemma fold_restore_lookup:
  "Mapping.lookup (fold (\<lambda>(k, prior). restore prior k) (rev cs) m) j =
    (case map_of cs j of Some prior \<Rightarrow> prior | None \<Rightarrow> Mapping.lookup m j)"
  by (induction cs arbitrary: m) (auto simp: restore_lookup split: option.splits)

fun change_id :: "change \<Rightarrow> mapping_name \<times> str" where
  "change_id (ReservationChange k p) = (Reservations, k)"
| "change_id (ByIntentChange k p) = (ByIntent, k)"
| "change_id (ByPlanChange k p) = (ByPlan, k)"
| "change_id (OutcomeChange k p) = (Outcomes, k)"
| "change_id (AttemptChange k p) = (Attempts, k)"

fun reservation_log :: "change list \<Rightarrow> (str \<times> ReservationState option) list" where
  "reservation_log [] = []"
| "reservation_log (ReservationChange k p # cs) = (k, p) # reservation_log cs"
| "reservation_log (_ # cs) = reservation_log cs"

fun by_intent_log :: "change list \<Rightarrow> (str \<times> PreparedState option) list" where
  "by_intent_log [] = []"
| "by_intent_log (ByIntentChange k p # cs) = (k, p) # by_intent_log cs"
| "by_intent_log (_ # cs) = by_intent_log cs"

fun by_plan_log :: "change list \<Rightarrow> (str \<times> PreparedState option) list" where
  "by_plan_log [] = []"
| "by_plan_log (ByPlanChange k p # cs) = (k, p) # by_plan_log cs"
| "by_plan_log (_ # cs) = by_plan_log cs"

fun outcome_log :: "change list \<Rightarrow> (str \<times> OutcomeState option) list" where
  "outcome_log [] = []"
| "outcome_log (OutcomeChange k p # cs) = (k, p) # outcome_log cs"
| "outcome_log (_ # cs) = outcome_log cs"

fun attempt_log :: "change list \<Rightarrow> (str \<times> AttemptState option) list" where
  "attempt_log [] = []"
| "attempt_log (AttemptChange k p # cs) = (k, p) # attempt_log cs"
| "attempt_log (_ # cs) = attempt_log cs"

lemma log_append [simp]:
  "reservation_log (cs @ ds) = reservation_log cs @ reservation_log ds" "by_intent_log (cs @ ds) = by_intent_log cs @ by_intent_log ds"
  "by_plan_log (cs @ ds) = by_plan_log cs @ by_plan_log ds" "outcome_log (cs @ ds) = outcome_log cs @ outcome_log ds"
  "attempt_log (cs @ ds) = attempt_log cs @ attempt_log ds"
  by (induction cs rule: reservation_log.induct) auto

lemma log_keys:
  "fst ` set (reservation_log cs) = {k. (Reservations, k) \<in> change_id ` set cs}"
  "fst ` set (by_intent_log cs) = {k. (ByIntent, k) \<in> change_id ` set cs}"
  "fst ` set (by_plan_log cs) = {k. (ByPlan, k) \<in> change_id ` set cs}"
  "fst ` set (outcome_log cs) = {k. (Outcomes, k) \<in> change_id ` set cs}"
  "fst ` set (attempt_log cs) = {k. (Attempts, k) \<in> change_id ` set cs}"
  by (induction cs rule: reservation_log.induct) auto

abbreviation unwind :: "(str \<times> 'a option) list \<Rightarrow> (str, 'a) mapping \<Rightarrow> (str, 'a) mapping" where
  "unwind cs m \<equiv> fold (\<lambda>(k, prior). restore prior k) (rev cs) m"

lemma fold_undo:
  "pj_reservations (fold undo (rev cs) pj) = unwind (reservation_log cs) (pj_reservations pj)"
  "pj_by_intent (fold undo (rev cs) pj) = unwind (by_intent_log cs) (pj_by_intent pj)"
  "pj_by_plan (fold undo (rev cs) pj) = unwind (by_plan_log cs) (pj_by_plan pj)"
  "pj_outcomes (fold undo (rev cs) pj) = unwind (outcome_log cs) (pj_outcomes pj)"
  "pj_attempts (fold undo (rev cs) pj) = unwind (attempt_log cs) (pj_attempts pj)"
  "pj_public_key (fold undo (rev cs) pj) = pj_public_key pj"
  "pj_previous (fold undo (rev cs) pj) = pj_previous pj" "pj_actions (fold undo (rev cs) pj) = pj_actions pj"
  by (induction cs arbitrary: pj rule: reservation_log.induct) auto

lemma unwind_update_seen:
  assumes "k \<in> fst ` set cs"
  shows "unwind cs (Mapping.update k v m) = unwind cs m"
proof -
  from assms obtain p where "map_of cs k = Some p" by (metis map_of_eq_None_iff not_None_eq)
  then show ?thesis by (intro mapping_eqI) (auto simp: fold_restore_lookup lookup_update' split: option.splits)
qed

lemma unwind_prior_new:
  assumes "k \<notin> fst ` set cs"
  shows "unwind (cs @ [(k, Mapping.lookup m k)]) m = unwind cs m"
proof -
  from assms have "map_of cs k = None" by (simp add: map_of_eq_None_iff)
  then show ?thesis
    by (intro mapping_eqI)
      (auto simp: fold_restore_lookup map_add_def simp del: rev_append fold_append split: option.splits)
qed

text \<open>What a rollback restores, and the consistency of the log it rests on.\<close>

definition undone :: "ActuatorProjection \<Rightarrow> ActuatorProjection" where
  "undone pj =
    (case pj_transaction pj of
       None \<Rightarrow> pj
     | Some tx \<Rightarrow> (fold undo (rev (tx_changes tx)) pj)\<lparr>pj_actions := take (tx_action_count tx) (pj_actions pj),
         pj_previous := tx_previous tx, pj_transaction := None\<rparr>)"

definition tx_wf :: "ActuatorProjection \<Rightarrow> bool" where
  "tx_wf pj \<longleftrightarrow> (\<forall>tx. pj_transaction pj = Some tx \<longrightarrow>
    set (tx_seen tx) = change_id ` set (tx_changes tx) \<and> tx_action_count tx \<le> length (pj_actions pj))"

text \<open>\<open>keeps_undone pj pj'\<close>: within a transaction, \<open>pj'\<close> rolls back to what \<open>pj\<close> rolls back to.\<close>

definition keeps_undone :: "ActuatorProjection \<Rightarrow> ActuatorProjection \<Rightarrow> bool" where
  "keeps_undone pj pj' \<longleftrightarrow> map_option tx_self (pj_transaction pj') = map_option tx_self (pj_transaction pj) \<and>
    (tx_wf pj \<longrightarrow> tx_wf pj' \<and> (pj_transaction pj \<noteq> None \<longrightarrow> undone pj' = undone pj))"

lemma keeps_undone_refl: "keeps_undone pj pj"
  by (simp add: keeps_undone_def)

lemma keeps_undone_trans: "keeps_undone a b \<Longrightarrow> keeps_undone b c \<Longrightarrow> keeps_undone a c"
  by (auto simp: keeps_undone_def)

lemma projection_eqI:
  "pj_public_key a = pj_public_key b \<Longrightarrow> pj_previous a = pj_previous b \<Longrightarrow> pj_actions a = pj_actions b \<Longrightarrow>
   pj_reservations a = pj_reservations b \<Longrightarrow> pj_by_intent a = pj_by_intent b \<Longrightarrow> pj_by_plan a = pj_by_plan b \<Longrightarrow>
   pj_outcomes a = pj_outcomes b \<Longrightarrow> pj_attempts a = pj_attempts b \<Longrightarrow> pj_transaction a = pj_transaction b \<Longrightarrow> a = b"
  for a b :: ActuatorProjection
  by (rule ActuatorProjection.equality) simp_all

definition undo_agrees :: "ActuatorProjection \<Rightarrow> ActuatorProjection \<Rightarrow> ProjectionTransaction \<Rightarrow> bool" where
  "undo_agrees pj pj' tx \<longleftrightarrow> (\<exists>tx'. pj_transaction pj' = Some tx' \<and> tx_self tx' = tx_self tx \<and>
      tx_previous tx' = tx_previous tx \<and> tx_action_count tx' = tx_action_count tx \<and>
      (tx_wf pj \<longrightarrow> set (tx_seen tx') = change_id ` set (tx_changes tx') \<and> tx_action_count tx \<le> length (pj_actions pj') \<and>
        take (tx_action_count tx) (pj_actions pj') = take (tx_action_count tx) (pj_actions pj) \<and>
        unwind (reservation_log (tx_changes tx')) (pj_reservations pj') = unwind (reservation_log (tx_changes tx)) (pj_reservations pj) \<and>
        unwind (by_intent_log (tx_changes tx')) (pj_by_intent pj') = unwind (by_intent_log (tx_changes tx)) (pj_by_intent pj) \<and>
        unwind (by_plan_log (tx_changes tx')) (pj_by_plan pj') = unwind (by_plan_log (tx_changes tx)) (pj_by_plan pj) \<and>
        unwind (outcome_log (tx_changes tx')) (pj_outcomes pj') = unwind (outcome_log (tx_changes tx)) (pj_outcomes pj) \<and>
        unwind (attempt_log (tx_changes tx')) (pj_attempts pj') = unwind (attempt_log (tx_changes tx)) (pj_attempts pj)))"

lemma keeps_undone_I:
  assumes "\<And>tx. pj_transaction pj = Some tx \<Longrightarrow> undo_agrees pj pj' tx"
    and "pj_transaction pj = None \<Longrightarrow> pj_transaction pj' = None" and "pj_public_key pj' = pj_public_key pj"
  shows "keeps_undone pj pj'"
proof (cases "pj_transaction pj")
  case None
  with assms(2) show ?thesis by (simp add: keeps_undone_def tx_wf_def)
next
  case (Some tx)
  from assms(1) [OF this] obtain tx' where tx': "pj_transaction pj' = Some tx'" and self: "tx_self tx' = tx_self tx"
    unfolding undo_agrees_def by blast
  note facts = assms(1) [OF Some, unfolded undo_agrees_def tx', simplified]
  have "tx_wf pj \<Longrightarrow> tx_wf pj'" using facts by (simp add: tx_wf_def tx')
  moreover have "undone pj' = undone pj" if "tx_wf pj"
    using facts that unfolding undone_def Some tx' option.case
    by (intro projection_eqI) (simp_all add: fold_undo assms(3))
  ultimately show ?thesis using Some tx' self by (simp add: keeps_undone_def)
qed

lemmas set_state_defs = set_reservation_def set_by_intent_def set_by_plan_def set_outcome_def set_attempt_def

lemmas set_state_simps = undo_agrees_def set_state_defs note_change_def tx_wf_def log_keys unwind_update_seen unwind_prior_new

lemma keeps_undone_reservation: "keeps_undone pj (set_reservation k r pj)"
proof (rule keeps_undone_I)
  fix tx assume "pj_transaction pj = Some tx"
  then show "undo_agrees pj (set_reservation k r pj) tx"
    by (cases "(Reservations, k) \<in> set (tx_seen tx)") (auto simp: set_state_simps simp del: rev_append fold_append)
qed (auto simp: set_state_simps split: option.splits)

lemma keeps_undone_by_intent: "keeps_undone pj (set_by_intent k p pj)"
proof (rule keeps_undone_I)
  fix tx assume "pj_transaction pj = Some tx"
  then show "undo_agrees pj (set_by_intent k p pj) tx"
    by (cases "(ByIntent, k) \<in> set (tx_seen tx)") (auto simp: set_state_simps simp del: rev_append fold_append)
qed (auto simp: set_state_simps split: option.splits)

lemma keeps_undone_by_plan: "keeps_undone pj (set_by_plan k p pj)"
proof (rule keeps_undone_I)
  fix tx assume "pj_transaction pj = Some tx"
  then show "undo_agrees pj (set_by_plan k p pj) tx"
    by (cases "(ByPlan, k) \<in> set (tx_seen tx)") (auto simp: set_state_simps simp del: rev_append fold_append)
qed (auto simp: set_state_simps split: option.splits)

lemma keeps_undone_outcome: "keeps_undone pj (set_outcome k x pj)"
proof (rule keeps_undone_I)
  fix tx assume "pj_transaction pj = Some tx"
  then show "undo_agrees pj (set_outcome k x pj) tx"
    by (cases "(Outcomes, k) \<in> set (tx_seen tx)") (auto simp: set_state_simps simp del: rev_append fold_append)
qed (auto simp: set_state_simps split: option.splits)

lemma keeps_undone_attempt: "keeps_undone pj (set_attempt k a pj)"
proof (rule keeps_undone_I)
  fix tx assume "pj_transaction pj = Some tx"
  then show "undo_agrees pj (set_attempt k a pj) tx"
    by (cases "(Attempts, k) \<in> set (tx_seen tx)") (auto simp: set_state_simps simp del: rev_append fold_append)
qed (auto simp: set_state_simps split: option.splits)

lemma keeps_undone_action: "keeps_undone pj (pj\<lparr>pj_actions := pj_actions pj @ [doc]\<rparr>)"
  by (rule keeps_undone_I) (auto simp: undo_agrees_def tx_wf_def)

lemma keeps_undone_previous: "keeps_undone pj (pj\<lparr>pj_previous := h\<rparr>)"
  by (rule keeps_undone_I) (auto simp: undo_agrees_def tx_wf_def)

lemmas keeps_undone_intros = keeps_undone_refl keeps_undone_reservation keeps_undone_by_intent keeps_undone_by_plan
  keeps_undone_outcome keeps_undone_attempt keeps_undone_action keeps_undone_previous

section \<open>One appended payload\<close>

lemma refuse_Inr [result_simps]: "refuse bad m = Inr u \<longleftrightarrow> \<not> bad"
  by (simp add: refuse_def)

lemma verified_or_fail_Inr [result_simps]: "verified_or_fail r = Inr x \<longleftrightarrow> r = Inr x"
  by (cases r) (simp_all add: verified_or_fail_def map_err_def)

lemma verified_or_fail_ok [simp]: "verified_or_fail (Inr x) = Inr x"
  by (simp add: result_simps)

lemma canonical_payload_Inr:
  "canonical_payload spec after raw = Inr doc \<longleftrightarrow>
    decode_strict spec after raw MAX_PAYLOAD_BYTES = Inr doc \<and> canonical (JObj (model_dump doc)) = Inr raw"
  by (auto simp: canonical_payload_def result_simps)

lemma on_success_cases:
  assumes "on_success pj x = (p, r)"
  shows "(\<exists>e. r = Inl e \<and> p = pj) \<or> (\<exists>v. r = Inr v \<and> x = Inr (v, p))"
  using assms by (auto simp: on_success_def split: sum.splits prod.splits)

lemma append_action_cases:
  assumes "append_action H verify pj doc = (p, r)" and "canonical (JObj (model_dump doc)) = Inr payload"
  shows "(\<exists>e. r = Inl e \<and> p = pj) \<or> (\<exists>intent q. apply_action_record H verify pj doc = Inr (intent, q) \<and>
    p = q\<lparr>pj_actions := pj_actions q @ [doc]\<rparr> \<and>
    r = Inr \<lparr>va_schema_version = get_str doc ''schema_version'', va_record_sha256 = get_str doc ''record_sha256'',
      va_payload = payload, va_intent_id = Some intent, va_plan_id = Some (get_str doc ''plan_id'')\<rparr>)"
  using assms by (auto simp: append_action_def split: sum.splits prod.splits)

lemma append_payload_cases:
  assumes "append_payload H verify pj payload = (p, r)"
  shows "(\<exists>e. r = Inl e \<and> p = pj) \<or>
    on_success pj (rbind (canonical_payload RateReservationV1_fields (\<lambda>_. Inr ()) payload)
      (\<lambda>doc. append_reservation H verify pj doc payload)) = (p, r) \<or>
    on_success pj (rbind (canonical_payload ApplyAttemptV1_fields (\<lambda>_. Inr ()) payload)
      (\<lambda>doc. append_attempt H verify pj doc payload)) = (p, r) \<or>
    (\<exists>doc. canonical_payload ActionRecordV1_fields (record_hashes_match H) payload = Inr doc \<and> append_action H verify pj doc = (p, r))"
  using assms unfolding append_payload_def by (simp only: split: if_splits sum.splits option.splits) auto

lemma append_record_cases:
  assumes "append_record H verify pj payload = (pj', r)"
  obtains
    (failed) e where "r = Inl e" "pj' = pj"
  | (reservation) doc verified q where "r = Inr verified" "canonical_payload RateReservationV1_fields (\<lambda>_. Inr ()) payload = Inr doc"
      "append_reservation H verify pj doc payload = Inr (verified, q)" "pj' = q\<lparr>pj_previous := va_record_sha256 verified\<rparr>"
  | (attempt) doc verified q where "r = Inr verified" "canonical_payload ApplyAttemptV1_fields (\<lambda>_. Inr ()) payload = Inr doc"
      "append_attempt H verify pj doc payload = Inr (verified, q)" "pj' = q\<lparr>pj_previous := va_record_sha256 verified\<rparr>"
  | (action) doc intent q where "canonical_payload ActionRecordV1_fields (record_hashes_match H) payload = Inr doc"
      "apply_action_record H verify pj doc = Inr (intent, q)"
      "r = Inr \<lparr>va_schema_version = get_str doc ''schema_version'', va_record_sha256 = get_str doc ''record_sha256'',
              va_payload = payload, va_intent_id = Some intent, va_plan_id = Some (get_str doc ''plan_id'')\<rparr>"
      "pj' = q\<lparr>pj_actions := pj_actions q @ [doc], pj_previous := get_str doc ''record_sha256''\<rparr>"
proof -
  obtain p r' where p: "append_payload H verify pj payload = (p, r')" by fastforce
  with assms have r: "r = r'" and pj': "pj' = (case r' of Inl _ \<Rightarrow> p | Inr v \<Rightarrow> p\<lparr>pj_previous := va_record_sha256 v\<rparr>)"
    by (auto simp: append_record_def split: sum.splits)
  from append_payload_cases [OF p] show thesis
  proof (elim disjE exE conjE)
    fix e assume "r' = Inl e" "p = pj"
    with r pj' failed show thesis by simp
  next
    assume "on_success pj (rbind (canonical_payload RateReservationV1_fields (\<lambda>_. Inr ()) payload)
      (\<lambda>doc. append_reservation H verify pj doc payload)) = (p, r')"
    from on_success_cases [OF this] r pj' failed reservation show thesis by (auto simp: result_simps)
  next
    assume "on_success pj (rbind (canonical_payload ApplyAttemptV1_fields (\<lambda>_. Inr ()) payload)
      (\<lambda>doc. append_attempt H verify pj doc payload)) = (p, r')"
    from on_success_cases [OF this] r pj' failed attempt show thesis by (auto simp: result_simps)
  next
    fix doc assume d: "canonical_payload ActionRecordV1_fields (record_hashes_match H) payload = Inr doc" "append_action H verify pj doc = (p, r')"
    from append_action_cases [OF d(2)] d(1) r pj' failed action show thesis by (auto simp: canonical_payload_Inr)
  qed
qed

text \<open>The shape of each change, with the conditions later proofs need.\<close>

lemma append_reservation_Inr:
  assumes "append_reservation H verify pj doc payload = Inr (verified, q)"
  shows "Mapping.lookup (pj_by_intent pj) (get_str doc ''intent_id'') = None"
    and "\<And>prior. Mapping.lookup (pj_reservations pj) (get_str doc ''intent_id'') = Some prior \<Longrightarrow> rv_intent_sha256 prior = get_str doc ''intent_sha256''"
    and "q = set_reservation (get_str doc ''intent_id'') \<lparr>rv_intent_sha256 = get_str doc ''intent_sha256'',
      rv_reserved_at = get_str doc ''reserved_at'', rv_record_sha256 = get_str doc ''record_sha256''\<rparr> pj"
    and "va_record_sha256 verified = get_str doc ''record_sha256''" and "va_payload verified = payload"
    and "get_str doc ''previous_record_sha256'' = pj_previous pj"
  using assms by (auto simp: append_reservation_def chain_is_valid_def result_simps Let_def split: option.splits)

lemma append_attempt_Inr:
  assumes "append_attempt H verify pj doc payload = Inr (verified, q)"
  obtains prepared outcome where
    "Mapping.lookup (pj_by_plan pj) (get_str doc ''plan_id'') = Some prepared"
    "Mapping.lookup (pj_outcomes pj) (get_str doc ''plan_id'') = Some outcome"
    "attempt_binds_plan pj doc prepared outcome"
    "q = set_attempt (get_str doc ''plan_id'') \<lparr>at_record_sha256 = get_str doc ''record_sha256'',
      at_expected_ruleset_sha256 = get_str doc ''expected_ruleset_sha256''\<rparr> pj"
    "va_record_sha256 verified = get_str doc ''record_sha256''" "va_payload verified = payload"
    "get_str doc ''previous_record_sha256'' = pj_previous pj"
  using assms by (auto simp: append_attempt_def chain_is_valid_def result_simps Let_def split: option.splits)

lemma append_prepared_Inr:
  assumes "append_prepared H pj doc = Inr (intent, q)"
  obtains plan digest deadline where
    "decode_strict PreparedTemporaryEgressDenyPlanV1_fields (identifiers_and_expiry_match H)
      (case canonical (doc_get (get_obj doc ''details'') ''prepared_plan'') of Inr raw \<Rightarrow> raw | Inl _ \<Rightarrow> []) MAX_PAYLOAD_BYTES = Inr plan"
    "intent = get_str plan ''intent_id''" "actuator_intent_sha256 H plan = Inr digest" "prepared_binds H pj doc plan digest"
    "q = set_by_plan (get_str plan ''plan_id'') \<lparr>pp_plan = plan, pp_intent_sha256 = digest, pp_approval_deadline_boottime_ns = deadline,
        pp_record_id = get_str doc ''record_id'', pp_record_sha256 = get_str doc ''record_sha256''\<rparr>
      (set_by_intent intent \<lparr>pp_plan = plan, pp_intent_sha256 = digest, pp_approval_deadline_boottime_ns = deadline,
        pp_record_id = get_str doc ''record_id'', pp_record_sha256 = get_str doc ''record_sha256''\<rparr> pj)"
  using assms by (auto simp: append_prepared_def result_simps Let_def split: sum.splits)

lemma append_decision_Inr:
  assumes "append_decision pj doc = Inr (intent, q)"
  shows "q = set_outcome (get_str doc ''plan_id'') (outcome_of doc) pj"
  using assms by (auto simp: append_decision_def result_simps Let_def split: option.splits)

lemma append_lifecycle_Inr:
  assumes "append_lifecycle pj doc = Inr (intent, q)"
  shows "q = set_outcome (get_str doc ''plan_id'') (outcome_of doc) pj"
  using assms by (auto simp: append_lifecycle_def result_simps Let_def split: option.splits)

lemma apply_action_record_Inr:
  assumes "apply_action_record H verify pj doc = Inr (intent, q)"
  obtains
    (prepared) "get_str doc ''state'' = ''PREPARED''" "append_prepared H pj doc = Inr (intent, q)"
  | (decision) "get_str doc ''state'' \<in> {''APPROVED'', ''REJECTED'', ''EXPIRED_UNAPPLIED''}"
      "Mapping.lookup (pj_outcomes pj) (get_str doc ''plan_id'') = None" "append_decision pj doc = Inr (intent, q)"
  | (lifecycle) "append_lifecycle pj doc = Inr (intent, q)"
  using assms by (auto simp: apply_action_record_def result_simps Let_def split: if_splits)

lemma append_keeps_undone:
  assumes "append_record H verify pj payload = (pj', r)"
  shows "keeps_undone pj pj'"
  using assms
proof (cases rule: append_record_cases)
  case (reservation doc verified q)
  have "keeps_undone pj q" unfolding append_reservation_Inr(3) [OF reservation(3)] by (rule keeps_undone_reservation)
  from keeps_undone_trans [OF this keeps_undone_previous] reservation(4) show ?thesis by simp
next
  case (attempt doc verified q)
  from attempt(3) have "keeps_undone pj q" by (rule append_attempt_Inr) (simp add: keeps_undone_attempt)
  from keeps_undone_trans [OF this keeps_undone_previous] attempt(4) show ?thesis by simp
next
  case (action doc intent q)
  from action(2) have "keeps_undone pj q"
  proof (cases rule: apply_action_record_Inr)
    case prepared
    from prepared(2) show ?thesis
      by (rule append_prepared_Inr) (simp add: keeps_undone_trans [OF keeps_undone_by_intent keeps_undone_by_plan])
  next
    case decision
    show ?thesis unfolding append_decision_Inr [OF decision(3)] by (rule keeps_undone_outcome)
  next
    case lifecycle
    show ?thesis unfolding append_lifecycle_Inr [OF lifecycle] by (rule keeps_undone_outcome)
  qed
  from keeps_undone_trans [OF keeps_undone_trans [OF this keeps_undone_action] keeps_undone_previous] action(4)
  show ?thesis by simp
qed (simp add: keeps_undone_refl)

section \<open>Transactions\<close>

abbreviation appends ::
    "(bytes \<Rightarrow> bytes) \<Rightarrow> (bytes \<Rightarrow> bytes \<Rightarrow> bytes \<Rightarrow> bool) \<Rightarrow> bytes list \<Rightarrow> ActuatorProjection \<Rightarrow> ActuatorProjection" where
  "appends H verify payloads pj \<equiv> fold (\<lambda>payload q. fst (append_record H verify q payload)) payloads pj"

lemma appends_keep_undone: "keeps_undone pj (appends H verify payloads pj)"
proof (induction payloads arbitrary: pj)
  case (Cons payload payloads)
  have "keeps_undone pj (fst (append_record H verify pj payload))" by (rule append_keeps_undone) (rule surjective_pairing)
  from keeps_undone_trans [OF this Cons.IH] show ?case by simp
qed (simp add: keeps_undone_refl)

lemma rollback_undone:
  "pj_transaction pj = Some tx \<Longrightarrow> tx_self tx = self \<Longrightarrow> rollback_extension self pj = Inr (undone pj)"
  by (simp add: rollback_extension_def undone_def refuse_def)

lemma begin_Inr:
  assumes "begin_extension self pj = Inr pj1"
  shows "pj_transaction pj = None" "undone pj1 = pj" "tx_wf pj1"
    "pj_transaction pj1 = Some \<lparr>tx_self = self, tx_previous = pj_previous pj, tx_action_count = length (pj_actions pj), tx_changes = [], tx_seen = []\<rparr>"
  using assms by (auto simp: begin_extension_def result_simps undone_def tx_wf_def)

end
