(* ===== verification/ActuatorProps.thy ===== *)
theory ActuatorProps
  imports ActuatorUndo
begin

text \<open>
  What the actuator projection guarantees: the recorded states of every plan follow its lifecycle, an
  application is preceded by a timely approval of a local administrator and bounded by the plan's time to
  live, and the projected intents show the latest record of their plan.
\<close>

section \<open>Histories of a plan\<close>

abbreviation state_of :: "document \<Rightarrow> str" where "state_of doc \<equiv> get_str doc ''state''"
abbreviation plan_of :: "document \<Rightarrow> str" where "plan_of doc \<equiv> get_str doc ''plan_id''"

definition plan_docs :: "ActuatorProjection \<Rightarrow> str \<Rightarrow> document list" where
  "plan_docs pj p = filter (\<lambda>doc. plan_of doc = p) (pj_actions pj)"

abbreviation plan_states :: "ActuatorProjection \<Rightarrow> str \<Rightarrow> str list" where
  "plan_states pj p \<equiv> map state_of (plan_docs pj p)"

text \<open>Every sequence of recorded states a plan can have, without and with a recorded attempt.\<close>

definition PLAN_HISTORIES :: "bool \<Rightarrow> str list list" where
  "PLAN_HISTORIES attempted =
    (if attempted then
       [[''PREPARED'', ''APPROVED''],
        [''PREPARED'', ''APPROVED'', ''REJECTED''],
        [''PREPARED'', ''APPROVED'', ''FAILED_DIRTY''],
        [''PREPARED'', ''APPROVED'', ''APPLIED''],
        [''PREPARED'', ''APPROVED'', ''APPLIED'', ''EXPIRED''],
        [''PREPARED'', ''APPROVED'', ''APPLIED'', ''FAILED_DIRTY''],
        [''PREPARED'', ''APPROVED'', ''APPLIED'', ''VERIFIED''],
        [''PREPARED'', ''APPROVED'', ''APPLIED'', ''VERIFIED'', ''EXPIRED''],
        [''PREPARED'', ''APPROVED'', ''APPLIED'', ''VERIFIED'', ''FAILED_DIRTY'']]
     else
       [[], [''PREPARED''], [''PREPARED'', ''APPROVED''], [''PREPARED'', ''REJECTED''], [''PREPARED'', ''EXPIRED_UNAPPLIED''],
        [''PREPARED'', ''APPROVED'', ''STALE_ABORT''], [''PREPARED'', ''APPROVED'', ''REJECTED'']])"

lemma history_checks:
  "list_all (\<lambda>b. [] \<in> set (PLAN_HISTORIES b) \<longrightarrow> \<not> b \<and> [''PREPARED''] \<in> set (PLAN_HISTORIES b)) [True, False]"
  "list_all (\<lambda>b. list_all (\<lambda>h. h \<noteq> [] \<and> List.tl h = [] \<longrightarrow>
    list_all (\<lambda>s. h @ [s] \<in> set (PLAN_HISTORIES b)) [''APPROVED'', ''REJECTED'', ''EXPIRED_UNAPPLIED'']) (PLAN_HISTORIES b)) [True, False]"
  "list_all (\<lambda>h. h \<noteq> [] \<and> last h = ''APPROVED'' \<longrightarrow> h \<in> set (PLAN_HISTORIES True)) (PLAN_HISTORIES False)"
  "list_all (\<lambda>b. list_all (\<lambda>h. h \<noteq> [] \<longrightarrow>
    list_all (\<lambda>s. h @ [s] \<in> set (PLAN_HISTORIES b)) (allowed_after (last h) b)) (PLAN_HISTORIES b)) [True, False]"
  by code_simp+

lemma history_prepare: "[] \<in> set (PLAN_HISTORIES b) \<Longrightarrow> \<not> b \<and> [''PREPARED''] \<in> set (PLAN_HISTORIES b)"
  using history_checks(1) by (cases b) (simp_all del: set_simps)

lemma history_decide:
  "h \<in> set (PLAN_HISTORIES b) \<Longrightarrow> h \<noteq> [] \<Longrightarrow> List.tl h = [] \<Longrightarrow> s \<in> {''APPROVED'', ''REJECTED'', ''EXPIRED_UNAPPLIED''} \<Longrightarrow>
    h @ [s] \<in> set (PLAN_HISTORIES b)"
  using history_checks(2) by (cases b) (auto simp: list_all_iff)

lemma history_attempt:
  "h \<in> set (PLAN_HISTORIES False) \<Longrightarrow> h \<noteq> [] \<Longrightarrow> last h = ''APPROVED'' \<Longrightarrow> h \<in> set (PLAN_HISTORIES True)"
  using history_checks(3) by (simp add: list_all_iff)

lemma history_advance:
  "h \<in> set (PLAN_HISTORIES b) \<Longrightarrow> h \<noteq> [] \<Longrightarrow> s \<in> set (allowed_after (last h) b) \<Longrightarrow> h @ [s] \<in> set (PLAN_HISTORIES b)"
  using history_checks(4) by (cases b) (simp_all add: list_all_iff)

text \<open>What an approval and an application are bound to.\<close>

definition approval_is_timely :: "PreparedState \<Rightarrow> document \<Rightarrow> bool" where
  "approval_is_timely prepared doc \<longleftrightarrow>
    (let details = get_obj doc ''details''; plan = pp_plan prepared; deadline = pp_approval_deadline_boottime_ns prepared in
     (get_str details ''authorization_basis'' = ''root'' \<and> get_int details ''admin_uid'' = 0 \<or>
      get_str details ''authorization_basis'' \<in> {''primary_group'', ''supplementary_group''} \<and> get_int details ''admin_uid'' \<noteq> 0) \<and>
     get_str details ''decision_boot_id'' = get_str plan ''boot_id'' \<and> get_str doc ''plan_hash'' = get_str plan ''plan_hash'' \<and>
     get_str details ''previous_action_record_sha256'' = pp_record_sha256 prepared \<and>
     deadline - APPROVAL_TTL_NS \<le> get_int details ''decision_boottime_ns'' \<and> get_int details ''decision_boottime_ns'' < deadline \<and>
     (\<exists>observed prepared_at expires_at. record_timestamp (get_str doc ''observed_at'') = Inr observed \<and>
       record_timestamp (get_str plan ''prepared_at'') = Inr prepared_at \<and>
       record_timestamp (get_str plan ''approval_expires_at'') = Inr expires_at \<and>
       \<not> time_before observed prepared_at \<and> time_before observed expires_at))"

definition application_is_bounded :: "PreparedState \<Rightarrow> document \<Rightarrow> bool" where
  "application_is_bounded prepared doc \<longleftrightarrow>
    (let details = get_obj doc ''details''; plan = pp_plan prepared in
     get_int details ''target_netns_inode'' = get_int plan ''network_namespace_inode'' \<and>
     get_int details ''configured_timeout_ms'' = get_int plan ''ttl_seconds'' * 1000 \<and>
     0 < get_int details ''remaining_timeout_ms'' \<and> get_int details ''remaining_timeout_ms'' \<le> get_int plan ''ttl_seconds'' * 1000 \<and>
     get_int details ''host_netns_before'' = get_int details ''host_netns_after'' \<and>
     get_str details ''transition_boot_id'' = get_str plan ''boot_id'')"

definition record_is_justified :: "ActuatorProjection \<Rightarrow> document \<Rightarrow> bool" where
  "record_is_justified pj doc \<longleftrightarrow> (\<exists>prepared. Mapping.lookup (pj_by_plan pj) (plan_of doc) = Some prepared \<and>
    (state_of doc = ''APPROVED'' \<longrightarrow> approval_is_timely prepared doc) \<and>
    (state_of doc = ''APPLIED'' \<longrightarrow> application_is_bounded prepared doc))"

text \<open>The invariant of the projection.\<close>

definition intents_agree :: "ActuatorProjection \<Rightarrow> bool" where
  "intents_agree pj \<longleftrightarrow>
    (\<forall>p prepared. Mapping.lookup (pj_by_plan pj) p = Some prepared \<longrightarrow>
      get_str (pp_plan prepared) ''plan_id'' = p \<and> Mapping.lookup (pj_by_intent pj) (get_str (pp_plan prepared) ''intent_id'') = Some prepared) \<and>
    (\<forall>i prepared. Mapping.lookup (pj_by_intent pj) i = Some prepared \<longrightarrow>
      get_str (pp_plan prepared) ''intent_id'' = i \<and> Mapping.lookup (pj_by_plan pj) (get_str (pp_plan prepared) ''plan_id'') = Some prepared \<and>
      (\<exists>r. Mapping.lookup (pj_reservations pj) i = Some r \<and> rv_intent_sha256 r = pp_intent_sha256 prepared))"

definition prepared_by :: "PreparedState \<Rightarrow> document \<Rightarrow> bool" where
  "prepared_by prepared doc \<longleftrightarrow> pp_record_id prepared = get_str doc ''record_id'' \<and>
    pp_record_sha256 prepared = get_str doc ''record_sha256'' \<and> get_str doc ''observed_at'' = get_str (pp_plan prepared) ''prepared_at''"

definition plan_inv :: "ActuatorProjection \<Rightarrow> str \<Rightarrow> bool" where
  "plan_inv pj p \<longleftrightarrow>
    plan_states pj p \<in> set (PLAN_HISTORIES (Mapping.lookup (pj_attempts pj) p \<noteq> None)) \<and>
    (Mapping.lookup (pj_by_plan pj) p = None \<longleftrightarrow> plan_docs pj p = []) \<and>
    (\<forall>prepared. Mapping.lookup (pj_by_plan pj) p = Some prepared \<longrightarrow> prepared_by prepared (hd (plan_docs pj p))) \<and>
    Mapping.lookup (pj_outcomes pj) p = (if length (plan_docs pj p) \<le> 1 then None else Some (outcome_of (last (plan_docs pj p))))"

definition projection_inv :: "ActuatorProjection \<Rightarrow> bool" where
  "projection_inv pj \<longleftrightarrow> (\<forall>p. plan_inv pj p) \<and> intents_agree pj \<and> finite (Mapping.keys (pj_reservations pj)) \<and>
    (\<forall>doc\<in>set (pj_actions pj). record_is_justified pj doc)"

section \<open>Every payload keeps the invariant\<close>

lemma note_change_keeps [simp]:
  "pj_public_key (note_change n k e pj) = pj_public_key pj" "pj_previous (note_change n k e pj) = pj_previous pj"
  "pj_actions (note_change n k e pj) = pj_actions pj" "pj_reservations (note_change n k e pj) = pj_reservations pj"
  "pj_by_intent (note_change n k e pj) = pj_by_intent pj" "pj_by_plan (note_change n k e pj) = pj_by_plan pj"
  "pj_outcomes (note_change n k e pj) = pj_outcomes pj" "pj_attempts (note_change n k e pj) = pj_attempts pj"
  by (simp_all add: note_change_def split: option.splits)

lemmas inv_defs = projection_inv_def plan_inv_def intents_agree_def record_is_justified_def plan_docs_def

lemma projection_inv_cong:
  assumes "projection_inv pj" "pj_actions q = pj_actions pj" "pj_reservations q = pj_reservations pj" "pj_by_intent q = pj_by_intent pj"
    "pj_by_plan q = pj_by_plan pj" "pj_outcomes q = pj_outcomes pj" "pj_attempts q = pj_attempts pj"
  shows "projection_inv q"
  using assms unfolding inv_defs by simp

lemma inv_reservation:
  assumes "projection_inv pj" and "append_reservation H verify pj doc payload = Inr (verified, q)"
  shows "projection_inv q"
proof -
  note r = append_reservation_Inr [OF assms(2)]
  have "intents_agree q"
    using assms(1) r(1) unfolding r(3) by (auto simp: projection_inv_def intents_agree_def set_reservation_def lookup_update')
  then show ?thesis using assms(1) unfolding r(3)
    by (simp add: projection_inv_def plan_inv_def plan_docs_def record_is_justified_def set_reservation_def)
qed

lemma inv_attempt:
  assumes "projection_inv pj" and "append_attempt H verify pj doc payload = Inr (verified, q)"
  shows "projection_inv q"
  using assms(2)
proof (rule append_attempt_Inr)
  fix prepared outcome
  let ?p = "plan_of doc"
  assume l: "Mapping.lookup (pj_outcomes pj) ?p = Some outcome" and b: "attempt_binds_plan pj doc prepared outcome"
    and q: "q = set_attempt ?p \<lparr>at_record_sha256 = get_str doc ''record_sha256'', at_expected_ruleset_sha256 = get_str doc ''expected_ruleset_sha256''\<rparr> pj"
  have docs: "plan_docs q = plan_docs pj" by (simp add: q plan_docs_def fun_eq_iff set_attempt_def)
  have inv: "plan_inv pj x" for x using assms(1) by (simp add: projection_inv_def)
  have h: "plan_states pj ?p \<in> set (PLAN_HISTORIES False)" "\<not> length (plan_docs pj ?p) \<le> 1" "outcome = outcome_of (last (plan_docs pj ?p))"
    using inv [of ?p] l b by (auto simp: plan_inv_def attempt_binds_plan_def split: if_splits)
  then have "plan_docs pj ?p \<noteq> []" by auto
  then have "plan_states pj ?p \<noteq> []" "last (plan_states pj ?p) = ''APPROVED''"
    using b h(3) by (simp_all add: last_map attempt_binds_plan_def outcome_of_def)
  from history_attempt [OF h(1) this] have "plan_inv q x" for x
    using inv [of x] unfolding plan_inv_def docs by (auto simp: q set_attempt_def lookup_update')
  then show ?thesis using assms(1) by (simp add: projection_inv_def q intents_agree_def record_is_justified_def set_attempt_def)
qed

lemma plan_docs_snoc:
  "pj_actions q = pj_actions pj @ [doc] \<Longrightarrow> plan_docs q x = plan_docs pj x @ (if plan_of doc = x then [doc] else [])"
  by (simp add: plan_docs_def)

lemma inv_prepared:
  assumes "projection_inv pj" and "append_prepared H pj doc = Inr (intent, q)" and "state_of doc = ''PREPARED''"
  shows "projection_inv (q\<lparr>pj_actions := pj_actions q @ [doc]\<rparr>)"
  using assms(2)
proof (rule append_prepared_Inr)
  fix plan digest deadline
  let ?p = "get_str plan ''plan_id''" and ?q = "q\<lparr>pj_actions := pj_actions q @ [doc]\<rparr>"
  let ?prepared = "\<lparr>pp_plan = plan, pp_intent_sha256 = digest, pp_approval_deadline_boottime_ns = deadline,
    pp_record_id = get_str doc ''record_id'', pp_record_sha256 = get_str doc ''record_sha256''\<rparr>"
  assume i: "intent = get_str plan ''intent_id''" and b: "prepared_binds H pj doc plan digest"
    and q: "q = set_by_plan ?p ?prepared (set_by_intent intent ?prepared pj)"
  have sel: "pj_actions ?q = pj_actions pj @ [doc]" "pj_by_plan ?q = Mapping.update ?p ?prepared (pj_by_plan pj)"
    "pj_by_intent ?q = Mapping.update intent ?prepared (pj_by_intent pj)" "pj_reservations ?q = pj_reservations pj"
    "pj_outcomes ?q = pj_outcomes pj" "pj_attempts ?q = pj_attempts pj"
    by (simp_all add: q set_by_plan_def set_by_intent_def)
  have pb: "prepared_by ?prepared doc" using b by (simp add: prepared_by_def prepared_binds_def)
  have p: "plan_of doc = ?p" "Mapping.lookup (pj_by_plan pj) ?p = None" "Mapping.lookup (pj_by_intent pj) intent = None"
    "\<exists>r. Mapping.lookup (pj_reservations pj) intent = Some r \<and> rv_intent_sha256 r = digest"
    using b i by (auto simp: prepared_binds_def split: option.splits)
  have inv: "plan_inv pj x" for x using assms(1) by (simp add: projection_inv_def)
  have none: "plan_docs pj ?p = []" using inv [of ?p] p(2) by (simp add: plan_inv_def)
  have "plan_inv ?q x" for x
  proof (cases "x = ?p")
    case True
    with inv [of ?p] none history_prepare assms(3) p(1) pb show ?thesis
      by (simp add: plan_inv_def plan_docs_snoc [OF sel(1)] sel lookup_update')
  next
    case False
    with inv [of x] p(1) show ?thesis by (simp add: plan_inv_def plan_docs_snoc [OF sel(1)] sel lookup_update')
  qed
  moreover have "intents_agree ?q"
    using assms(1) p i unfolding projection_inv_def intents_agree_def sel by (auto simp: lookup_update')
  moreover have "record_is_justified ?q d" if "d \<in> set (pj_actions ?q)" for d
    using that assms(1,3) p(1,2) unfolding sel projection_inv_def record_is_justified_def by (auto simp: lookup_update')
  moreover have "finite (Mapping.keys (pj_reservations ?q))" using assms(1) by (simp add: projection_inv_def sel)
  ultimately show ?thesis by (simp add: projection_inv_def)
qed

text \<open>A record that sets the outcome of its plan, after a history that allows it.\<close>

lemma inv_outcome:
  assumes "projection_inv pj" and "q = set_outcome (plan_of doc) (outcome_of doc) pj"
    and "plan_states pj (plan_of doc) @ [state_of doc] \<in> set (PLAN_HISTORIES (Mapping.lookup (pj_attempts pj) (plan_of doc) \<noteq> None))"
    and "plan_docs pj (plan_of doc) \<noteq> []" and "record_is_justified pj doc"
  shows "projection_inv (q\<lparr>pj_actions := pj_actions q @ [doc]\<rparr>)"
proof -
  let ?q = "q\<lparr>pj_actions := pj_actions q @ [doc]\<rparr>"
  have sel: "pj_actions ?q = pj_actions pj @ [doc]" "pj_by_plan ?q = pj_by_plan pj" "pj_by_intent ?q = pj_by_intent pj"
    "pj_reservations ?q = pj_reservations pj" "pj_outcomes ?q = Mapping.update (plan_of doc) (outcome_of doc) (pj_outcomes pj)"
    "pj_attempts ?q = pj_attempts pj"
    by (simp_all add: assms(2) set_outcome_def)
  have inv: "plan_inv pj x" for x using assms(1) by (simp add: projection_inv_def)
  have "plan_inv ?q x" for x
  proof (cases "x = plan_of doc")
    case True
    with inv [of x] assms(3,4) show ?thesis
      by (simp add: plan_inv_def plan_docs_snoc [OF sel(1)] sel lookup_update' not_le)
  next
    case False
    with inv [of x] show ?thesis by (simp add: plan_inv_def plan_docs_snoc [OF sel(1)] sel lookup_update')
  qed
  moreover have "intents_agree ?q" using assms(1) unfolding projection_inv_def intents_agree_def sel by simp
  moreover have "record_is_justified ?q d" if "d \<in> set (pj_actions ?q)" for d
    using that assms(1,5) unfolding sel projection_inv_def record_is_justified_def by auto
  moreover have "finite (Mapping.keys (pj_reservations ?q))" using assms(1) by (simp add: projection_inv_def sel)
  ultimately show ?thesis by (simp add: projection_inv_def)
qed

lemma uint_of_Inr [result_simps]: "uint_of v bits = Inr i \<longleftrightarrow> v = JInt i \<and> 0 \<le> i \<and> i < 2 ^ bits"
  by (auto simp: uint_of_def split: json.splits)

lemma get_int_of: "doc_get doc k = JInt i \<Longrightarrow> get_int doc k = i"
  by (simp add: get_int_def)

lemma decision_facts:
  assumes "append_decision pj doc = Inr (intent, q)" and "Mapping.lookup (pj_by_plan pj) (plan_of doc) = Some prepared"
  obtains boot_time uid gid observed prepared_at expires_at where
    "doc_get (get_obj doc ''details'') ''decision_boottime_ns'' = JInt boot_time"
    "doc_get (get_obj doc ''details'') ''admin_uid'' = JInt uid"
    "get_str doc ''plan_hash'' = get_str (pp_plan prepared) ''plan_hash''"
    "get_str (get_obj doc ''details'') ''previous_action_record_sha256'' = pp_record_sha256 prepared"
    "authority_valid (get_str (get_obj doc ''details'') ''authorization_basis'') uid gid"
    "record_timestamp (get_str doc ''observed_at'') = Inr observed"
    "record_timestamp (get_str (pp_plan prepared) ''prepared_at'') = Inr prepared_at"
    "record_timestamp (get_str (pp_plan prepared) ''approval_expires_at'') = Inr expires_at"
    "decision_clock_valid prepared (state_of doc) (get_str (get_obj doc ''details'') ''decision_basis'')
      (get_str (get_obj doc ''details'') ''authorization_basis'') (get_str (get_obj doc ''details'') ''decision_boot_id'')
      boot_time observed prepared_at expires_at"
  using assms(1) that by (simp only: append_decision_def Let_def assms(2) option.case result_simps) blast

lemma decision_justified:
  assumes "append_decision pj doc = Inr (intent, q)" and "state_of doc \<in> {''APPROVED'', ''REJECTED'', ''EXPIRED_UNAPPLIED''}"
  shows "record_is_justified pj doc"
proof -
  from assms(1) obtain prepared where p: "Mapping.lookup (pj_by_plan pj) (plan_of doc) = Some prepared"
    by (cases "Mapping.lookup (pj_by_plan pj) (plan_of doc)") (simp_all add: append_decision_def Let_def)
  have "approval_is_timely prepared doc" if "state_of doc = ''APPROVED''"
    using assms(1) p
  proof (rule decision_facts)
    fix boot_time uid gid observed prepared_at expires_at
    let ?details = "get_obj doc ''details''"
    assume i: "doc_get ?details ''decision_boottime_ns'' = JInt boot_time" "doc_get ?details ''admin_uid'' = JInt uid"
      and auth: "authority_valid (get_str ?details ''authorization_basis'') uid gid"
      and clock: "decision_clock_valid prepared (state_of doc) (get_str ?details ''decision_basis'') (get_str ?details ''authorization_basis'')
        (get_str ?details ''decision_boot_id'') boot_time observed prepared_at expires_at"
      and rest: "get_str doc ''plan_hash'' = get_str (pp_plan prepared) ''plan_hash''"
        "get_str ?details ''previous_action_record_sha256'' = pp_record_sha256 prepared"
        "record_timestamp (get_str doc ''observed_at'') = Inr observed"
        "record_timestamp (get_str (pp_plan prepared) ''prepared_at'') = Inr prepared_at"
        "record_timestamp (get_str (pp_plan prepared) ''approval_expires_at'') = Inr expires_at"
    from clock that have c: "get_str ?details ''authorization_basis'' \<noteq> ''system_expiry''"
      "get_str ?details ''decision_boot_id'' = get_str (pp_plan prepared) ''boot_id''"
      "\<not> time_before observed prepared_at" "time_before observed expires_at"
      "pp_approval_deadline_boottime_ns prepared - APPROVAL_TTL_NS \<le> boot_time" "boot_time < pp_approval_deadline_boottime_ns prepared"
      by (simp_all add: decision_clock_valid_def Let_def)
    from auth c(1) have "get_str ?details ''authorization_basis'' = ''root'' \<and> uid = 0 \<or>
        get_str ?details ''authorization_basis'' \<in> {''primary_group'', ''supplementary_group''} \<and> uid \<noteq> 0"
      unfolding authority_valid_def by blast
    with c rest show ?thesis by (cases prepared_at; cases expires_at) (simp add: approval_is_timely_def Let_def get_int_of i)
  qed
  with p assms(2) show ?thesis by (auto simp: record_is_justified_def)
qed

lemma inv_decision:
  assumes "projection_inv pj" and "append_decision pj doc = Inr (intent, q)"
    and "Mapping.lookup (pj_outcomes pj) (plan_of doc) = None" and "state_of doc \<in> {''APPROVED'', ''REJECTED'', ''EXPIRED_UNAPPLIED''}"
  shows "projection_inv (q\<lparr>pj_actions := pj_actions q @ [doc]\<rparr>)"
proof (rule inv_outcome [OF assms(1) append_decision_Inr [OF assms(2)]])
  let ?p = "plan_of doc"
  have j: "record_is_justified pj doc" by (rule decision_justified [OF assms(2,4)])
  have inv: "plan_inv pj ?p" using assms(1) by (simp add: projection_inv_def)
  show docs: "plan_docs pj ?p \<noteq> []" using inv j by (auto simp: plan_inv_def record_is_justified_def)
  have "List.tl (plan_states pj ?p) = []" using inv assms(3) docs
    by (cases "plan_docs pj ?p") (auto simp: plan_inv_def split: if_splits)
  with inv docs assms(4) show "plan_states pj ?p @ [state_of doc] \<in> set (PLAN_HISTORIES (Mapping.lookup (pj_attempts pj) ?p \<noteq> None))"
    by (intro history_decide) (simp_all add: plan_inv_def)
  show "record_is_justified pj doc" by (fact j)
qed

lemma lifecycle_body:
  assumes "append_lifecycle pj doc = Inr (intent, q)" and "Mapping.lookup (pj_by_plan pj) (plan_of doc) = Some prepared"
    and "Mapping.lookup (pj_outcomes pj) (plan_of doc) = Some prior"
  shows "state_of doc \<in> set (allowed_after (oc_state prior) (Mapping.lookup (pj_attempts pj) (plan_of doc) \<noteq> None))"
    and "state_of doc = ''APPLIED'' \<Longrightarrow> get_str (get_obj doc ''details'') ''transition_boot_id'' = get_str (pp_plan prepared) ''boot_id''"
    and "state_of doc = ''APPLIED'' \<Longrightarrow> \<exists>attempt. applied_binds (get_obj doc ''details'') prepared attempt = Inr ()"
proof -
  note body = assms(1) [unfolded append_lifecycle_def Let_def assms(2,3) prod.case option.case result_simps]
  from body show "state_of doc \<in> set (allowed_after (oc_state prior) (Mapping.lookup (pj_attempts pj) (plan_of doc) \<noteq> None))" by blast
  assume applied: "state_of doc = ''APPLIED''"
  from body have "state_of doc \<in> {''EXPIRED'', ''STALE_ABORT'', ''REJECTED''} \<or>
      get_str (get_obj doc ''details'') ''transition_boot_id'' = get_str (pp_plan prepared) ''boot_id''" by blast
  with applied show "get_str (get_obj doc ''details'') ''transition_boot_id'' = get_str (pp_plan prepared) ''boot_id''" by simp
  from body applied show "\<exists>attempt. applied_binds (get_obj doc ''details'') prepared attempt = Inr ()"
    by (cases "Mapping.lookup (pj_attempts pj) (plan_of doc)") auto
qed

lemma lifecycle_facts:
  assumes "append_lifecycle pj doc = Inr (intent, q)"
  obtains prepared prior where "Mapping.lookup (pj_by_plan pj) (plan_of doc) = Some prepared"
    "Mapping.lookup (pj_outcomes pj) (plan_of doc) = Some prior"
    "state_of doc \<in> set (allowed_after (oc_state prior) (Mapping.lookup (pj_attempts pj) (plan_of doc) \<noteq> None))"
    "state_of doc = ''APPLIED'' \<longrightarrow> application_is_bounded prepared doc"
proof -
  from assms obtain prepared prior where p: "Mapping.lookup (pj_by_plan pj) (plan_of doc) = Some prepared"
    "Mapping.lookup (pj_outcomes pj) (plan_of doc) = Some prior"
    by (cases "Mapping.lookup (pj_by_plan pj) (plan_of doc)"; cases "Mapping.lookup (pj_outcomes pj) (plan_of doc)")
      (simp_all add: append_lifecycle_def Let_def)
  note body = lifecycle_body [OF assms p]
  have "application_is_bounded prepared doc" if "state_of doc = ''APPLIED''"
    using body(2,3) [OF that] by (auto simp: application_is_bounded_def applied_binds_def result_simps get_int_of Let_def)
  with p body(1) that show thesis by blast
qed

lemma allowed_not_approved: "''APPROVED'' \<notin> set (allowed_after prior b)"
  by (simp add: allowed_after_def)

lemma inv_lifecycle:
  assumes "projection_inv pj" and "append_lifecycle pj doc = Inr (intent, q)"
  shows "projection_inv (q\<lparr>pj_actions := pj_actions q @ [doc]\<rparr>)"
proof (rule inv_outcome [OF assms(1) append_lifecycle_Inr [OF assms(2)]])
  let ?p = "plan_of doc"
  from assms(2) obtain prepared prior where p: "Mapping.lookup (pj_by_plan pj) ?p = Some prepared"
    "Mapping.lookup (pj_outcomes pj) ?p = Some prior"
    "state_of doc \<in> set (allowed_after (oc_state prior) (Mapping.lookup (pj_attempts pj) ?p \<noteq> None))"
    "state_of doc = ''APPLIED'' \<longrightarrow> application_is_bounded prepared doc" by (rule lifecycle_facts)
  have inv: "plan_inv pj ?p" using assms(1) by (simp add: projection_inv_def)
  show docs: "plan_docs pj ?p \<noteq> []" using inv p(1) by (auto simp: plan_inv_def)
  have "oc_state prior = last (plan_states pj ?p)"
    using inv p(2) docs by (auto simp: plan_inv_def outcome_of_def last_map split: if_splits)
  with inv docs p(3) show "plan_states pj ?p @ [state_of doc] \<in> set (PLAN_HISTORIES (Mapping.lookup (pj_attempts pj) ?p \<noteq> None))"
    by (intro history_advance) (simp_all add: plan_inv_def)
  show "record_is_justified pj doc" using p allowed_not_approved unfolding record_is_justified_def by metis
qed

lemma append_inv:
  assumes "projection_inv pj" and "append_record H verify pj payload = (pj', r)"
  shows "projection_inv pj'"
  using assms(2)
proof (cases rule: append_record_cases)
  case (reservation doc verified q)
  from projection_inv_cong [OF inv_reservation [OF assms(1) reservation(3)], of pj'] reservation(4) show ?thesis by simp
next
  case (attempt doc verified q)
  from projection_inv_cong [OF inv_attempt [OF assms(1) attempt(3)], of pj'] attempt(4) show ?thesis by simp
next
  case (action doc intent q)
  from action(2) have "projection_inv (q\<lparr>pj_actions := pj_actions q @ [doc]\<rparr>)"
  proof (cases rule: apply_action_record_Inr)
    case prepared
    then show ?thesis using inv_prepared [OF assms(1)] by blast
  next
    case decision
    then show ?thesis using inv_decision [OF assms(1)] by blast
  next
    case lifecycle
    then show ?thesis by (rule inv_lifecycle [OF assms(1)])
  qed
  then show ?thesis unfolding action(4) by (rule projection_inv_cong) simp_all
qed (use assms(1) in simp)

end
