(* ===== verification/ActuatorExample.thy ===== *)
theory ActuatorExample
  imports ActuatorProps ContractProps
begin

text \<open>
  A chain of actuator payloads that the projection accepts, from the reservation of an intent to the
  application of its plan. The witnesses of the actuator theorems are evaluated on it.
\<close>

section \<open>An example chain\<close>

text \<open>
  Payloads of a whole lifecycle, evaluated with a constant digest and a verifier that accepts everything.
  The octets of a payload are named by the canonical encoder; \<open>payload_shape\<close> collects what makes such
  octets decode to their document, in a form that evaluates.
\<close>

definition payload_of :: "document \<Rightarrow> bytes" where
  "payload_of doc = projr (canonical_json (JObj doc))"

fun json_sorted :: "json \<Rightarrow> bool" where
  "json_sorted (JArr vs) \<longleftrightarrow> list_all json_sorted vs"
| "json_sorted (JObj kvs) \<longleftrightarrow> sorted (map fst kvs) \<and> list_all (\<lambda>kv. json_sorted (snd kv)) kvs"
| "json_sorted _ \<longleftrightarrow> True"

lemma json_sorted_norm: "json_sorted v \<Longrightarrow> json_norm v = v"
  by (induction v rule: json_norm.induct) (auto simp: list_all_iff map_idI sort_key_id_if_sorted)

definition payload_shape :: "field_spec list \<Rightarrow> document \<Rightarrow> bool" where
  "payload_shape spec doc \<longleftrightarrow> validate_bounded_nested normalized_bounds (JObj doc) 1 = Inr () \<and> json_wf (JObj doc) \<and>
    json_sorted (JObj doc) \<and> set (required_names spec) \<subseteq> fst ` set doc \<and>
    list_all (\<lambda>kv. snd kv \<noteq> JNull) doc \<and> encode_bound (JObj doc) \<le> MAX_PAYLOAD_BYTES"

lemma payload_shape_facts:
  assumes "payload_shape spec doc"
  shows "canonical_json (JObj doc) = Inr (payload_of doc)" "decode_document (required_names spec) (payload_of doc) MAX_PAYLOAD_BYTES = Inr doc"
    "decode_document [] (payload_of doc) MAX_PAYLOAD_BYTES = Inr doc" "model_dump doc = doc"
    "int (length (payload_of doc)) \<le> MAX_PAYLOAD_BYTES"
proof -
  from assms have "is_ok (encode (JObj doc) 0)"
    using bounded_nested_encodes [of normalized_bounds "JObj doc" 0] by (simp add: payload_shape_def)
  then show c: "canonical_json (JObj doc) = Inr (payload_of doc)" by (auto simp: payload_of_def canonical_json_def is_ok_iff)
  have n: "\<forall>kv\<in>set doc. snd kv \<noteq> JNull" "json_wf (JObj doc)" "set (required_names spec) \<subseteq> fst ` set doc"
    using assms by (simp_all add: payload_shape_def list_all_iff)
  have "json_norm (JObj doc) = JObj doc" by (rule json_sorted_norm) (use assms in \<open>simp add: payload_shape_def\<close>)
  then have norm: "map (\<lambda>kv. (fst kv, json_norm (snd kv))) (sort_key fst doc) = doc" by (simp add: sort_key_fst_map)
  show l: "int (length (payload_of doc)) \<le> MAX_PAYLOAD_BYTES"
    using encode_bound [OF c [unfolded canonical_json_def]] assms by (simp add: payload_shape_def)
  show "decode_document (required_names spec) (payload_of doc) MAX_PAYLOAD_BYTES = Inr doc"
    using decode_document_canonical [OF c n(2,3,1) l] by (simp only: norm)
  show "decode_document [] (payload_of doc) MAX_PAYLOAD_BYTES = Inr doc"
    using decode_document_canonical [OF c n(2) _ n(1) l, of "[]"] by (simp only: norm) simp
  show "model_dump doc = doc" using n(1) by (simp add: model_dump_def)
qed

lemma payload_nonempty: "canonical_json (JObj doc) = Inr raw \<Longrightarrow> raw \<noteq> []"
  by (auto simp: canonical_json_def result_simps split: if_splits)

lemma canonical_payload_of:
  assumes "payload_shape spec doc" and "model_validate spec after doc = Inr doc"
  shows "canonical_payload spec after (payload_of doc) = Inr doc"
  using payload_shape_facts [OF assms(1)] assms(2)
  by (simp add: canonical_payload_Inr decode_strict_def canonical_Inr map_err_def)

text \<open>A document without some of its members encodes if the document does.\<close>

lemma bounded_object:
  "validate_bounded_nested b (JObj doc) d = Inr () \<longleftrightarrow> d \<le> MAX_JSON_NESTING_DEPTH \<and> int (length doc) \<le> maximum_object_properties b \<and>
    (\<forall>kv\<in>set doc. utf8_ok (fst kv) \<and> int (char_count (fst kv)) \<le> maximum_property_name_characters b \<and>
      validate_bounded_nested b (snd kv) (Suc d) = Inr ())"
proof -
  have "(\<exists>ys. rseq (map f doc) = Inr ys) \<longleftrightarrow> (\<forall>kv\<in>set doc. f kv = Inr ())" for f :: "str \<times> json \<Rightarrow> contract_error + unit"
    using rseq_ok [of "map f doc"] by (simp add: is_ok_iff)
  then show ?thesis by (simp add: result_simps)
qed

lemma bounded_doc_pop:
  assumes "validate_bounded_nested b (JObj doc) d = Inr ()"
  shows "validate_bounded_nested b (JObj (doc_pop k doc)) d = Inr ()"
proof -
  have "int (length (doc_pop k doc)) \<le> int (length doc)" by (simp add: doc_pop_def)
  then have "int (length (doc_pop k doc)) \<le> maximum_object_properties b" using assms unfolding bounded_object by linarith
  with assms show ?thesis unfolding bounded_object by (auto simp: doc_pop_def)
qed

lemma bounded_pops:
  "validate_bounded_nested b (JObj doc) d = Inr () \<Longrightarrow> validate_bounded_nested b (JObj (fold doc_pop names doc)) d = Inr ()"
  by (induction names arbitrary: doc) (simp_all add: bounded_doc_pop del: validate_bounded_nested.simps)

lemma payload_shape_canonical:
  assumes "payload_shape spec doc"
  shows "\<exists>raw. canonical (JObj (fold doc_pop names doc)) = Inr raw"
  using assms unfolding payload_shape_def by (blast intro: canonical_bounded bounded_pops)

lemma zero_hash_without: "payload_shape spec doc \<Longrightarrow> hash_without zero_digest doc domain names = Inr (replicate 64 (CHR ''0''))"
  using payload_shape_canonical [of spec doc names] by (auto simp: hash_without_def constant_digest)

lemma accepting_ed25519:
  assumes "payload_shape spec doc" and "fromhex signature \<noteq> None"
  shows "verify_ed25519 (\<lambda>_ _ _. True) key signature domain doc = Inr ()"
  using assms(2) payload_shape_canonical [OF assms(1), of "[''actuator_signature'']"] by (auto simp: verify_ed25519_def refuse_def)

lemma append_reservation_payload:
  assumes "payload_shape RateReservationV1_fields doc" and "model_validate RateReservationV1_fields (\<lambda>_. Inr ()) doc = Inr doc"
    and "get_str_opt doc ''schema_version'' = Some ''agmind.intent-rate-reservation.v1''"
    and "append_reservation H verify pj doc (payload_of doc) = Inr (verified, q)"
  shows "append_record H verify pj (payload_of doc) = (q\<lparr>pj_previous := va_record_sha256 verified\<rparr>, Inr verified)"
proof -
  note p = payload_shape_facts [OF assms(1)]
  show ?thesis using payload_nonempty [OF p(1)] p(3,5) canonical_payload_of [OF assms(1,2)] assms(3,4)
    by (simp add: append_record_def append_payload_def on_success_def)
qed

lemma append_attempt_payload:
  assumes "payload_shape ApplyAttemptV1_fields doc" and "model_validate ApplyAttemptV1_fields (\<lambda>_. Inr ()) doc = Inr doc"
    and "get_str_opt doc ''schema_version'' = Some ''agmind.apply-attempt.v1''"
    and "append_attempt H verify pj doc (payload_of doc) = Inr (verified, q)"
  shows "append_record H verify pj (payload_of doc) = (q\<lparr>pj_previous := va_record_sha256 verified\<rparr>, Inr verified)"
proof -
  note p = payload_shape_facts [OF assms(1)]
  show ?thesis using payload_nonempty [OF p(1)] p(3,5) canonical_payload_of [OF assms(1,2)] assms(3,4)
    by (simp add: append_record_def append_payload_def on_success_def)
qed

lemma append_action_payload:
  assumes "payload_shape ActionRecordV1_fields doc" and "model_validate ActionRecordV1_fields (record_hashes_match H) doc = Inr doc"
    and "get_str_opt doc ''schema_version'' = Some ''agmind.action-record.v1''"
    and "apply_action_record H verify pj doc = Inr (intent, q)"
  shows "\<exists>verified. append_record H verify pj (payload_of doc) =
    (q\<lparr>pj_actions := pj_actions q @ [doc], pj_previous := get_str doc ''record_sha256''\<rparr>, Inr verified)"
proof -
  note p = payload_shape_facts [OF assms(1)]
  show ?thesis using payload_nonempty [OF p(1)] p(1,3,4,5) canonical_payload_of [OF assms(1,2)] assms(3,4)
    by (simp add: append_record_def append_payload_def append_action_def canonical_def map_err_def verified_or_fail_def)
qed

abbreviation zeros :: str where "zeros \<equiv> replicate 64 (CHR ''0'')"

text \<open>An action record all of whose hashes are those of the constant digest.\<close>

definition zero_record :: "document \<Rightarrow> bool" where
  "zero_record doc \<longleftrightarrow> field_errors ActionRecordV1_fields doc = Inr [] \<and> fst ` set doc \<subseteq> fst ` set ActionRecordV1_fields \<and>
    validate_bounded_nested details_bounds (JObj (get_obj doc ''details'')) 1 = Inr () \<and>
    encode_bound (JObj (get_obj doc ''details'')) \<le> 32768 \<and>
    doc_get doc ''plan_hash'' = JStr zeros \<and> doc_get doc ''action_id'' = JStr (''act_'' @ replicate 32 (CHR ''0'')) \<and>
    doc_get doc ''record_sha256'' = JStr zeros \<and> doc_get doc ''record_id'' = JStr (''ar_'' @ replicate 32 (CHR ''0'')) \<and>
    doc_get doc ''actuator_key_id'' = JStr (replicate 32 (CHR ''0'')) \<and> doc_get doc ''actuator_signature'' = JStr (replicate 128 (CHR ''0'')) \<and>
    get_str_opt doc ''schema_version'' = Some ''agmind.action-record.v1'' \<and> payload_shape ActionRecordV1_fields doc"

lemma zero_identifiers:
  "action_id zero_digest zeros = Inr (''act_'' @ replicate 32 (CHR ''0''))" "fromhex (replicate 128 (CHR ''0'')) \<noteq> None"
  by code_simp+

lemma zero_action_hash:
  assumes "zero_record doc"
  shows "action_record_hash zero_digest doc = Inr zeros" "action_record_id zeros = Inr (''ar_'' @ replicate 32 (CHR ''0''))"
proof -
  from assms obtain raw where "canonical (JObj (action_record_content doc)) = Inr raw"
    using payload_shape_canonical [of ActionRecordV1_fields doc "[''record_id'', ''record_sha256'', ''actuator_signature'']"]
    by (auto simp: zero_record_def action_record_content_def)
  then show "action_record_hash zero_digest doc = Inr zeros" by (simp add: action_record_hash_def action_record_preimage_def constant_digest)
  show "action_record_id zeros = Inr (''ar_'' @ replicate 32 (CHR ''0''))" by code_simp
qed

lemma zero_record_valid:
  assumes "zero_record doc"
  shows "model_validate ActionRecordV1_fields (record_hashes_match zero_digest) doc = Inr doc"
proof -
  let ?details = "JObj (get_obj doc ''details'')"
  have m: "model_dump doc = doc" using assms payload_shape_facts(4) by (auto simp: zero_record_def)
  obtain raw where raw: "canonical ?details = Inr raw"
    using assms canonical_bounded [of details_bounds ?details] by (auto simp: zero_record_def)
  then have "int (length raw) \<le> encode_bound ?details" by (intro encode_bound [of _ 0]) (simp add: canonical_Inr canonical_json_def)
  then have l: "int (length raw) \<le> 32 * 1024" using assms by (simp add: zero_record_def)
  have g: "get_str doc ''record_sha256'' = zeros" "get_str doc ''record_id'' = ''ar_'' @ replicate 32 (CHR ''0'')"
    using assms by (simp_all add: zero_record_def get_str_def)
  obtain a where a: "get_str_opt doc ''action_id'' = Some a" "action_id zero_digest (get_str doc ''plan_hash'') = Inr a"
    using assms zero_identifiers(1) by (simp add: zero_record_def get_str_opt_def get_str_def)
  have b: "validate_bounded_nested details_bounds ?details 1 = Inr ()" using assms by (simp add: zero_record_def)
  have "record_hashes_match zero_digest doc = Inr ()"
    unfolding record_hashes_match_def Let_def b raw m zero_action_hash [OF assms] g a lift_ident_def
    using l by (simp add: check_def map_err_def zero_action_hash [OF assms])
  with assms show ?thesis by (simp add: model_validate_Inr zero_record_def)
qed

lemma zero_record_verified:
  assumes "zero_record doc"
  shows "verify_action_record zero_digest (\<lambda>_ _ _. True) (model_dump doc) (replicate 32 (CHR ''k'')) = Inr ()"
proof -
  have m: "model_dump doc = doc" using assms payload_shape_facts(4) by (auto simp: zero_record_def)
  have k: "key_id zero_digest (replicate 32 (CHR ''k'')) = Inr (replicate 32 (CHR ''0''))" by code_simp
  obtain raw where raw: "canonical (JObj (doc_pop ''actuator_signature'' doc)) = Inr raw"
    using assms payload_shape_canonical [of ActionRecordV1_fields doc "[''actuator_signature'']"] by (auto simp: zero_record_def)
  have s: "\<exists>sig. hex_member doc ''actuator_signature'' message = Inr sig" for message
    using assms zero_identifiers(2) by (auto simp: zero_record_def hex_member_def)
  then obtain sig where "hex_member doc ''actuator_signature'' ''invalid actuator signature'' = Inr sig" by blast
  with assms raw show ?thesis
    by (simp add: verify_action_record_def m k zero_action_hash [OF assms] zero_record_def action_record_signing_message_def verify_signature_def)
qed

text \<open>The documents: a reservation, and the records of a plan up to its application.\<close>

abbreviation zero_key :: str where "zero_key \<equiv> replicate 32 (CHR ''0'')"

definition reservation_doc :: document where
  "reservation_doc =
    [(''actuator_key_id'', JStr zero_key), (''actuator_signature'', JStr (replicate 128 (CHR ''0''))),
     (''intent_id'', JStr (''int_'' @ zero_key)), (''intent_sha256'', JStr zeros), (''previous_record_sha256'', JStr zeros),
     (''record_sha256'', JStr zeros), (''reservation_id'', JStr (''rr_'' @ zero_key)), (''reserved_at'', JStr ''2026-01-02T03:04:00Z''),
     (''schema_version'', JStr ''agmind.intent-rate-reservation.v1'')]"

definition example_action :: "document \<Rightarrow> str \<Rightarrow> str \<Rightarrow> str \<Rightarrow> document" where
  "example_action details observed reason state =
    [(''action_id'', JStr (''act_'' @ zero_key)), (''actuator_key_id'', JStr zero_key), (''actuator_signature'', JStr (replicate 128 (CHR ''0''))),
     (''details'', JObj details), (''observed_at'', JStr observed), (''plan_hash'', JStr zeros), (''plan_id'', JStr (''plan_'' @ zero_key)),
     (''previous_record_sha256'', JStr zeros), (''reason_code'', JStr reason), (''record_id'', JStr (''ar_'' @ zero_key)),
     (''record_sha256'', JStr zeros), (''schema_version'', JStr ''agmind.action-record.v1''), (''state'', JStr state)]"

definition prepared_doc :: document where
  "prepared_doc = example_action
    [(''approval_deadline_boottime_ns'', JInt 400000000000), (''intent_sha256'', JStr zeros), (''prepared_plan'', JObj example_plan)]
    ''2026-01-02T03:04:05Z'' ''intent_prepared'' ''PREPARED''"

definition approved_doc :: document where
  "approved_doc = example_action
    [(''admin_gid'', JInt 0), (''admin_uid'', JInt 0), (''authorization_basis'', JStr ''root''), (''decision_basis'', JStr ''local_admin_approval''),
     (''decision_boot_id'', JStr ''00000000-0000-4000-8000-000000000001''), (''decision_boottime_ns'', JInt 200000000000),
     (''previous_action_record_sha256'', JStr zeros)]
    ''2026-01-02T03:05:00Z'' ''local_admin_approved'' ''APPROVED''"

definition attempt_doc :: document where
  "attempt_doc =
    [(''actuator_key_id'', JStr zero_key), (''actuator_signature'', JStr (replicate 128 (CHR ''0''))), (''attempt_id'', JStr (''aa_'' @ zero_key)),
     (''boot_id'', JStr ''00000000-0000-4000-8000-000000000001''), (''boottime_ns'', JInt 210000000000), (''destination_ipv4'', JStr ''1.1.1.1''),
     (''expected_ruleset_sha256'', JStr (replicate 64 (CHR ''e''))), (''plan_hash'', JStr zeros), (''plan_id'', JStr (''plan_'' @ zero_key)),
     (''previous_action_record_sha256'', JStr zeros), (''previous_record_sha256'', JStr zeros), (''record_sha256'', JStr zeros),
     (''schema_version'', JStr ''agmind.apply-attempt.v1''), (''started_at'', JStr ''2026-01-02T03:05:01Z''), (''target_netns_inode'', JInt 30),
     (''ttl_seconds'', JInt 60)]"

definition applied_doc :: document where
  "applied_doc = example_action
    [(''apply_attempt_sha256'', JStr zeros), (''configured_timeout_ms'', JInt 60000), (''counter_bytes'', JInt 0), (''counter_packets'', JInt 0),
     (''host_netns_after'', JInt 7), (''host_netns_before'', JInt 7), (''previous_action_record_sha256'', JStr zeros),
     (''remaining_timeout_ms'', JInt 59000), (''ruleset_sha256'', JStr (replicate 64 (CHR ''e''))), (''target_netns_inode'', JInt 30),
     (''transition_basis'', JStr ''exact_kernel_readback''), (''transition_boot_id'', JStr ''00000000-0000-4000-8000-000000000001''),
     (''transition_boottime_ns'', JInt 220000000000)]
    ''2026-01-02T03:05:02Z'' ''nft_apply_observed'' ''APPLIED''"

lemma example_shapes:
  "payload_shape RateReservationV1_fields reservation_doc" "payload_shape ApplyAttemptV1_fields attempt_doc"
  "model_validate RateReservationV1_fields (\<lambda>_. Inr ()) reservation_doc = Inr reservation_doc"
  "model_validate ApplyAttemptV1_fields (\<lambda>_. Inr ()) attempt_doc = Inr attempt_doc"
  by code_simp+

lemma example_records: "zero_record prepared_doc" "zero_record approved_doc" "zero_record applied_doc"
  by code_simp+

text \<open>The projections after each of them.\<close>

definition example_start :: ActuatorProjection where
  "example_start = \<lparr>pj_public_key = replicate 32 (CHR ''k''), pj_previous = zeros, pj_actions = [], pj_reservations = Mapping.empty,
    pj_by_intent = Mapping.empty, pj_by_plan = Mapping.empty, pj_outcomes = Mapping.empty, pj_attempts = Mapping.empty, pj_transaction = None\<rparr>"

definition example_reserved :: ActuatorProjection where
  "example_reserved = example_start\<lparr>pj_reservations := Mapping.update (''int_'' @ zero_key)
    \<lparr>rv_intent_sha256 = zeros, rv_reserved_at = ''2026-01-02T03:04:00Z'', rv_record_sha256 = zeros\<rparr> Mapping.empty\<rparr>"

definition example_preparation :: PreparedState where
  "example_preparation = \<lparr>pp_plan = example_plan, pp_intent_sha256 = zeros, pp_approval_deadline_boottime_ns = 400000000000,
    pp_record_id = ''ar_'' @ zero_key, pp_record_sha256 = zeros\<rparr>"

definition example_prepared :: ActuatorProjection where
  "example_prepared = example_reserved\<lparr>pj_by_intent := Mapping.update (''int_'' @ zero_key) example_preparation Mapping.empty,
    pj_by_plan := Mapping.update (''plan_'' @ zero_key) example_preparation Mapping.empty, pj_actions := [prepared_doc]\<rparr>"

definition example_approved :: ActuatorProjection where
  "example_approved = example_prepared\<lparr>pj_outcomes := Mapping.update (''plan_'' @ zero_key) (outcome_of approved_doc) Mapping.empty,
    pj_actions := [prepared_doc, approved_doc]\<rparr>"

definition example_attempted :: ActuatorProjection where
  "example_attempted = example_approved\<lparr>pj_attempts := Mapping.update (''plan_'' @ zero_key)
    \<lparr>at_record_sha256 = zeros, at_expected_ruleset_sha256 = replicate 64 (CHR ''e'')\<rparr> Mapping.empty\<rparr>"

definition example_applied :: ActuatorProjection where
  "example_applied = example_attempted\<lparr>pj_outcomes := Mapping.update (''plan_'' @ zero_key) (outcome_of applied_doc)
      (Mapping.update (''plan_'' @ zero_key) (outcome_of approved_doc) Mapping.empty),
    pj_actions := [prepared_doc, approved_doc, applied_doc]\<rparr>"

lemmas example_states = example_start_def example_reserved_def example_prepared_def example_approved_def example_attempted_def example_applied_def

abbreviation accepts_all :: "bytes \<Rightarrow> bytes \<Rightarrow> bytes \<Rightarrow> bool" where "accepts_all \<equiv> (\<lambda>_ _ _. True)"

lemma example_starts: "projection_init (replicate 32 (CHR ''k'')) = Inr example_start"
  by (simp add: projection_init_def refuse_def example_start_def ZERO_SHA256_def)

lemma note_change_idle [simp]: "pj_transaction pj = None \<Longrightarrow> note_change n k e pj = pj"
  by (simp add: note_change_def)

lemma reservation_members:
  "get_str reservation_doc ''intent_id'' = ''int_'' @ zero_key" "get_str reservation_doc ''intent_sha256'' = zeros"
  "get_str reservation_doc ''reserved_at'' = ''2026-01-02T03:04:00Z''" "get_str reservation_doc ''record_sha256'' = zeros"
  "get_str reservation_doc ''actuator_signature'' = replicate 128 (CHR ''0'')"
  "get_str_opt reservation_doc ''schema_version'' = Some ''agmind.intent-rate-reservation.v1''"
  "chain_is_valid zero_digest example_start reservation_doc zeros ''reservation_id'' ''rr_''"
  by code_simp+

lemma reserves_from:
  assumes "pj_public_key pj = pj_public_key example_start" and "pj_previous pj = zeros" and "pj_reservations pj = Mapping.empty"
    and "pj_by_intent pj = Mapping.empty"
  shows "fst (append_record zero_digest accepts_all pj (payload_of reservation_doc)) =
    (set_reservation (''int_'' @ zero_key) \<lparr>rv_intent_sha256 = zeros, rv_reserved_at = ''2026-01-02T03:04:00Z'', rv_record_sha256 = zeros\<rparr> pj)
      \<lparr>pj_previous := zeros\<rparr>" (is "_ = ?q\<lparr>pj_previous := zeros\<rparr>")
proof -
  have c: "chain_is_valid zero_digest pj reservation_doc zeros ''reservation_id'' ''rr_''"
    using reservation_members(7) assms(1,2) by (simp add: chain_is_valid_def example_states)
  have "\<exists>v. append_reservation zero_digest accepts_all pj reservation_doc (payload_of reservation_doc) = Inr (v, ?q) \<and> va_record_sha256 v = zeros"
    unfolding append_reservation_def zero_hash_without [OF example_shapes(1)] rbind_simps reservation_members
      accepting_ed25519 [OF example_shapes(1) zero_identifiers(2)] Let_def assms(1)
    using c assms(3,4) by (simp add: refuse_def reservation_members example_states)
  then obtain v where "append_reservation zero_digest accepts_all pj reservation_doc (payload_of reservation_doc) = Inr (v, ?q)"
      "va_record_sha256 v = zeros" by blast
  with append_reservation_payload [OF example_shapes(1,3) reservation_members(6)] show ?thesis by simp
qed

lemma example_reserves: "fst (append_record zero_digest accepts_all example_start (payload_of reservation_doc)) = example_reserved"
  by (subst reserves_from) (simp_all add: example_states set_reservation_def)

text \<open>One step by an action record, from the result of its checks.\<close>

lemma example_action_step:
  assumes "zero_record doc" and "pj_public_key pj = replicate 32 (CHR ''k'')" and "pj_previous pj = zeros"
    and "get_str doc ''previous_record_sha256'' = zeros" and "get_str doc ''record_sha256'' = zeros"
    and "(if state_of doc = ''PREPARED'' then append_prepared zero_digest pj doc
      else if state_of doc \<in> {''APPROVED'', ''REJECTED'', ''EXPIRED_UNAPPLIED''} then
        if Mapping.lookup (pj_outcomes pj) (plan_of doc) \<noteq> None then append_lifecycle pj doc else append_decision pj doc
      else if state_of doc \<in> {''APPLIED'', ''VERIFIED'', ''EXPIRED'', ''STALE_ABORT'', ''FAILED_DIRTY''} then append_lifecycle pj doc
      else Inl (ActuatorRecordError ''unsupported durable actuator state'')) = Inr (intent, q)"
  shows "fst (append_record zero_digest accepts_all pj (payload_of doc)) = q\<lparr>pj_actions := pj_actions q @ [doc], pj_previous := zeros\<rparr>"
proof -
  have "apply_action_record zero_digest accepts_all pj doc = Inr (intent, q)"
    unfolding apply_action_record_def Let_def assms(2,3,4) zero_record_verified [OF assms(1)]
    using assms(6) by (simp only: map_err_def sum.case rbind_simps refuse_def if_False simp_thms)
  with append_action_payload [OF _ zero_record_valid [OF assms(1)]] assms(1,5) show ?thesis
    by (fastforce simp: zero_record_def)
qed

lemma prepared_members:
  "get_obj prepared_doc ''details'' = [(''approval_deadline_boottime_ns'', JInt 400000000000), (''intent_sha256'', JStr zeros),
    (''prepared_plan'', JObj example_plan)]"
  "get_str prepared_doc ''record_id'' = ''ar_'' @ zero_key" "get_str prepared_doc ''record_sha256'' = zeros"
  "get_str prepared_doc ''previous_record_sha256'' = zeros" "state_of prepared_doc = ''PREPARED''"
  "get_str prepared_doc ''plan_id'' = ''plan_'' @ zero_key" "get_str prepared_doc ''plan_hash'' = zeros"
  "get_str prepared_doc ''observed_at'' = ''2026-01-02T03:04:05Z''" "get_str prepared_doc ''action_id'' = ''act_'' @ zero_key"
  "get_str_opt prepared_doc ''action_id'' = Some (''act_'' @ zero_key)" "get_str prepared_doc ''reason_code'' = ''intent_prepared''"
  by (simp_all add: prepared_doc_def example_action_def get_obj_def get_str_def get_str_opt_def doc_get_def)

lemma example_plan_shape: "payload_shape PreparedTemporaryEgressDenyPlanV1_fields example_plan"
  by code_simp

lemma example_plan_decodes:
  "canonical (JObj example_plan) = Inr (payload_of example_plan)"
  "decode_strict PreparedTemporaryEgressDenyPlanV1_fields (identifiers_and_expiry_match zero_digest) (payload_of example_plan) MAX_PAYLOAD_BYTES = Inr example_plan"
  using payload_shape_facts [OF example_plan_shape] example_plan_valid(1)
  by (simp_all add: canonical_Inr decode_strict_def map_err_def valid_PreparedTemporaryEgressDenyPlanV1_def)

lemma example_intent_digest: "actuator_intent_sha256 zero_digest example_plan = Inr zeros"
proof -
  have "is_ok (intent_from_plan example_plan)" by code_simp
  then obtain intent where i: "intent_from_plan example_plan = Inr intent" by (auto simp: is_ok_iff)
  have "case intent_from_plan example_plan of Inl _ \<Rightarrow> False
    | Inr intent \<Rightarrow> validate_bounded_nested normalized_bounds (JObj (model_dump intent)) 1 = Inr ()" by code_simp
  with i obtain raw where "canonical (JObj (model_dump intent)) = Inr raw" using canonical_bounded by fastforce
  with i show ?thesis by (simp add: actuator_intent_sha256_def constant_digest)
qed

lemma example_times:
  "record_timestamp ''2026-01-02T03:04:05Z'' = Inr (63903006245, 0)" "record_timestamp ''2026-01-02T03:04:00Z'' = Inr (63903006240, 0)"
  "record_timestamp ''2026-01-02T03:05:00Z'' = Inr (63903006300, 0)"
  "record_timestamp ''2026-01-02T03:09:05.000000999Z'' = Inr (63903006545, 999)"
  by code_simp+

lemma example_prepares: "fst (append_record zero_digest accepts_all example_reserved (payload_of prepared_doc)) = example_prepared"
proof -
  have p: "append_prepared zero_digest example_reserved prepared_doc =
      Inr (''int_'' @ zero_key, set_by_plan (''plan_'' @ zero_key) example_preparation (set_by_intent (''int_'' @ zero_key) example_preparation example_reserved))"
    unfolding append_prepared_def prepared_members Let_def
    by (simp add: refuse_def keys_are_def doc_get_def uint_of_def is_str_def example_plan_decodes example_intent_digest prepared_binds_def
        prepared_members zero_identifiers example_plan_members example_times time_before_def example_states example_preparation_def lookup_update'
        insert_commute)
  show ?thesis
    by (subst example_action_step [OF example_records(1)], simp add: example_states, simp add: example_states)
      (simp_all add: prepared_members p, simp add: set_by_plan_def set_by_intent_def example_states)
qed

lemma approved_members:
  "get_obj approved_doc ''details'' = [(''admin_gid'', JInt 0), (''admin_uid'', JInt 0), (''authorization_basis'', JStr ''root''),
     (''decision_basis'', JStr ''local_admin_approval''), (''decision_boot_id'', JStr ''00000000-0000-4000-8000-000000000001''),
     (''decision_boottime_ns'', JInt 200000000000), (''previous_action_record_sha256'', JStr zeros)]"
  "get_str approved_doc ''record_sha256'' = zeros" "get_str approved_doc ''previous_record_sha256'' = zeros" "state_of approved_doc = ''APPROVED''"
  "get_str approved_doc ''plan_id'' = ''plan_'' @ zero_key" "get_str approved_doc ''plan_hash'' = zeros"
  "get_str approved_doc ''observed_at'' = ''2026-01-02T03:05:00Z''" "get_str_opt approved_doc ''action_id'' = Some (''act_'' @ zero_key)"
  "get_str approved_doc ''reason_code'' = ''local_admin_approved''"
  by (simp_all add: approved_doc_def example_action_def get_obj_def get_str_def get_str_opt_def doc_get_def)

lemma example_boot: "get_str example_plan ''boot_id'' = ''00000000-0000-4000-8000-000000000001''" "UUID4 ''00000000-0000-4000-8000-000000000001''"
  by code_simp+

lemma example_approves: "fst (append_record zero_digest accepts_all example_prepared (payload_of approved_doc)) = example_approved"
proof -
  have p: "append_decision example_prepared approved_doc = Inr (''int_'' @ zero_key, set_outcome (''plan_'' @ zero_key) (outcome_of approved_doc) example_prepared)"
    unfolding append_decision_def approved_members Let_def
    by (simp add: refuse_def keys_are_def doc_get_def get_str_def [of "_ # _"] uint_of_def is_str_def DECISION_FIELDS_def example_boot authority_valid_def
        DECISION_REASONS_def decision_clock_valid_def example_plan_members example_times time_before_def example_states example_preparation_def
        lookup_update' insert_commute)
  have o: "pj_outcomes example_prepared = Mapping.empty" by (simp add: example_states)
  have "fst (append_record zero_digest accepts_all example_prepared (payload_of approved_doc)) =
      (set_outcome (''plan_'' @ zero_key) (outcome_of approved_doc) example_prepared)\<lparr>pj_actions :=
        pj_actions (set_outcome (''plan_'' @ zero_key) (outcome_of approved_doc) example_prepared) @ [approved_doc], pj_previous := zeros\<rparr>"
    by (rule example_action_step [OF example_records(2)]) (simp add: example_states, simp add: example_states, simp_all add: approved_members p o)
  then show ?thesis by (simp add: set_outcome_def example_states)
qed

lemma attempt_members:
  "get_str attempt_doc ''plan_id'' = ''plan_'' @ zero_key" "get_str attempt_doc ''record_sha256'' = zeros"
  "get_str attempt_doc ''expected_ruleset_sha256'' = replicate 64 (CHR ''e'')" "get_str attempt_doc ''actuator_signature'' = replicate 128 (CHR ''0'')"
  "get_str_opt attempt_doc ''schema_version'' = Some ''agmind.apply-attempt.v1''"
  "chain_is_valid zero_digest example_start attempt_doc zeros ''attempt_id'' ''aa_''"
  "get_str attempt_doc ''previous_action_record_sha256'' = zeros" "get_str attempt_doc ''plan_hash'' = get_str example_plan ''plan_hash''"
  "get_str attempt_doc ''boot_id'' = get_str example_plan ''boot_id''"
  "get_int attempt_doc ''target_netns_inode'' = get_int example_plan ''network_namespace_inode''"
  "get_str attempt_doc ''destination_ipv4'' = get_str example_plan ''destination_ipv4''"
  "get_int attempt_doc ''ttl_seconds'' = get_int example_plan ''ttl_seconds''"
  by code_simp+

lemma example_outcomes:
  "oc_state (outcome_of approved_doc) = ''APPROVED''" "oc_record_sha256 (outcome_of approved_doc) = zeros"
  by (simp_all add: outcome_of_def approved_members)

lemma example_attempts: "fst (append_record zero_digest accepts_all example_approved (payload_of attempt_doc)) = example_attempted"
proof -
  have c: "chain_is_valid zero_digest example_approved attempt_doc zeros ''attempt_id'' ''aa_''"
    using attempt_members(6) by (simp add: chain_is_valid_def example_states)
  have b: "attempt_binds_plan example_approved attempt_doc example_preparation (outcome_of approved_doc)"
    unfolding attempt_binds_plan_def attempt_members by (simp add: example_states example_preparation_def example_outcomes)
  have "\<exists>v. append_attempt zero_digest accepts_all example_approved attempt_doc (payload_of attempt_doc) =
      Inr (v, example_attempted) \<and> va_record_sha256 v = zeros"
    unfolding append_attempt_def zero_hash_without [OF example_shapes(2)] rbind_simps attempt_members
      accepting_ed25519 [OF example_shapes(2) zero_identifiers(2)] Let_def
    using c b by (simp add: refuse_def attempt_members example_states set_attempt_def)
  then obtain v where "append_attempt zero_digest accepts_all example_approved attempt_doc (payload_of attempt_doc) = Inr (v, example_attempted)"
      "va_record_sha256 v = zeros" by blast
  with append_attempt_payload [OF example_shapes(2,4) attempt_members(5)] show ?thesis by (simp add: example_states)
qed

lemma applied_members:
  "get_obj applied_doc ''details'' =
    [(''apply_attempt_sha256'', JStr zeros), (''configured_timeout_ms'', JInt 60000), (''counter_bytes'', JInt 0), (''counter_packets'', JInt 0),
     (''host_netns_after'', JInt 7), (''host_netns_before'', JInt 7), (''previous_action_record_sha256'', JStr zeros),
     (''remaining_timeout_ms'', JInt 59000), (''ruleset_sha256'', JStr (replicate 64 (CHR ''e''))), (''target_netns_inode'', JInt 30),
     (''transition_basis'', JStr ''exact_kernel_readback''), (''transition_boot_id'', JStr ''00000000-0000-4000-8000-000000000001''),
     (''transition_boottime_ns'', JInt 220000000000)]"
  "get_str applied_doc ''record_sha256'' = zeros" "get_str applied_doc ''previous_record_sha256'' = zeros" "state_of applied_doc = ''APPLIED''"
  "get_str applied_doc ''plan_id'' = ''plan_'' @ zero_key" "get_str applied_doc ''plan_hash'' = zeros"
  "get_str_opt applied_doc ''action_id'' = Some (''act_'' @ zero_key)" "get_str applied_doc ''reason_code'' = ''nft_apply_observed''"
  by (simp_all add: applied_doc_def example_action_def get_obj_def get_str_def get_str_opt_def doc_get_def)

lemma applied_keys: "keys_are (get_obj applied_doc ''details'') (lifecycle_fields ''APPLIED'')"
  by code_simp

lemma example_targets: "get_int example_plan ''network_namespace_inode'' = 30" "get_int example_plan ''ttl_seconds'' = 60"
  by code_simp+

lemma example_applies: "fst (append_record zero_digest accepts_all example_attempted (payload_of applied_doc)) = example_applied"
proof -
  have k: "keys_are (get_obj applied_doc ''details'') (lifecycle_fields ''APPLIED'') = True" using applied_keys by simp
  have m: "Mapping.lookup (pj_by_plan example_attempted) (''plan_'' @ zero_key) = Some example_preparation"
    "Mapping.lookup (pj_outcomes example_attempted) (''plan_'' @ zero_key) = Some (outcome_of approved_doc)"
    "Mapping.lookup (pj_attempts example_attempted) (''plan_'' @ zero_key) = Some \<lparr>at_record_sha256 = zeros, at_expected_ruleset_sha256 = replicate 64 (CHR ''e'')\<rparr>"
    by (simp_all add: example_states)
  have p: "append_lifecycle example_attempted applied_doc =
      Inr (''int_'' @ zero_key, set_outcome (''plan_'' @ zero_key) (outcome_of applied_doc) example_attempted)"
    unfolding append_lifecycle_def applied_members(4,5) Let_def k m
    by (simp add: refuse_def applied_members doc_get_def get_str_def [of "_ # _"] uint_of_def is_str_def allowed_after_def example_boot example_outcomes
        lifecycle_reason_valid_def applied_binds_def example_plan_members example_targets example_preparation_def)
  have "fst (append_record zero_digest accepts_all example_attempted (payload_of applied_doc)) =
      (set_outcome (''plan_'' @ zero_key) (outcome_of applied_doc) example_attempted)\<lparr>pj_actions :=
        pj_actions (set_outcome (''plan_'' @ zero_key) (outcome_of applied_doc) example_attempted) @ [applied_doc], pj_previous := zeros\<rparr>"
    by (rule example_action_step [OF example_records(3)]) (simp add: example_states, simp add: example_states, simp_all add: applied_members p)
  then show ?thesis by (simp add: set_outcome_def example_states)
qed

end
