(* ===== verification/ActuatorLifecycle.thy ===== *)
theory ActuatorLifecycle
  imports ActuatorExample
begin

text \<open>
  The projection of the actuator's journal over any sequence of its operations: payloads offered to
  \<open>append\<close> and transactions opened, rolled back and committed.
\<close>

inductive projection_reachable ::
    "(bytes \<Rightarrow> bytes) \<Rightarrow> (bytes \<Rightarrow> bytes \<Rightarrow> bytes \<Rightarrow> bool) \<Rightarrow> bytes \<Rightarrow> ActuatorProjection \<Rightarrow> bool"
  for H :: "bytes \<Rightarrow> bytes" and verify :: "bytes \<Rightarrow> bytes \<Rightarrow> bytes \<Rightarrow> bool" and public_key :: bytes where
  reach_init: "projection_init public_key = Inr pj \<Longrightarrow> projection_reachable H verify public_key pj"
| reach_append: "projection_reachable H verify public_key pj \<Longrightarrow>
    projection_reachable H verify public_key (fst (append_record H verify pj payload))"
| reach_begin: "projection_reachable H verify public_key pj \<Longrightarrow> begin_extension self pj = Inr pj' \<Longrightarrow> projection_reachable H verify public_key pj'"
| reach_rollback: "projection_reachable H verify public_key pj \<Longrightarrow> rollback_extension self pj = Inr pj' \<Longrightarrow> projection_reachable H verify public_key pj'"
| reach_commit: "projection_reachable H verify public_key pj \<Longrightarrow> commit_extension self pj = Inr pj' \<Longrightarrow> projection_reachable H verify public_key pj'"

lemma projection_inv_init: "projection_init public_key = Inr pj \<Longrightarrow> projection_inv pj"
  by (auto simp: projection_init_def result_simps inv_defs PLAN_HISTORIES_def)

lemma undone_idle: "pj_transaction pj = None \<Longrightarrow> undone pj = pj"
  by (simp add: undone_def)

lemma undone_append:
  assumes "tx_wf pj" and "projection_inv (undone pj)" and "projection_inv pj'" and "append_record H verify pj payload = (pj', r)"
  shows "tx_wf pj'" "projection_inv (undone pj')"
proof -
  have k: "keeps_undone pj pj'" by (rule append_keeps_undone [OF assms(4)])
  with assms(1) show "tx_wf pj'" by (simp add: keeps_undone_def)
  show "projection_inv (undone pj')"
    using k assms(1,2,3) by (cases "pj_transaction pj'") (auto simp: keeps_undone_def undone_idle)
qed

lemma rollback_Inr: "rollback_extension self pj = Inr pj' \<Longrightarrow> pj' = undone pj" "rollback_extension self pj = Inr pj' \<Longrightarrow> pj_transaction pj' = None"
  by (auto simp: rollback_extension_def undone_def result_simps split: option.splits)

lemma commit_Inr: "commit_extension self pj = Inr pj' \<Longrightarrow> pj' = pj\<lparr>pj_transaction := None\<rparr>"
  by (auto simp: commit_extension_def result_simps split: option.splits)

lemma reachable_inv: "projection_reachable H verify public_key pj \<Longrightarrow> projection_inv pj \<and> tx_wf pj \<and> projection_inv (undone pj)"
proof (induction rule: projection_reachable.induct)
  case (reach_init pj)
  then have "pj_transaction pj = None" by (auto simp: projection_init_def result_simps)
  with projection_inv_init [OF reach_init] show ?case by (simp add: undone_idle tx_wf_def)
next
  case (reach_append pj payload)
  obtain pj' r where a: "append_record H verify pj payload = (pj', r)" by fastforce
  with reach_append.IH append_inv [OF _ a] undone_append [OF _ _ _ a] show ?case by simp
next
  case (reach_begin pj self pj')
  from begin_Inr [OF reach_begin.hyps(2)] reach_begin.IH have "tx_wf pj'" "projection_inv (undone pj')" by simp_all
  moreover have "projection_inv pj'"
    by (rule projection_inv_cong [of pj]) (use reach_begin in \<open>auto simp: begin_extension_def result_simps\<close>)
  ultimately show ?case by simp
next
  case (reach_rollback pj self pj')
  note r = rollback_Inr [OF reach_rollback.hyps(2)]
  have "projection_inv pj'" using r(1) reach_rollback.IH by simp
  moreover have "tx_wf pj'" using r(2) by (simp add: tx_wf_def)
  moreover have "undone pj' = pj'" using r(2) by (simp only: undone_idle)
  ultimately show ?case by simp
next
  case (reach_commit pj self pj')
  have "projection_inv pj'"
    by (rule projection_inv_cong [of pj]) (use reach_commit.IH commit_Inr [OF reach_commit.hyps(2)] in simp_all)
  with commit_Inr [OF reach_commit.hyps(2)] show ?case by (simp add: undone_idle tx_wf_def)
qed

lemma applied_histories:
  "list_all (\<lambda>h. ''APPLIED'' \<in> set h \<longrightarrow> take 3 h = [''PREPARED'', ''APPROVED'', ''APPLIED''] \<and> ''APPLIED'' \<notin> set (drop 3 h)) (PLAN_HISTORIES True)"
  "list_all (\<lambda>h. ''APPLIED'' \<notin> set h) (PLAN_HISTORIES False)"
  by code_simp+

lemma applied_history:
  assumes "map state_of docs \<in> set (PLAN_HISTORIES b)" and "doc \<in> set docs" and "state_of doc = ''APPLIED''"
  shows "b" "\<exists>prepare approve rest. docs = prepare # approve # doc # rest \<and> state_of approve = ''APPROVED''"
proof -
  have m: "''APPLIED'' \<in> set (map state_of docs)" using assms(2,3) by force
  show b: "b"
  proof (rule ccontr)
    assume "\<not> b"
    with assms(1) have "map state_of docs \<in> set (PLAN_HISTORIES False)" by (simp only: if_False simp_thms)
    from bspec [OF applied_histories(2) [unfolded list_all_iff] this] m show False by (rule notE)
  qed
  have t: "map state_of docs \<in> set (PLAN_HISTORIES True)" using assms(1) b by (simp only: simp_thms)
  note h = mp [OF bspec [OF applied_histories(1) [unfolded list_all_iff] t] m]
  from conjunct1 [OF h] have "map state_of (take 3 docs) = [''PREPARED'', ''APPROVED'', ''APPLIED'']" by (simp only: take_map)
  then obtain x y z where xyz: "take 3 docs = [x, y, z]" "state_of x = ''PREPARED''" "state_of y = ''APPROVED''"
    unfolding map_eq_Cons_conv by blast
  have d: "docs = x # y # z # drop 3 docs" using append_take_drop_id [of 3 docs] unfolding xyz(1) by simp
  have "doc \<notin> set (drop 3 docs)" using conjunct2 [OF h] imageI [of doc _ state_of] unfolding assms(3) drop_map list.set_map by blast
  moreover have "doc \<noteq> x" "doc \<noteq> y" using xyz(2,3) assms(3) by auto
  ultimately have "doc = z" using assms(2) arg_cong [OF d, of set] by simp
  with d xyz(3) show "\<exists>prepare approve rest. docs = prepare # approve # doc # rest \<and> state_of approve = ''APPROVED''" by blast
qed

lemma example_reachable:
  "projection_reachable zero_digest accepts_all (replicate 32 (CHR ''k'')) example_applied"
  using reach_append [OF reach_append [OF reach_append [OF reach_append [OF reach_append [OF reach_init [OF example_starts]]]]],
      of zero_digest accepts_all "payload_of reservation_doc" "payload_of prepared_doc" "payload_of approved_doc" "payload_of attempt_doc" "payload_of applied_doc"]
  by (simp only: example_reserves example_prepares example_approves example_attempts example_applies)

text \<open>
  C6. The records of a plan follow the actuator's lifecycle in every projection that payloads and
  transactions can lead to: their states are one of the listed histories, and those of a plan with a
  recorded apply attempt are one of the histories with an attempt.
\<close>

theorem plans_follow_their_lifecycle:
  assumes "projection_reachable H verify public_key pj"
  shows "plan_states pj p \<in> set (PLAN_HISTORIES (Mapping.lookup (pj_attempts pj) p \<noteq> None))"
  using reachable_inv [OF assms] by (simp only: projection_inv_def plan_inv_def)

lemma example_history: "plan_states example_applied (''plan_'' @ zero_key) = [''PREPARED'', ''APPROVED'', ''APPLIED'']"
  by (simp add: plan_docs_def example_states prepared_members approved_members applied_members)

theorem plans_follow_their_lifecycle_witness:
  "projection_reachable zero_digest accepts_all (replicate 32 (CHR ''k'')) example_applied \<and>
    [''PREPARED'', ''APPROVED'', ''APPLIED''] \<in> set (PLAN_HISTORIES True)"
proof -
  have "Mapping.lookup (pj_attempts example_applied) (''plan_'' @ zero_key) \<noteq> None" by (simp add: example_states)
  with plans_follow_their_lifecycle [OF example_reachable, of "''plan_'' @ zero_key"] example_reachable show ?thesis
    by (simp only: example_history simp_thms)
qed

text \<open>
  C5. An applied restriction was approved in time: the records of its plan begin with the preparation, an
  approval and the application itself, the approval is by an administrator on the boot of the plan and
  before both of its deadlines, the application is in the plan's network namespace for no longer than the
  plan's time to live, and the attempt that caused it is on record.
\<close>

theorem applied_plans_were_approved_in_time:
  assumes "projection_reachable H verify public_key pj" and "doc \<in> set (pj_actions pj)" and "state_of doc = ''APPLIED''"
  shows "\<exists>prepared prepare approve rest. Mapping.lookup (pj_by_plan pj) (plan_of doc) = Some prepared \<and>
    plan_docs pj (plan_of doc) = prepare # approve # doc # rest \<and> prepared_by prepared prepare \<and>
    state_of approve = ''APPROVED'' \<and> approval_is_timely prepared approve \<and> application_is_bounded prepared doc \<and>
    Mapping.lookup (pj_attempts pj) (plan_of doc) \<noteq> None"
proof -
  let ?p = "plan_of doc"
  have inv: "plan_inv pj ?p" "\<forall>doc\<in>set (pj_actions pj). record_is_justified pj doc"
    using reachable_inv [OF assms(1)] unfolding projection_inv_def by blast+
  have d: "doc \<in> set (plan_docs pj ?p)" using assms(2) by (simp add: plan_docs_def)
  note h = applied_history [OF conjunct1 [OF inv(1) [unfolded plan_inv_def]] d assms(3)]
  from h(2) obtain prepare approve rest where docs: "plan_docs pj ?p = prepare # approve # doc # rest" "state_of approve = ''APPROVED''"
    by blast
  have "approve \<in> set (plan_docs pj ?p)" unfolding docs(1) by simp
  then have a: "approve \<in> set (pj_actions pj)" "plan_of approve = ?p" by (simp_all add: plan_docs_def)
  from inv(2) assms(2) obtain prepared where p: "Mapping.lookup (pj_by_plan pj) ?p = Some prepared" "application_is_bounded prepared doc"
    unfolding record_is_justified_def using assms(3) by blast
  moreover have "approval_is_timely prepared approve"
    using bspec [OF inv(2) a(1)] docs(2) p(1) unfolding record_is_justified_def a(2) by (simp only: option.inject) blast
  moreover have "prepared_by prepared prepare" using inv(1) p(1) docs(1) unfolding plan_inv_def by simp
  ultimately show ?thesis using docs h(1) by blast
qed

theorem applied_plans_were_approved_in_time_witness:
  "applied_doc \<in> set (pj_actions example_applied) \<and> state_of applied_doc = ''APPLIED'' \<and>
    (\<exists>prepared approve. approval_is_timely prepared approve \<and> application_is_bounded prepared applied_doc)"
proof -
  have "applied_doc \<in> set (pj_actions example_applied)" by (simp add: example_states)
  with applied_plans_were_approved_in_time [OF example_reachable this applied_members(4)] applied_members(4) show ?thesis by blast
qed








text \<open>
  C7. A rollback is exact: whatever payloads were offered since the begin of a transaction, accepted or
  refused, rolling it back gives the projection as it was at the begin.
\<close>

theorem rollback_is_exact:
  assumes "begin_extension self pj = Inr pj1"
  shows "rollback_extension self (appends H verify payloads pj1) = Inr pj"
proof -
  have k: "keeps_undone pj1 (appends H verify payloads pj1)" by (rule appends_keep_undone)
  with begin_Inr [OF assms] obtain tx where "pj_transaction (appends H verify payloads pj1) = Some tx" "tx_self tx = self"
    by (auto simp: keeps_undone_def)
  from rollback_undone [OF this] k begin_Inr [OF assms] show ?thesis by (auto simp: keeps_undone_def)
qed

theorem rollback_is_exact_witness:
  "\<exists>pj1. begin_extension 1 example_start = Inr pj1 \<and>
    pj_reservations (appends zero_digest accepts_all [payload_of reservation_doc] pj1) \<noteq> Mapping.empty \<and>
    rollback_extension 1 (appends zero_digest accepts_all [payload_of reservation_doc] pj1) = Inr example_start"
proof -
  obtain pj1 where b: "begin_extension 1 example_start = Inr pj1" by (simp add: begin_extension_def refuse_def example_start_def)
  then have "pj_public_key pj1 = pj_public_key example_start" "pj_previous pj1 = zeros" "pj_reservations pj1 = Mapping.empty"
      "pj_by_intent pj1 = Mapping.empty"
    by (auto simp: begin_extension_def result_simps example_start_def)
  from reserves_from [OF this] have "Mapping.lookup (pj_reservations (appends zero_digest accepts_all [payload_of reservation_doc] pj1)) (''int_'' @ zero_key) \<noteq> None"
    by (simp add: set_reservation_def)
  then have "pj_reservations (appends zero_digest accepts_all [payload_of reservation_doc] pj1) \<noteq> Mapping.empty" by auto
  with b rollback_is_exact [OF b] show ?thesis by blast
qed

end
