(* ===== verification/Spec2Isabelle.thy ===== *)
theory Spec2Isabelle
  imports Frames ContractProps PccProps SpecialUse CoverageForms CoverageLiveness Incidents ActuatorLifecycle
begin

text \<open>
  Verification of the evidence core of AGmind Immune (\<open>core/agmind_immune\<close>).
\<close>

end
